(* ===== verification/Prelude.thy ===== *)
theory Prelude
  imports Main "HOL-Library.Word"
begin

text \<open>
  Shared vocabulary of the development.

  A C function whose run can hit undefined behaviour, a violated library
  precondition or an abort returns a value of type \<open>'a cres\<close>: \<open>Inl\<close> of the
  \<open>fault\<close> that ends the run, or \<open>Inr\<close> of the C result.  An error that the C
  code reports itself (a negative return code, a NULL result) is part of
  the C result, never a fault.  \<open>cbind\<close> sequences two calls.

  A nullable pointer is an \<open>option\<close> (\<open>None\<close> is NULL), memory that may be
  uninitialised is a \<open>slot\<close>, a C string is a \<open>string\<close> without its terminating
  NUL, a byte buffer is a list of 8-bit words.
\<close>

unbundle bit_operations_syntax

section \<open>Machine types\<close>

type_synonym byte = "8 word"
type_synonym bytes = "8 word list"
type_synonym u16 = "16 word"
type_synonym u32 = "32 word"
type_synonym u64 = "64 word"

section \<open>Runs that can fault\<close>

datatype fault =
    NullDeref      \<comment> \<open>a NULL pointer is dereferenced\<close>
  | OutOfBounds    \<comment> \<open>a read or write outside an object\<close>
  | Uninit         \<comment> \<open>an uninitialised value is used\<close>
  | LibContract    \<comment> \<open>a library function is called outside its documented precondition\<close>
  | DoubleFree     \<comment> \<open>an object is freed twice\<close>
  | Abort          \<comment> \<open>the code calls abort or exit\<close>
  | Diverges       \<comment> \<open>the fuel given to a loop does not suffice\<close>

type_synonym 'a cres = "fault + 'a"

definition cbind :: "'a cres \<Rightarrow> ('a \<Rightarrow> 'b cres) \<Rightarrow> 'b cres" where
  "cbind m f = (case m of Inl e \<Rightarrow> Inl e | Inr x \<Rightarrow> f x)"

lemma cbind_Inl [simp]: "cbind (Inl e) f = Inl e"
  by (simp add: cbind_def)

lemma cbind_Inr [simp]: "cbind (Inr x) f = f x"
  by (simp add: cbind_def)

lemma cbind_eq_Inr: "cbind m f = Inr y \<longleftrightarrow> (\<exists>x. m = Inr x \<and> f x = Inr y)"
  by (cases m) auto

lemma cbind_eq_Inl: "cbind m f = Inl e \<longleftrightarrow> m = Inl e \<or> (\<exists>x. m = Inr x \<and> f x = Inl e)"
  by (cases m) auto

lemma cbindE: "cbind m f = Inr y \<Longrightarrow> (\<And>x. m = Inr x \<Longrightarrow> f x = Inr y \<Longrightarrow> P) \<Longrightarrow> P"
  by (auto simp: cbind_eq_Inr)

lemma cbind_split:
  "P (cbind m f) \<longleftrightarrow> (\<forall>e. m = Inl e \<longrightarrow> P (Inl e)) \<and> (\<forall>x. m = Inr x \<longrightarrow> P (f x))"
  by (cases m) auto

lemma cbind_split_asm:
  "P (cbind m f) \<longleftrightarrow>
     \<not> ((\<exists>e. m = Inl e \<and> \<not> P (Inl e)) \<or> (\<exists>x. m = Inr x \<and> \<not> P (f x)))"
  by (cases m) auto

lemmas cbind_splits = cbind_split cbind_split_asm

lemma cbind_cong [fundef_cong]:
  "m = m' \<Longrightarrow> (\<And>x. m' = Inr x \<Longrightarrow> f x = f' x) \<Longrightarrow> cbind m f = cbind m' f'"
  by (cases m') auto

lemma cbind_assoc: "cbind (cbind m f) g = cbind m (\<lambda>x. cbind (f x) g)"
  by (cases m) auto

section \<open>Pointers, uninitialised memory, arrays\<close>

definition deref :: "'a option \<Rightarrow> 'a cres" where
  "deref p = (case p of None \<Rightarrow> Inl NullDeref | Some x \<Rightarrow> Inr x)"

lemma deref_simps [simp]: "deref None = Inl NullDeref" "deref (Some x) = Inr x"
  by (simp_all add: deref_def)

lemma deref_eq_Inr [simp]: "deref p = Inr x \<longleftrightarrow> p = Some x"
  by (cases p) auto

datatype 'a slot = Garbage | Val 'a

definition rd :: "'a slot \<Rightarrow> 'a cres" where
  "rd s = (case s of Garbage \<Rightarrow> Inl Uninit | Val x \<Rightarrow> Inr x)"

lemma rd_simps [simp]: "rd Garbage = Inl Uninit" "rd (Val x) = Inr x"
  by (simp_all add: rd_def)

lemma rd_eq_Inr [simp]: "rd s = Inr x \<longleftrightarrow> s = Val x"
  by (cases s) auto

definition cnth :: "'a list \<Rightarrow> nat \<Rightarrow> 'a cres" where
  "cnth xs i = (if i < length xs then Inr (xs ! i) else Inl OutOfBounds)"

lemma cnth_in [simp]: "i < length xs \<Longrightarrow> cnth xs i = Inr (xs ! i)"
  by (simp add: cnth_def)

lemma cnth_out [simp]: "length xs \<le> i \<Longrightarrow> cnth xs i = Inl OutOfBounds"
  by (simp add: cnth_def)

lemma cnth_eq_Inr: "cnth xs i = Inr x \<longleftrightarrow> i < length xs \<and> xs ! i = x"
  by (auto simp: cnth_def)

text \<open>Element \<open>i\<close> of the array a possibly NULL pointer points to.\<close>

definition arr_get :: "'a list option \<Rightarrow> nat \<Rightarrow> 'a cres" where
  "arr_get p i = cbind (deref p) (\<lambda>xs. cnth xs i)"

lemma arr_get_simps [simp]:
  "arr_get None i = Inl NullDeref" "arr_get (Some xs) i = cnth xs i"
  by (simp_all add: arr_get_def)

section \<open>Loops over arrays\<close>

fun cmapM :: "('a \<Rightarrow> 'b cres) \<Rightarrow> 'a list \<Rightarrow> 'b list cres" where
  "cmapM f [] = Inr []"
| "cmapM f (x # xs) = cbind (f x) (\<lambda>y. cbind (cmapM f xs) (\<lambda>ys. Inr (y # ys)))"

fun cfold :: "('s \<Rightarrow> 'a \<Rightarrow> 's cres) \<Rightarrow> 's \<Rightarrow> 'a list \<Rightarrow> 's cres" where
  "cfold f s [] = Inr s"
| "cfold f s (x # xs) = cbind (f s x) (\<lambda>s'. cfold f s' xs)"

lemma cmapM_Inr_map: "(\<And>x. x \<in> set xs \<Longrightarrow> f x = Inr (g x)) \<Longrightarrow> cmapM f xs = Inr (map g xs)"
  by (induction xs) auto

lemma cmapM_length: "cmapM f xs = Inr ys \<Longrightarrow> length ys = length xs"
  by (induction xs arbitrary: ys) (auto simp: cbind_eq_Inr)

lemma cmapM_nth: "cmapM f xs = Inr ys \<Longrightarrow> i < length xs \<Longrightarrow> f (xs ! i) = Inr (ys ! i)"
proof (induction xs arbitrary: ys i)
  case (Cons x xs)
  then show ?case by (cases i) (auto simp: cbind_eq_Inr)
qed simp

lemma cmapM_append:
  "cmapM f (xs @ ys) = cbind (cmapM f xs) (\<lambda>as. cbind (cmapM f ys) (\<lambda>bs. Inr (as @ bs)))"
proof (induction xs)
  case Nil
  show ?case by (cases "cmapM f ys") simp_all
qed (simp add: cbind_assoc)

lemma cfold_append:
  "cfold f s (xs @ ys) = cbind (cfold f s xs) (\<lambda>s'. cfold f s' ys)"
  by (induction xs arbitrary: s) (auto simp: cbind_assoc)

lemma cfold_invariant:
  assumes step: "\<And>s x s'. I s \<Longrightarrow> x \<in> set xs \<Longrightarrow> f s x = Inr s' \<Longrightarrow> I s'"
    and "I s" and "cfold f s xs = Inr t"
  shows "I t"
  using assms
proof (induction xs arbitrary: s)
  case (Cons x xs)
  from Cons.prems(3) obtain s' where s': "f s x = Inr s'" "cfold f s' xs = Inr t"
    by (auto simp: cbind_eq_Inr)
  have "I s'"
    by (rule Cons.prems(1) [OF Cons.prems(2) _ s'(1)]) simp
  then show ?case
    by (rule Cons.IH [rotated]) (use Cons.prems(1) s' in auto)
qed simp

text \<open>Loops over the indices below \<open>n\<close>: induction from the last index down.\<close>

lemma idx_induct [case_names past step]:
  assumes "\<And>k. n \<le> k \<Longrightarrow> P k" and "\<And>k. k < n \<Longrightarrow> P (Suc k) \<Longrightarrow> P k"
  shows "P (k::nat)"
proof (induction "n - k" arbitrary: k)
  case 0
  then have "n \<le> k" by simp
  then show ?case by (rule assms(1))
next
  case (Suc m)
  then have k: "k < n" and "m = n - Suc k" by simp_all
  from assms(2) [OF k Suc.hyps(1) [OF this(2)]] show ?case .
qed

lemmas upt_step = upt_conv_Cons Cons_nth_drop_Suc [symmetric]

section \<open>String and memory comparison\<close>

abbreviation NUL :: char where "NUL \<equiv> CHR 0x00"

definition nul_free :: "string \<Rightarrow> bool" where
  "nul_free s \<longleftrightarrow> NUL \<notin> set s"

lemma nul_free_simps [simp]:
  "nul_free []" "nul_free (c # s) \<longleftrightarrow> c \<noteq> NUL \<and> nul_free s"
  by (auto simp: nul_free_def)

text \<open>The C string that a character buffer holds: everything before the first NUL.\<close>

definition c_str :: "string \<Rightarrow> string" where
  "c_str s = takeWhile (\<lambda>c. c \<noteq> NUL) s"

lemma c_str_nul_free [simp]: "nul_free s \<Longrightarrow> c_str s = s"
  by (auto simp: c_str_def nul_free_def takeWhile_eq_all_conv)

lemma nul_free_c_str [simp]: "nul_free (c_str s)"
  by (auto simp: c_str_def nul_free_def dest: set_takeWhileD)

text \<open>\<open>strcmp (a, b) == 0\<close> on possibly NULL pointers.\<close>

definition strcmp_eq :: "string option \<Rightarrow> string option \<Rightarrow> bool cres" where
  "strcmp_eq a b = cbind (deref a) (\<lambda>s. cbind (deref b) (\<lambda>t. Inr (s = t)))"

lemma strcmp_eq_Some [simp]: "strcmp_eq (Some s) (Some t) = Inr (s = t)"
  by (simp add: strcmp_eq_def)

lemma strcmp_eq_None [simp]:
  "strcmp_eq None b = Inl NullDeref" "strcmp_eq (Some s) None = Inl NullDeref"
  by (simp_all add: strcmp_eq_def)

lemma strcmp_eq_Inr: "strcmp_eq a b = Inr r \<longleftrightarrow> (\<exists>s t. a = Some s \<and> b = Some t \<and> r = (s = t))"
  by (auto simp: strcmp_eq_def cbind_eq_Inr)

text \<open>
  \<open>strncmp (s, t, n) == 0\<close>.  The end of a list stands for the terminating NUL of
  a literal, or for the end of a counted string that \<open>n\<close> does not pass.
\<close>

fun strncmp_eq :: "string \<Rightarrow> string \<Rightarrow> nat \<Rightarrow> bool" where
  "strncmp_eq s t 0 = True"
| "strncmp_eq [] [] (Suc n) = True"
| "strncmp_eq [] (c # t) (Suc n) = (c = NUL)"
| "strncmp_eq (c # s) [] (Suc n) = (c = NUL)"
| "strncmp_eq (c # s) (d # t) (Suc n) =
     (if c \<noteq> d then False else if c = NUL then True else strncmp_eq s t n)"

text \<open>
  A counted key compared over its own length matches exactly the prefixes of
  the literal.
\<close>

lemma strncmp_eq_key:
  "nul_free key \<Longrightarrow> nul_free lit \<Longrightarrow>
   strncmp_eq lit key (length key) \<longleftrightarrow> (\<exists>rest. lit = key @ rest)"
proof (induction key arbitrary: lit)
  case (Cons k key)
  then show ?case by (cases lit) auto
qed simp

lemma strncmp_eq_refl: "strncmp_eq s s (length s)"
  by (induction s) auto

text \<open>\<open>memcmp (a, b, n) == 0\<close> on byte buffers.\<close>

definition memcmp_eq :: "bytes \<Rightarrow> bytes \<Rightarrow> nat \<Rightarrow> bool cres" where
  "memcmp_eq a b n =
     (if n \<le> length a \<and> n \<le> length b then Inr (take n a = take n b) else Inl OutOfBounds)"

lemma memcmp_eq_exact [simp]:
  "length a = n \<Longrightarrow> length b = n \<Longrightarrow> memcmp_eq a b n = Inr (a = b)"
  by (simp add: memcmp_eq_def)

lemma memcmp_eq_Inr:
  "memcmp_eq a b n = Inr r \<longleftrightarrow> n \<le> length a \<and> n \<le> length b \<and> r = (take n a = take n b)"
  by (auto simp: memcmp_eq_def)

section \<open>Flag words\<close>

text \<open>A C flag test \<open>(v & m) == m\<close> and the bits of the constants the code uses.\<close>

definition has_flags :: "int \<Rightarrow> int \<Rightarrow> bool" where
  "has_flags v m \<longleftrightarrow> v AND m = m"

named_theorems flag_simps \<open>evaluation of flag words\<close>

lemma has_flags_bit: "has_flags v m \<longleftrightarrow> (\<forall>n. bit m n \<longrightarrow> bit v n)"
  by (auto simp: has_flags_def bit_eq_iff bit_and_iff)

lemma has_flags_or_mono: "has_flags v m \<Longrightarrow> has_flags (v OR w) m"
  by (auto simp: has_flags_bit bit_or_iff)


section \<open>Little-endian integers\<close>

fun le_bytes :: "nat \<Rightarrow> 'a::len word \<Rightarrow> bytes" where
  "le_bytes 0 w = []"
| "le_bytes (Suc n) w = ucast w # le_bytes n (drop_bit 8 w)"

fun le_word :: "bytes \<Rightarrow> 'a::len word" where
  "le_word [] = 0"
| "le_word (b # bs) = ucast b OR push_bit 8 (le_word bs)"

lemma length_le_bytes [simp]: "length (le_bytes n w) = n"
  by (induction n arbitrary: w) auto

lemma le_word_bytes: "le_word (le_bytes n w) = take_bit (8 * n) w"
proof (induction n arbitrary: w)
  case (Suc n)
  show ?case
    by (simp add: Suc)
      (rule bit_eqI, auto simp: bit_simps not_le not_less)
qed simp

lemma le_word_bytes_full [simp]: "LENGTH('a) \<le> 8 * n \<Longrightarrow> le_word (le_bytes n w) = (w :: 'a::len word)"
  by (simp add: le_word_bytes take_bit_word_eq_self)

section \<open>Byte buffers\<close>

text \<open>
  A heap buffer whose bytes may be uninitialised; a read outside it or of an
  uninitialised byte faults.
\<close>

type_synonym bbuf = "byte slot list"

definition buf_get :: "bbuf \<Rightarrow> nat \<Rightarrow> nat \<Rightarrow> bytes cres" where
  "buf_get b off n =
     (if off + n \<le> length b then cmapM rd (take n (drop off b)) else Inl OutOfBounds)"

text \<open>A fresh buffer of \<open>n\<close> bytes after \<open>bs\<close> has been stored at its start.\<close>

definition buf_store :: "nat \<Rightarrow> bytes \<Rightarrow> bbuf" where
  "buf_store n bs = map Val (take n bs) @ replicate (n - length bs) Garbage"

lemma cmapM_rd_Val [simp]: "cmapM rd (map Val xs) = Inr xs"
  by (induction xs) auto

lemma length_buf_store [simp]: "length (buf_store n bs) = n"
  by (simp add: buf_store_def)

lemma buf_store_full [simp]: "buf_store (length bs) bs = map Val bs"
  by (simp add: buf_store_def)

lemma buf_get_Val:
  "off + n \<le> length bs \<Longrightarrow> buf_get (map Val bs) off n = Inr (take n (drop off bs))"
  by (simp add: buf_get_def drop_map take_map)

text \<open>\<open>memcpy (buf + off, bs, length bs)\<close> into an initialised buffer.\<close>

definition buf_put :: "'a list \<Rightarrow> nat \<Rightarrow> 'a list \<Rightarrow> 'a list cres" where
  "buf_put b off bs =
     (if off + length bs \<le> length b then Inr (take off b @ bs @ drop (off + length bs) b)
      else Inl OutOfBounds)"

lemma buf_put_append:
  "buf_put (pre @ mid @ post) (length pre) bs = Inr (pre @ bs @ post)" if "length bs = length mid"
  using that by (simp add: buf_put_def)

lemma length_buf_put: "buf_put b off bs = Inr b' \<Longrightarrow> length b' = length b"
  by (auto simp: buf_put_def split: if_splits)

section \<open>Strings as bytes\<close>

definition to_bytes :: "string \<Rightarrow> bytes" where
  "to_bytes s = map (\<lambda>c. word_of_nat (of_char c)) s"

definition of_bytes :: "bytes \<Rightarrow> string" where
  "of_bytes bs = map (\<lambda>b. char_of (unat b)) bs"

lemma unat_char_byte [simp]: "unat (word_of_nat (of_char c) :: byte) = of_char c"
proof -
  have "of_char c < (256::nat)" by (rule nat_of_char_less_256)
  then show ?thesis by (simp add: unat_of_nat)
qed

lemma of_bytes_to_bytes [simp]: "of_bytes (to_bytes s) = s"
  by (induction s) (simp_all add: of_bytes_def to_bytes_def)

lemma length_to_bytes [simp]: "length (to_bytes s) = length s"
  by (simp add: to_bytes_def)

lemma to_bytes_nonzero: "nul_free s \<Longrightarrow> 0 \<notin> set (to_bytes s)"
proof
  assume "nul_free s" "0 \<in> set (to_bytes s)"
  then obtain c where c: "c \<in> set s" "(word_of_nat (of_char c) :: byte) = 0" by (auto simp: to_bytes_def)
  then have "of_char c = (0::nat)" by (metis unat_char_byte unat_0)
  then have "(char_of (of_char c :: nat) :: char) = char_of (0::nat)" by simp
  moreover have "char_of (0::nat) = NUL" by (simp add: char_of_def)
  ultimately have "c = NUL" by simp
  with c(1) \<open>nul_free s\<close> show False by (simp add: nul_free_def)
qed

text \<open>The C string at the start of a buffer: its bytes up to the first zero byte.\<close>

fun cstr_read :: "bbuf \<Rightarrow> bytes cres" where
  "cstr_read [] = Inl OutOfBounds"
| "cstr_read (s # b) = cbind (rd s) (\<lambda>x. if x = 0 then Inr [] else cbind (cstr_read b) (\<lambda>xs. Inr (x # xs)))"

definition cstr_at :: "bbuf \<Rightarrow> nat \<Rightarrow> string cres" where
  "cstr_at b off = cbind (cstr_read (drop off b)) (\<lambda>bs. Inr (of_bytes bs))"

lemma cstr_read_terminated:
  "0 \<notin> set bs \<Longrightarrow> cstr_read (map Val bs @ Val 0 # rest) = Inr bs"
  by (induction bs) auto

lemma cstr_at_string:
  assumes "nul_free s" "drop off b = map Val (to_bytes s) @ Val 0 # rest"
  shows "cstr_at b off = Inr s"
  using assms by (simp add: cstr_at_def cstr_read_terminated to_bytes_nonzero)

lemma cstr_read_nonzero: "cstr_read b = Inr bs \<Longrightarrow> 0 \<notin> set bs"
  by (induction b arbitrary: bs) (auto simp: cbind_eq_Inr split: if_splits)

lemma nul_free_of_bytes:
  assumes "0 \<notin> set bs"
  shows "nul_free (of_bytes bs)"
proof -
  have "NUL \<noteq> char_of (unat b)" if "b \<in> set bs" for b :: byte
  proof
    assume "NUL = char_of (unat b)"
    then have "(of_char NUL :: nat) = of_char (char_of (unat b))" by (rule arg_cong)
    then have "unat b mod 256 = 0" by simp
    moreover have "unat b < 256" using unsigned_less [of b] by simp
    ultimately have "unat b = 0" by simp
    with that assms show False by (simp add: unat_eq_zero)
  qed
  then show ?thesis by (simp only: nul_free_def of_bytes_def set_map image_iff) blast
qed

lemma cstr_at_nul_free: "cstr_at b off = Inr s \<Longrightarrow> nul_free s"
  by (auto simp: cstr_at_def cbind_eq_Inr dest: cstr_read_nonzero intro: nul_free_of_bytes)

lemma cmapM_set: "cmapM f xs = Inr ys \<Longrightarrow> y \<in> set ys \<Longrightarrow> \<exists>x \<in> set xs. f x = Inr y"
  by (induction xs arbitrary: ys) (auto simp: cbind_eq_Inr)

lemma buf_get_length: "buf_get b off n = Inr bs \<Longrightarrow> length bs = n"
  by (auto simp: buf_get_def split: if_splits dest: cmapM_length)

lemma cmapM_Inr_ex: "(\<And>x. x \<in> set xs \<Longrightarrow> \<exists>y. f x = Inr y) \<Longrightarrow> \<exists>ys. cmapM f xs = Inr ys"
  by (induction xs) force+

section \<open>Small counts in C integers\<close>

lemma sint_small_u32 [simp]: "n < 2 ^ 31 \<Longrightarrow> sint (word_of_nat n :: u32) = int n"
  by (simp add: signed_of_nat signed_take_bit_int_eq_self)

lemma scast_small_u32 [simp]: "n < 2 ^ 31 \<Longrightarrow> (scast (word_of_nat n :: u32) :: u64) = word_of_nat n"
  by (simp add: scast_eq sint_small_u32 del: of_int_of_nat_eq) simp

lemma unat_small_u64 [simp]: "n < 2 ^ 64 \<Longrightarrow> unat (word_of_nat n :: u64) = n"
  by (simp add: unat_of_nat)

text \<open>A 32-bit value widened and cut again.\<close>

lemma ucast_ucast_u32 [simp]: "ucast (ucast (v :: u32) :: u64) = v"
  by (rule bit_word_eqI) (simp add: bit_simps)

end
