(* ===== verification/Pica_Types.thy ===== *)
theory Pica_Types
  imports Prelude
begin

text \<open>
  The data of PICA (\<open>src/libpica_common.h\<close>, \<open>src/libpica_clnt.h\<close>): process
  information with the digests of the executable and of its shared
  libraries, the policy statements, and the verification flags.

  A C array together with its count field keeps both: the count is the \<open>int\<close>
  the code reads, the array is the list behind the pointer.
\<close>

unbundle bit_operations_syntax

section \<open>Process information\<close>

record fdigest =
  fd_path :: "string option"
  fd_digest :: bytes

record procinfo =
  pi_pid :: u32
  pi_ppid :: u32
  pi_ruid :: u32
  pi_rgid :: u32
  pi_euid :: u32
  pi_egid :: u32
  pi_suid :: u32
  pi_sgid :: u32
  pi_path :: "string option"
  pi_digest :: bytes
  pi_count :: int
  pi_libs :: "fdigest list option"

definition PROCINFO_BASE_ENTRIES :: nat where
  "PROCINFO_BASE_ENTRIES = 10"

text \<open>The value \<open>memset (pinfo, 0, ...)\<close> gives an entry.\<close>

definition procinfo_zero :: procinfo where
  "procinfo_zero = \<lparr>pi_pid = 0, pi_ppid = 0, pi_ruid = 0, pi_rgid = 0, pi_euid = 0, pi_egid = 0,
     pi_suid = 0, pi_sgid = 0, pi_path = None, pi_digest = replicate 32 0, pi_count = 0,
     pi_libs = None\<rparr>"

text \<open>
  The shape every completely filled entry has: string and digest fields are
  present, and the count is the length of the library array, which is NULL
  when there is none.
\<close>

definition wf_fdigest :: "fdigest \<Rightarrow> bool" where
  "wf_fdigest f \<longleftrightarrow>
     (case fd_path f of None \<Rightarrow> False | Some s \<Rightarrow> nul_free s) \<and> length (fd_digest f) = 32"

definition wf_procinfo :: "procinfo \<Rightarrow> bool" where
  "wf_procinfo p \<longleftrightarrow>
     (case pi_path p of None \<Rightarrow> False | Some s \<Rightarrow> nul_free s) \<and> length (pi_digest p) = 32 \<and>
     (case pi_libs p of None \<Rightarrow> pi_count p = 0
      | Some ls \<Rightarrow> ls \<noteq> [] \<and> pi_count p = int (length ls) \<and> (\<forall>f \<in> set ls. wf_fdigest f))"

lemma wf_fdigestD:
  "wf_fdigest f \<Longrightarrow> (\<exists>s. fd_path f = Some s \<and> nul_free s) \<and> length (fd_digest f) = 32"
  by (auto simp: wf_fdigest_def split: option.splits)

text \<open>The library array of an entry as a list, NULL being the empty one.\<close>

definition libs_of :: "procinfo \<Rightarrow> fdigest list" where
  "libs_of p = (case pi_libs p of None \<Rightarrow> [] | Some ls \<Rightarrow> ls)"

lemma wf_procinfo_libs:
  assumes "wf_procinfo p"
  shows "pi_count p = int (length (libs_of p))" "f \<in> set (libs_of p) \<Longrightarrow> wf_fdigest f"
  using assms by (auto simp: wf_procinfo_def libs_of_def split: option.splits)

lemma wf_procinfo_path:
  assumes "wf_procinfo p"
  obtains s where "pi_path p = Some s" "nul_free s" "length (pi_digest p) = 32"
  using assms by (auto simp: wf_procinfo_def split: option.splits)

section \<open>Policies\<close>

record inv_array =
  ichn_cnt :: int
  ichain :: "string option list"

record pica_stmt =
  st_sid :: "string option slot"
  st_effect :: "int slot"
  st_exec_path :: "string option slot"
  st_uid_cnt :: "int slot"
  st_uid :: "u32 list slot"
  st_act_cnt :: "int slot"
  st_action :: "string option list slot"
  st_ary_cnt :: "int slot"
  st_iarray :: "inv_array slot list slot"

record pica_policy =
  pp_version :: "string option"
  pp_entries :: int
  pp_stmt :: "pica_stmt list"

definition PICA_POLICY_V0_STRING :: string where "PICA_POLICY_V0_STRING = ''PICA-2026-09-15''"
definition PICA_POLICY_V1_STRING :: string where "PICA_POLICY_V1_STRING = ''PICA-2026-09-25''"

definition PICA_NONE :: int where "PICA_NONE = 0"
definition PICA_ALLOW :: int where "PICA_ALLOW = 1"
definition PICA_DENY :: int where "PICA_DENY = 2"

text \<open>\<open>malloc\<close> leaves every field of a fresh statement uninitialised.\<close>

definition stmt_garbage :: pica_stmt where
  "stmt_garbage = \<lparr>st_sid = Garbage, st_effect = Garbage, st_exec_path = Garbage,
     st_uid_cnt = Garbage, st_uid = Garbage, st_act_cnt = Garbage, st_action = Garbage,
     st_ary_cnt = Garbage, st_iarray = Garbage\<rparr>"

definition policy_zero :: pica_policy where
  "policy_zero = \<lparr>pp_version = None, pp_entries = 0, pp_stmt = []\<rparr>"

section \<open>Verification flags\<close>

definition VERIFY_TPM2_QUOTE :: int where "VERIFY_TPM2_QUOTE = 1"
definition VERIFY_TPM2_FRESH :: int where "VERIFY_TPM2_FRESH = 2"
definition VERIFY_PICA_BINARIES :: int where "VERIFY_PICA_BINARIES = 4"
definition VERIFY_PICA_CHAIN :: int where "VERIFY_PICA_CHAIN = 8"
definition VERIFY_PICA_UIDS :: int where "VERIFY_PICA_UIDS = 16"

declare VERIFY_TPM2_QUOTE_def [flag_simps] VERIFY_TPM2_FRESH_def [flag_simps]
  VERIFY_PICA_BINARIES_def [flag_simps] VERIFY_PICA_CHAIN_def [flag_simps]
  VERIFY_PICA_UIDS_def [flag_simps]

definition VERIFIED_ALL :: "int \<Rightarrow> bool" where
  "VERIFIED_ALL v \<longleftrightarrow>
     (let m = VERIFY_TPM2_QUOTE OR VERIFY_PICA_BINARIES OR VERIFY_PICA_CHAIN OR VERIFY_PICA_UIDS
      in v AND m = m)"

lemma VERIFIED_ALL_flags:
  "VERIFIED_ALL v \<longleftrightarrow> has_flags v VERIFY_TPM2_QUOTE \<and> has_flags v VERIFY_PICA_BINARIES \<and>
     has_flags v VERIFY_PICA_CHAIN \<and> has_flags v VERIFY_PICA_UIDS"
proof -
  have "VERIFIED_ALL v \<longleftrightarrow>
      has_flags v (VERIFY_TPM2_QUOTE OR VERIFY_PICA_BINARIES OR VERIFY_PICA_CHAIN OR VERIFY_PICA_UIDS)"
    by (simp only: VERIFIED_ALL_def has_flags_def Let_def)
  then show ?thesis
    by (auto simp: has_flags_bit bit_or_iff)
qed

definition EXTRACT_TPM2_QUTE :: int where "EXTRACT_TPM2_QUTE = 1"
definition EXTRACT_TPM2_SIGN :: int where "EXTRACT_TPM2_SIGN = 2"
definition EXTRACT_TPM2_APHASH :: int where "EXTRACT_TPM2_APHASH = 4"

declare EXTRACT_TPM2_QUTE_def [flag_simps] EXTRACT_TPM2_SIGN_def [flag_simps]
  EXTRACT_TPM2_APHASH_def [flag_simps]

definition IS_EXTRACT_TPM2_ALL :: "int \<Rightarrow> bool" where
  "IS_EXTRACT_TPM2_ALL rc \<longleftrightarrow>
     (let m = EXTRACT_TPM2_QUTE OR EXTRACT_TPM2_SIGN OR EXTRACT_TPM2_APHASH in rc AND m = m)"

section \<open>Kinds of hash table entries\<close>

definition PICA_ENT_CONF_PROCINFO :: int where "PICA_ENT_CONF_PROCINFO = 1"
definition PICA_ENT_FRESH_PROCINFO :: int where "PICA_ENT_FRESH_PROCINFO = 2"
definition PICA_ENT_CONF_POLICY :: int where "PICA_ENT_CONF_POLICY = 3"

text \<open>What an entry of the table points to.\<close>

datatype entref = RefProc procinfo | RefStmt pica_stmt

end
