(* ===== verification/Pica_Htable.thy ===== *)
theory Pica_Htable
  imports Pica_Types
begin

text \<open>
  The hash table of \<open>src/libpica_clnt.c\<close> (\<open>myhash\<close>, \<open>reg_hashtable\<close>,
  \<open>find_hashtable\<close>, \<open>pica_build_hashtable\<close>): 1024 buckets, each an inline first
  entry and a chain of further ones, keyed by the pair of entry kind and path.
  The murmur3 library is a parameter \<open>mm\<close>; nothing is assumed about it.

  The interface \<open>first_wins\<close> states what clients rely on: the first
  registration of a key is the one that lookups return.
\<close>

unbundle bit_operations_syntax

section \<open>The interface: a table where the first registration wins\<close>

locale first_wins =
  fixes empty :: 't
    and lookup :: "'t \<Rightarrow> 'k \<Rightarrow> 'v option"
    and insert :: "'k \<Rightarrow> 'v \<Rightarrow> 't \<Rightarrow> 't"
    and inv :: "'t \<Rightarrow> bool"
  assumes inv_empty: "inv empty"
    and inv_insert: "inv t \<Longrightarrow> inv (insert k v t)"
    and lookup_empty: "lookup empty k = None"
    and lookup_insert: "inv t \<Longrightarrow> lookup (insert k v t) k' =
          (if k' = k \<and> lookup t k = None then Some v else lookup t k')"
begin

fun insert_all :: "('k \<times> 'v) list \<Rightarrow> 't \<Rightarrow> 't" where
  "insert_all [] t = t"
| "insert_all ((k, v) # kvs) t = insert_all kvs (insert k v t)"

lemma inv_insert_all: "inv t \<Longrightarrow> inv (insert_all kvs t)"
  by (induction kvs t rule: insert_all.induct) (auto intro: inv_insert)

lemma lookup_insert_all:
  "inv t \<Longrightarrow> lookup (insert_all kvs t) k =
     (case lookup t k of Some v \<Rightarrow> Some v | None \<Rightarrow> map_of kvs k)"
  by (induction kvs t rule: insert_all.induct)
    (auto simp: lookup_insert inv_insert split: option.splits)

text \<open>Built from the empty table, lookups are \<open>map_of\<close> of the registrations.\<close>

lemma lookup_built: "lookup (insert_all kvs empty) k = map_of kvs k"
  by (simp add: lookup_insert_all inv_empty lookup_empty)

text \<open>A registered entry is never replaced or lost.\<close>

lemma lookup_stable: "inv t \<Longrightarrow> lookup t k = Some v \<Longrightarrow> lookup (insert_all kvs t) k = Some v"
  by (simp add: lookup_insert_all)

end

section \<open>State\<close>

definition HTABLE_SZ :: nat where "HTABLE_SZ = 1024"

record 'a hentry =
  he_path :: "string option"
  he_type :: int
  he_addr :: "'a option"

text \<open>\<open>bk_next\<close> is the chain that starts at the \<open>next\<close> field of the inline entry.\<close>

record 'a bucket =
  bk_hash :: u32
  bk_hentry :: "'a hentry"
  bk_next :: "'a hentry list"

type_synonym 'a htable = "'a bucket list"

definition bucket_zero :: "'a bucket" where
  "bucket_zero = \<lparr>bk_hash = 0,
     bk_hentry = \<lparr>he_path = None, he_type = 0, he_addr = None\<rparr>, bk_next = []\<rparr>"

definition htable_zero :: "'a htable" where
  "htable_zero = replicate HTABLE_SZ bucket_zero"

section \<open>Operations\<close>

definition myhash :: "(string \<Rightarrow> u32) \<Rightarrow> string \<Rightarrow> u32" where
  "myhash mm cp =
     (let hash = mm cp;
          hash = (drop_bit 16 hash XOR (hash AND 0xffff)) mod of_nat HTABLE_SZ
      in if hash = 0 then 1 else hash)"

text \<open>
  The test \<open>ph->type == which && !strcmp (ph->path, path)\<close>: the paths are compared
  only when the kinds agree.
\<close>

definition ent_match :: "int \<Rightarrow> string option \<Rightarrow> 'a hentry \<Rightarrow> bool cres" where
  "ent_match which path ph = (if he_type ph = which then strcmp_eq (he_path ph) path else Inr False)"

fun chain_has :: "int \<Rightarrow> string option \<Rightarrow> 'a hentry list \<Rightarrow> bool cres" where
  "chain_has which path [] = Inr False"
| "chain_has which path (ph # phs) =
     cbind (ent_match which path ph) (\<lambda>m. if m then Inr True else chain_has which path phs)"

definition reg_hashtable ::
    "(string \<Rightarrow> u32) \<Rightarrow> int \<Rightarrow> 'a option \<Rightarrow> string option \<Rightarrow> 'a htable \<Rightarrow> 'a htable cres" where
  "reg_hashtable mm which addr path tbl =
     cbind (deref path) (\<lambda>p.
     let hash = myhash mm p; i = unat hash in
     cbind (cnth tbl i) (\<lambda>b.
     if bk_hash b = 0 then
       Inr (tbl[i := b\<lparr>bk_hash := hash,
         bk_hentry := \<lparr>he_path = path, he_type = which, he_addr = addr\<rparr>\<rparr>])
     else
       cbind (ent_match which path (bk_hentry b)) (\<lambda>same.
       if same then Inr tbl
       else cbind (chain_has which path (bk_next b)) (\<lambda>skip.
         if skip then Inr tbl
         else Inr (tbl[i := b\<lparr>bk_next := bk_next b @
                [\<lparr>he_path = path, he_type = which, he_addr = addr\<rparr>]\<rparr>])))))"

fun chain_find :: "int \<Rightarrow> string option \<Rightarrow> 'a hentry list \<Rightarrow> 'a option cres" where
  "chain_find which path [] = Inr None"
| "chain_find which path (ph # phs) =
     cbind (ent_match which path ph) (\<lambda>m. if m then Inr (he_addr ph) else chain_find which path phs)"

definition find_hashtable ::
    "(string \<Rightarrow> u32) \<Rightarrow> 'a htable \<Rightarrow> string option \<Rightarrow> int \<Rightarrow> 'a option cres" where
  "find_hashtable mm tbl path which =
     cbind (deref path) (\<lambda>p.
     cbind (cnth tbl (unat (myhash mm p))) (\<lambda>b.
     if bk_hash b = 0 then Inr None
     else chain_find which path (bk_hentry b # bk_next b)))"

definition pica_build_hashtable ::
    "(string \<Rightarrow> u32) \<Rightarrow> procinfo list \<Rightarrow> entref htable cres" where
  "pica_build_hashtable mm pif =
     cfold (\<lambda>tbl p. reg_hashtable mm PICA_ENT_CONF_PROCINFO (Some (RefProc p)) (pi_path p) tbl)
       htable_zero pif"

section \<open>Bounds of the hash\<close>

lemma myhash_bounds: "unat (myhash mm cp) < HTABLE_SZ" "0 < unat (myhash mm cp)"
proof -
  let ?h = "(drop_bit 16 (mm cp) XOR (mm cp AND 0xffff)) mod (of_nat HTABLE_SZ :: u32)"
  have "unat ?h < HTABLE_SZ"
    by (simp add: unat_mod HTABLE_SZ_def)
  then show "unat (myhash mm cp) < HTABLE_SZ"
    by (simp add: myhash_def Let_def HTABLE_SZ_def)
  show "0 < unat (myhash mm cp)"
    by (simp add: myhash_def Let_def unat_gt_0)
qed

section \<open>Invariant and abstraction\<close>

text \<open>
  Entries carry a path and an address; a bucket in use carries its index; an
  unused one has no chain.
\<close>

definition ent_ok :: "'a hentry \<Rightarrow> bool" where
  "ent_ok ph \<longleftrightarrow> he_path ph \<noteq> None \<and> he_addr ph \<noteq> None"

definition bucket_ok :: "nat \<Rightarrow> 'a bucket \<Rightarrow> bool" where
  "bucket_ok i b \<longleftrightarrow>
     (if bk_hash b = 0 then bk_next b = []
      else unat (bk_hash b) = i \<and> (\<forall>ph \<in> set (bk_hentry b # bk_next b). ent_ok ph))"

definition htable_ok :: "'a htable \<Rightarrow> bool" where
  "htable_ok tbl \<longleftrightarrow> length tbl = HTABLE_SZ \<and> (\<forall>i < HTABLE_SZ. bucket_ok i (tbl ! i))"

text \<open>The entries of a bucket as an association list from keys to addresses.\<close>

definition ent_key :: "'a hentry \<Rightarrow> int \<times> string" where
  "ent_key ph = (he_type ph, the (he_path ph))"

definition bucket_alist :: "'a bucket \<Rightarrow> ((int \<times> string) \<times> 'a) list" where
  "bucket_alist b =
     (if bk_hash b = 0 then []
      else map (\<lambda>ph. (ent_key ph, the (he_addr ph))) (bk_hentry b # bk_next b))"

definition htable_map :: "(string \<Rightarrow> u32) \<Rightarrow> 'a htable \<Rightarrow> int \<times> string \<Rightarrow> 'a option" where
  "htable_map mm tbl k = map_of (bucket_alist (tbl ! unat (myhash mm (snd k)))) k"

lemma ent_match_ok:
  "ent_ok ph \<Longrightarrow> ent_match which (Some p) ph = Inr (ent_key ph = (which, p))"
  by (auto simp: ent_match_def ent_ok_def ent_key_def)

lemma chain_find_ok:
  "\<forall>ph \<in> set phs. ent_ok ph \<Longrightarrow>
   chain_find which (Some p) phs =
     Inr (map_of (map (\<lambda>ph. (ent_key ph, the (he_addr ph))) phs) (which, p))"
  by (induction phs) (auto simp: ent_match_ok ent_ok_def)

lemma chain_has_ok:
  "\<forall>ph \<in> set phs. ent_ok ph \<Longrightarrow>
   chain_has which (Some p) phs = Inr ((which, p) \<in> ent_key ` set phs)"
  by (induction phs) (auto simp: ent_match_ok)

lemma htable_ok_bucket:
  "htable_ok tbl \<Longrightarrow> bucket_ok (unat (myhash mm p)) (tbl ! unat (myhash mm p))"
  "htable_ok tbl \<Longrightarrow> unat (myhash mm p) < length tbl"
  by (simp_all add: htable_ok_def myhash_bounds)

text \<open>A lookup of a non-NULL path reads the abstract map.\<close>

lemma find_hashtable_ok:
  assumes "htable_ok tbl"
  shows "find_hashtable mm tbl (Some p) which =
     Inr (htable_map mm tbl (which, p))"
proof -
  let ?b = "tbl ! unat (myhash mm p)"
  from assms have ok: "bucket_ok (unat (myhash mm p)) ?b"
    and len: "unat (myhash mm p) < length tbl"
    by (rule htable_ok_bucket)+
  show ?thesis
  proof (cases "bk_hash ?b = 0")
    case True
    with len show ?thesis
      by (simp add: find_hashtable_def htable_map_def bucket_alist_def)
  next
    case False
    with ok have "\<forall>ph \<in> set (bk_hentry ?b # bk_next ?b). ent_ok ph"
      by (simp add: bucket_ok_def)
    from chain_find_ok [OF this, of which p] len False show ?thesis
      by (simp add: find_hashtable_def htable_map_def bucket_alist_def del: chain_find.simps)
  qed
qed

lemma htable_ok_update:
  assumes "htable_ok tbl" "bucket_ok i b"
  shows "htable_ok (tbl[i := b])"
  using assms by (cases "i < length tbl") (auto simp: htable_ok_def nth_list_update)

lemma htable_map_update:
  assumes "htable_ok tbl"
  shows "htable_map mm (tbl[unat (myhash mm p) := b]) k =
     (if unat (myhash mm (snd k)) = unat (myhash mm p) then map_of (bucket_alist b) k
      else htable_map mm tbl k)"
  using htable_ok_bucket(2) [OF assms] by (auto simp: htable_map_def nth_list_update)

text \<open>
  Registering a non-NULL path never faults; it adds the entry when the key is
  new and leaves the table as it is otherwise.
\<close>

lemma reg_hashtable_ok:
  assumes "htable_ok tbl"
  shows "\<exists>tbl'. reg_hashtable mm which (Some a) (Some p) tbl = Inr tbl' \<and> htable_ok tbl' \<and>
     (\<forall>k. htable_map mm tbl' k =
        (if k = (which, p) \<and> htable_map mm tbl (which, p) = None then Some a
         else htable_map mm tbl k))"
proof -
  let ?i = "unat (myhash mm p)"
  let ?b = "tbl ! ?i"
  let ?e = "\<lparr>he_path = Some p, he_type = which, he_addr = Some a\<rparr>"
  from assms have ok: "bucket_ok ?i ?b" and len: "?i < length tbl"
    by (rule htable_ok_bucket)+
  have hash: "myhash mm p \<noteq> 0"
    using myhash_bounds(2) [of mm p] by auto
  have e_ok: "ent_ok ?e" and e_key: "ent_key ?e = (which, p)"
    by (simp_all add: ent_ok_def ent_key_def)
  show ?thesis
  proof (cases "bk_hash ?b = 0")
    case True
    let ?t = "tbl[?i := ?b\<lparr>bk_hash := myhash mm p, bk_hentry := ?e\<rparr>]"
    have "reg_hashtable mm which (Some a) (Some p) tbl = Inr ?t"
      using True len by (simp add: reg_hashtable_def Let_def)
    moreover have "htable_ok ?t"
      using ok True e_ok hash by (intro htable_ok_update assms) (simp add: bucket_ok_def)
    moreover have "htable_map mm tbl k = None" if "unat (myhash mm (snd k)) = ?i" for k
      using True that by (simp add: htable_map_def bucket_alist_def)
    ultimately show ?thesis
      using ok True hash e_key
      by (auto simp: htable_map_update [OF assms] bucket_alist_def bucket_ok_def)
  next
    case False
    with ok have ents: "\<forall>ph \<in> set (bk_hentry ?b # bk_next ?b). ent_ok ph"
      by (simp add: bucket_ok_def)
    have dom: "htable_map mm tbl (which, p) = None \<longleftrightarrow>
        (which, p) \<notin> ent_key ` set (bk_hentry ?b # bk_next ?b)"
      using False by (auto simp: htable_map_def bucket_alist_def map_of_eq_None_iff image_image)
    show ?thesis
    proof (cases "htable_map mm tbl (which, p) = None")
      case None: True
      let ?t = "tbl[?i := ?b\<lparr>bk_next := bk_next ?b @ [?e]\<rparr>]"
      have "reg_hashtable mm which (Some a) (Some p) tbl = Inr ?t"
        using False len ents None dom
        by (auto simp: reg_hashtable_def Let_def ent_match_ok chain_has_ok)
      moreover have "htable_ok ?t"
        using ok False e_ok by (intro htable_ok_update assms) (auto simp: bucket_ok_def)
      moreover have "htable_map mm ?t k = (if k = (which, p) then Some a else htable_map mm tbl k)"
        for k
      proof (cases "unat (myhash mm (snd k)) = ?i")
        case True
        have "map_of (bucket_alist ?b) k = htable_map mm tbl k"
          using True by (simp add: htable_map_def)
        moreover have "bucket_alist (?b\<lparr>bk_next := bk_next ?b @ [?e]\<rparr>)
            = bucket_alist ?b @ [((which, p), a)]"
          using False e_key by (simp add: bucket_alist_def)
        ultimately show ?thesis
          using True None by (auto simp: htable_map_update [OF assms] map_add_def split: option.splits)
      next
        case other: False
        then show ?thesis by (auto simp: htable_map_update [OF assms])
      qed
      ultimately show ?thesis using None by auto
    next
      case Some: False
      then have "reg_hashtable mm which (Some a) (Some p) tbl = Inr tbl"
        using False len ents dom
        by (auto simp: reg_hashtable_def Let_def ent_match_ok chain_has_ok)
      with assms Some show ?thesis by auto
    qed
  qed
qed

section \<open>The table provides the interface\<close>

text \<open>The two operations on non-NULL paths and addresses, as total functions.\<close>

definition tbl_insert :: "(string \<Rightarrow> u32) \<Rightarrow> int \<times> string \<Rightarrow> 'a \<Rightarrow> 'a htable \<Rightarrow> 'a htable" where
  "tbl_insert mm k a tbl =
     (case reg_hashtable mm (fst k) (Some a) (Some (snd k)) tbl of Inr t \<Rightarrow> t | Inl _ \<Rightarrow> tbl)"

definition tbl_lookup :: "(string \<Rightarrow> u32) \<Rightarrow> 'a htable \<Rightarrow> int \<times> string \<Rightarrow> 'a option" where
  "tbl_lookup mm tbl k =
     (case find_hashtable mm tbl (Some (snd k)) (fst k) of Inr r \<Rightarrow> r | Inl _ \<Rightarrow> None)"

lemma tbl_lookup_map: "htable_ok tbl \<Longrightarrow> tbl_lookup mm tbl k = htable_map mm tbl k"
  by (cases k) (simp add: tbl_lookup_def find_hashtable_ok)

lemma reg_hashtable_insert:
  "htable_ok tbl \<Longrightarrow> reg_hashtable mm which (Some a) (Some p) tbl = Inr (tbl_insert mm (which, p) a tbl)"
  using reg_hashtable_ok [of tbl mm which a p] by (auto simp: tbl_insert_def)

lemma htable_ok_insert: "htable_ok tbl \<Longrightarrow> htable_ok (tbl_insert mm k a tbl)"
  using reg_hashtable_ok [of tbl mm "fst k" a "snd k"] by (auto simp: tbl_insert_def)

lemma htable_ok_zero: "htable_ok htable_zero"
  by (simp add: htable_ok_def htable_zero_def bucket_ok_def bucket_zero_def)

interpretation pica_tbl: first_wins htable_zero "tbl_lookup mm" "tbl_insert mm" htable_ok
  for mm :: "string \<Rightarrow> u32"
proof unfold_locales
  fix t :: "'a htable" and k k' :: "int \<times> string" and v
  assume t: "htable_ok t"
  then show "htable_ok (tbl_insert mm k v t)"
    by (rule htable_ok_insert)
  from reg_hashtable_ok [OF t, of mm "fst k" v "snd k"]
  show "tbl_lookup mm (tbl_insert mm k v t) k' =
      (if k' = k \<and> tbl_lookup mm t k = None then Some v else tbl_lookup mm t k')"
    using t by (cases k; cases k') (auto simp: tbl_lookup_map tbl_insert_def)
next
  fix k :: "int \<times> string"
  show "tbl_lookup mm (htable_zero :: 'a htable) k = None"
    using myhash_bounds(1) [of mm "snd k"]
    by (simp add: tbl_lookup_map [OF htable_ok_zero])
      (simp add: htable_map_def htable_zero_def bucket_alist_def bucket_zero_def)
qed (rule htable_ok_zero)

lemma find_hashtable_lookup:
  "htable_ok tbl \<Longrightarrow> find_hashtable mm tbl (Some p) which = Inr (tbl_lookup mm tbl (which, p))"
  by (simp add: find_hashtable_ok tbl_lookup_map)

section \<open>Registering an array of entries\<close>

text \<open>The key and value pairs that the entries of a configuration register.\<close>

definition conf_entries :: "procinfo list \<Rightarrow> ((int \<times> string) \<times> entref) list" where
  "conf_entries ps = map (\<lambda>p. ((PICA_ENT_CONF_PROCINFO, the (pi_path p)), RefProc p)) ps"

lemma reg_fold_insert_all:
  assumes "htable_ok tbl" "\<forall>p \<in> set ps. pi_path p \<noteq> None"
  shows "cfold (\<lambda>tbl p. reg_hashtable mm PICA_ENT_CONF_PROCINFO (Some (RefProc p)) (pi_path p) tbl) tbl ps
     = Inr (pica_tbl.insert_all mm (conf_entries ps) tbl)"
  using assms
proof (induction ps arbitrary: tbl)
  case (Cons p ps)
  from Cons.prems(2) obtain s where s: "pi_path p = Some s" by auto
  with Cons.prems(1) have
    "reg_hashtable mm PICA_ENT_CONF_PROCINFO (Some (RefProc p)) (pi_path p) tbl
       = Inr (tbl_insert mm (PICA_ENT_CONF_PROCINFO, s) (RefProc p) tbl)"
    by (simp add: reg_hashtable_insert)
  then show ?case
    using Cons s by (simp add: conf_entries_def htable_ok_insert)
qed (simp add: conf_entries_def)

lemma conf_lookup:
  assumes "\<forall>p \<in> set ps. pi_path p \<noteq> None"
  shows "map_of (conf_entries ps) (which, path) =
      (if which = PICA_ENT_CONF_PROCINFO
       then map_option RefProc (find (\<lambda>p. pi_path p = Some path) ps) else None)"
  using assms by (induction ps) (auto simp: conf_entries_def)

text \<open>
  C23.  After \<open>pica_build_hashtable\<close> a lookup of kind \<open>PICA_ENT_CONF_PROCINFO\<close>
  returns the first registered entry with that path, and NULL when there is
  none, whatever hash function murmur3 computes and however paths collide; a
  lookup of another kind finds nothing.
\<close>

theorem build_hashtable_first_match:
  assumes "\<forall>p \<in> set ps. pi_path p \<noteq> None"
  shows "\<exists>tbl. pica_build_hashtable mm ps = Inr tbl \<and> htable_ok tbl \<and>
     (\<forall>path which. find_hashtable mm tbl (Some path) which =
        Inr (if which = PICA_ENT_CONF_PROCINFO
             then map_option RefProc (find (\<lambda>p. pi_path p = Some path) ps) else None))"
proof -
  let ?t = "pica_tbl.insert_all mm (conf_entries ps) htable_zero"
  have "pica_build_hashtable mm ps = Inr ?t"
    using assms by (simp add: pica_build_hashtable_def reg_fold_insert_all htable_ok_zero)
  moreover have ok: "htable_ok ?t"
    by (rule pica_tbl.inv_insert_all [OF htable_ok_zero])
  ultimately show ?thesis
    by (auto simp: find_hashtable_lookup pica_tbl.lookup_built conf_lookup [OF assms])
qed

text \<open>Three entries, two of them with the same path, under a constant hash.\<close>

definition ex_proc :: "string \<Rightarrow> bytes \<Rightarrow> procinfo" where
  "ex_proc path dig = procinfo_zero\<lparr>pi_path := Some path, pi_digest := dig\<rparr>"

theorem build_hashtable_first_match_witness:
  "\<exists>tbl. pica_build_hashtable (\<lambda>_. 7) [ex_proc ''/a'' [1], ex_proc ''/b'' [2], ex_proc ''/a'' [3]] = Inr tbl \<and>
     find_hashtable (\<lambda>_. 7) tbl (Some ''/a'') PICA_ENT_CONF_PROCINFO = Inr (Some (RefProc (ex_proc ''/a'' [1])))"
proof -
  let ?ps = "[ex_proc ''/a'' [1], ex_proc ''/b'' [2], ex_proc ''/a'' [3]]"
  have h: "\<forall>p \<in> set ?ps. pi_path p \<noteq> None"
    by (simp add: ex_proc_def)
  from build_hashtable_first_match [OF h, of "\<lambda>_. 7"] show ?thesis
    by (auto simp: ex_proc_def)
qed

end
