(* ===== verification/Io.thy ===== *)
theory Io
  imports Prelude
begin

text \<open>
  File access (\<open>src/libio.c\<close>): the host functions \<open>file_open\<close> \<dots>
  \<open>file_seal_read_close\<close> over the system calls, their \<open>ocall_\<close> twins, and the
  enclave side that goes through an edge call and seals.

  The system calls are a parameter, a record \<open>os\<close> of functions on a state
  \<open>'w\<close> of the world; nothing is assumed of them.  A \<open>size_t\<close> is a 64-bit word, so
  the \<open>-1\<close> of a failed \<open>read\<close> is the largest size.  The SGX sealing calls are
  the record \<open>sealer\<close>.
\<close>

unbundle bit_operations_syntax

section \<open>The operating system and the sealing library\<close>

record 'w os =
  os_open :: "string \<Rightarrow> int \<Rightarrow> int \<Rightarrow> 'w \<Rightarrow> int \<times> 'w"
  os_read :: "int \<Rightarrow> u64 \<Rightarrow> 'w \<Rightarrow> (int \<times> bytes) \<times> 'w"
  os_write :: "int \<Rightarrow> bytes \<Rightarrow> 'w \<Rightarrow> int \<times> 'w"
  os_lseek :: "int \<Rightarrow> int \<Rightarrow> int \<Rightarrow> 'w \<Rightarrow> int \<times> 'w"
  os_close :: "int \<Rightarrow> 'w \<Rightarrow> int \<times> 'w"
  os_chmod :: "string \<Rightarrow> int \<Rightarrow> 'w \<Rightarrow> int \<times> 'w"
  os_malloc :: "u64 \<Rightarrow> 'w \<Rightarrow> bool \<times> 'w"

text \<open>
  \<open>seal\<close> and \<open>unseal\<close> return the status word and the output; status 0 is
  \<open>SGX_SUCCESS\<close>.  \<open>unseal\<close> also returns the length it stores.
\<close>

record sealer =
  calc_sealed_size :: "u64 \<Rightarrow> u32"
  seal_data :: "bytes \<Rightarrow> u32 \<times> bytes"
  encrypt_txt_len :: "bytes \<Rightarrow> u32"
  unseal_data :: "bytes \<Rightarrow> u32 \<times> u32 \<times> bytes"

text \<open>
  The stream functions of the C library, with \<open>None\<close> for a NULL stream; \<open>si_fopen\<close>
  takes path and mode.
\<close>

record 'w stdio =
  si_fopen :: "string \<Rightarrow> string \<Rightarrow> 'w \<Rightarrow> int option \<times> 'w"
  si_fseek :: "int \<Rightarrow> int \<Rightarrow> int \<Rightarrow> 'w \<Rightarrow> int \<times> 'w"
  si_ftell :: "int \<Rightarrow> 'w \<Rightarrow> int \<times> 'w"
  si_fread :: "int \<Rightarrow> u64 \<Rightarrow> 'w \<Rightarrow> bytes \<times> 'w"
  si_fwrite :: "int \<Rightarrow> bytes \<Rightarrow> 'w \<Rightarrow> nat \<times> 'w"
  si_fclose :: "int \<Rightarrow> 'w \<Rightarrow> int \<times> 'w"

definition O_RDONLY :: int where "O_RDONLY = 0"
definition O_RDWR :: int where "O_RDWR = 2"
definition O_CREAT :: int where "O_CREAT = 64"
definition SEEK_SET :: int where "SEEK_SET = 0"
definition SEEK_END :: int where "SEEK_END = 2"

section \<open>Host side\<close>

definition file_open :: "'w os \<Rightarrow> string \<Rightarrow> int \<Rightarrow> int \<Rightarrow> 'w \<Rightarrow> int \<times> 'w" where
  "file_open os path flag mode w = os_open os path flag mode w"

definition ocall_file_open :: "'w os \<Rightarrow> string \<Rightarrow> int \<Rightarrow> int \<Rightarrow> 'w \<Rightarrow> int \<times> 'w" where
  "ocall_file_open os path flag mode w = file_open os path flag mode w"

definition file_read :: "'w os \<Rightarrow> int \<Rightarrow> u64 \<Rightarrow> 'w \<Rightarrow> (u64 \<times> bytes) \<times> 'w" where
  "file_read os fd rsz w =
     (let ((sz, bs), w) = os_read os fd rsz w in ((word_of_int sz, bs), w))"

definition ocall_file_read :: "'w os \<Rightarrow> int \<Rightarrow> u64 \<Rightarrow> 'w \<Rightarrow> (u64 \<times> bytes) \<times> 'w" where
  "ocall_file_read os fd rsz w = file_read os fd rsz w"

definition file_write :: "'w os \<Rightarrow> int \<Rightarrow> bytes \<Rightarrow> 'w \<Rightarrow> u64 \<times> 'w" where
  "file_write os fd buf w = (let (sz, w) = os_write os fd buf w in (word_of_int sz, w))"

definition ocall_file_write :: "'w os \<Rightarrow> int \<Rightarrow> bytes \<Rightarrow> 'w \<Rightarrow> u64 \<times> 'w" where
  "ocall_file_write os fd buf w = file_write os fd buf w"

text \<open>The \<open>off_t\<close> that \<open>lseek\<close> returns is cut to an \<open>int\<close>.\<close>

definition file_lseek :: "'w os \<Rightarrow> int \<Rightarrow> int \<Rightarrow> int \<Rightarrow> 'w \<Rightarrow> int \<times> 'w" where
  "file_lseek os fd off whence w =
     (let (rc, w) = os_lseek os fd off whence w in (sint (word_of_int rc :: u32), w))"

definition ocall_file_lseek :: "'w os \<Rightarrow> int \<Rightarrow> int \<Rightarrow> int \<Rightarrow> 'w \<Rightarrow> int \<times> 'w" where
  "ocall_file_lseek os fd off whence w = file_lseek os fd off whence w"

definition file_close :: "'w os \<Rightarrow> int \<Rightarrow> 'w \<Rightarrow> int \<times> 'w" where
  "file_close os fd w = os_close os fd w"

definition ocall_file_close :: "'w os \<Rightarrow> int \<Rightarrow> 'w \<Rightarrow> int \<times> 'w" where
  "ocall_file_close os fd w = file_close os fd w"

definition file_chmod :: "'w os \<Rightarrow> string \<Rightarrow> int \<Rightarrow> 'w \<Rightarrow> int \<times> 'w" where
  "file_chmod os path mode w = os_chmod os path mode w"

definition ocall_file_chmod :: "'w os \<Rightarrow> string \<Rightarrow> int \<Rightarrow> 'w \<Rightarrow> int \<times> 'w" where
  "ocall_file_chmod os path mode w = file_chmod os path mode w"

text \<open>The short-read message is printed but the size is returned as it is.\<close>

definition file_read_close :: "'w os \<Rightarrow> int \<Rightarrow> u64 \<Rightarrow> 'w \<Rightarrow> (u64 \<times> bytes) \<times> 'w" where
  "file_read_close os fd bufsz w =
     (let ((sz, bs), w) = os_read os fd bufsz w;
          (_, w) = os_close os fd w
      in ((word_of_int sz, bs), w))"

definition ocall_file_read_close :: "'w os \<Rightarrow> int \<Rightarrow> u64 \<Rightarrow> 'w \<Rightarrow> (u64 \<times> bytes) \<times> 'w" where
  "ocall_file_read_close os fd rsz w = file_read_close os fd rsz w"

text \<open>The descriptor is not closed when the buffer is too small.\<close>

definition file_read_file :: "'w os \<Rightarrow> string \<Rightarrow> u64 \<Rightarrow> 'w \<Rightarrow> (u64 \<times> bytes) \<times> 'w" where
  "file_read_file os path bufsz w =
     (let (fd, w) = os_open os path O_RDONLY 0 w in
      if fd < 0 then ((0, []), w)
      else
        let (off, w) = os_lseek os fd 0 SEEK_END w; len = (word_of_int off :: u64);
            (_, w) = os_lseek os fd 0 SEEK_SET w
        in if bufsz < len then ((0, []), w)
           else let ((sz, bs), w) = os_read os fd len w;
                    (_, w) = os_close os fd w
                in ((word_of_int sz, bs), w))"

definition ocall_file_read_file :: "'w os \<Rightarrow> string \<Rightarrow> u64 \<Rightarrow> 'w \<Rightarrow> (u64 \<times> bytes) \<times> 'w" where
  "ocall_file_read_file os path rsz w = file_read_file os path rsz w"

text \<open>Descriptor and size; a failed \<open>lseek\<close> leaves the size \<open>(size_t) -1\<close>.\<close>

definition file_size :: "'w os \<Rightarrow> string \<Rightarrow> 'w \<Rightarrow> (int \<times> u64) \<times> 'w" where
  "file_size os path w =
     (let (fd, w) = os_open os path O_RDONLY 0 w in
      if fd < 0 then ((fd, 0), w)
      else
        let (off, w) = os_lseek os fd 0 SEEK_END w;
            (_, w) = os_lseek os fd 0 SEEK_SET w
        in ((fd, word_of_int off), w))"

definition ocall_file_size :: "'w os \<Rightarrow> string \<Rightarrow> 'w \<Rightarrow> (int \<times> u64) \<times> 'w" where
  "ocall_file_size os path w = file_size os path w"

definition file_seal_write :: "'w os \<Rightarrow> int \<Rightarrow> bytes \<Rightarrow> 'w \<Rightarrow> int \<times> 'w" where
  "file_seal_write os fd buf w =
     (let (sz, w) = file_write os fd buf w
      in (if sz = of_nat (length buf) then 1 else 0, w))"

text \<open>The size, and the pointer stored through \<open>o_buf\<close> (\<open>Val None\<close> is NULL).\<close>

definition file_seal_read_close ::
    "'w os \<Rightarrow> int \<Rightarrow> u64 \<Rightarrow> 'w \<Rightarrow> (u64 \<times> bbuf option slot) \<times> 'w" where
  "file_seal_read_close os fd rsz w =
     (let (mem, w) = os_malloc os rsz w in
      if \<not> mem then ((0, Val None), w)
      else let ((sz, bs), w) = file_read_close os fd rsz w
           in ((sz, Val (Some (buf_store (unat rsz) bs))), w))"

section \<open>Enclave side\<close>

text \<open>
  An edge call that does not reach the host leaves the local result variable
  uninitialised; \<open>okc\<close> says whether it does.
\<close>

definition enclave_file_open ::
    "('w \<Rightarrow> bool) \<Rightarrow> 'w os \<Rightarrow> string \<Rightarrow> int \<Rightarrow> int \<Rightarrow> 'w \<Rightarrow> int slot \<times> 'w" where
  "enclave_file_open okc os path flag mode w =
     (if okc w then let (fd, w) = ocall_file_open os path flag mode w in (Val fd, w)
      else (Garbage, w))"

definition enclave_file_write ::
    "('w \<Rightarrow> bool) \<Rightarrow> 'w os \<Rightarrow> int \<Rightarrow> bytes \<Rightarrow> 'w \<Rightarrow> u64 slot \<times> 'w" where
  "enclave_file_write okc os fd buf w =
     (if okc w then let (sz, w) = ocall_file_write os fd buf w in (Val sz, w) else (Garbage, w))"

definition enclave_file_read_close ::
    "('w \<Rightarrow> bool) \<Rightarrow> 'w os \<Rightarrow> int \<Rightarrow> u64 \<Rightarrow> 'w \<Rightarrow> (u64 slot \<times> bytes) \<times> 'w" where
  "enclave_file_read_close okc os fd bufsz w =
     (if okc w then let ((sz, bs), w) = ocall_file_read_close os fd bufsz w in ((Val sz, bs), w)
      else ((Garbage, []), w))"

definition enclave_file_close :: "('w \<Rightarrow> bool) \<Rightarrow> 'w os \<Rightarrow> int \<Rightarrow> 'w \<Rightarrow> int slot \<times> 'w" where
  "enclave_file_close okc os fd w =
     (if okc w then let (rc, w) = ocall_file_close os fd w in (Val rc, w) else (Garbage, w))"

definition enclave_file_read_file ::
    "('w \<Rightarrow> bool) \<Rightarrow> 'w os \<Rightarrow> string \<Rightarrow> u64 \<Rightarrow> 'w \<Rightarrow> (u64 slot \<times> bytes) \<times> 'w" where
  "enclave_file_read_file okc os path rsz w =
     (if okc w then let ((sz, bs), w) = ocall_file_read_file os path rsz w in ((Val sz, bs), w)
      else ((Garbage, []), w))"

definition enclave_file_size ::
    "('w \<Rightarrow> bool) \<Rightarrow> 'w os \<Rightarrow> string \<Rightarrow> 'w \<Rightarrow> (int slot \<times> u64 slot) \<times> 'w" where
  "enclave_file_size okc os path w =
     (if okc w then let ((fd, sz), w) = ocall_file_size os path w in ((Val fd, Val sz), w)
      else ((Garbage, Garbage), w))"

definition enclave_file_seal_write ::
    "sealer \<Rightarrow> ('w \<Rightarrow> bool) \<Rightarrow> 'w os \<Rightarrow> int \<Rightarrow> bytes \<Rightarrow> 'w \<Rightarrow> (int \<times> 'w) cres" where
  "enclave_file_seal_write sl okc os fd buf w =
     (let enclen = calc_sealed_size sl (of_nat (length buf));
          (mem, w) = os_malloc os (ucast enclen) w
      in if \<not> mem then Inr (-1, w)
         else let (st, enc) = seal_data sl buf in
           if st \<noteq> 0 then Inr (-1, w)
           else let (wsz, w) = enclave_file_write okc os fd enc w
                in cbind (rd wsz) (\<lambda>wsz. Inr (if wsz = ucast enclen then 1 else 0, w)))"

text \<open>
  A failed \<open>sgx_unseal_data\<close> leaves \<open>*o_buf\<close> as the caller had it and returns
  the length the sealed header claims.
\<close>

definition enclave_file_seal_read_close ::
    "sealer \<Rightarrow> ('w \<Rightarrow> bool) \<Rightarrow> 'w os \<Rightarrow> int \<Rightarrow> u64 \<Rightarrow> 'w \<Rightarrow> ((u64 \<times> bbuf option slot) \<times> 'w) cres" where
  "enclave_file_seal_read_close sl okc os fd enc_sz w =
     (let (mem, w) = os_malloc os enc_sz w in
      if \<not> mem then Inr ((0, Garbage), w)
      else let ((rsz, encp), w) = enclave_file_read_close okc os fd enc_sz w in
        cbind (rd rsz) (\<lambda>rsz.
        if rsz \<noteq> enc_sz then Inr ((0, Val None), w)
        else let dec_sz = encrypt_txt_len sl encp;
                 (mem, w) = os_malloc os (ucast dec_sz) w
             in if \<not> mem then Inr ((0, Val None), w)
                else case unseal_data sl encp of (st, dec_sz', dec) \<Rightarrow>
                  if st \<noteq> 0 then Inr ((ucast dec_sz', Garbage), w)
                  else Inr ((ucast dec_sz', Val (Some (buf_store (unat dec_sz) dec))), w)))"

section \<open>The environment of the process\<close>

text \<open>
  \<open>ocall_getenv\<close> copies a variable into the enclave's 1024-byte buffer.
  \<open>strncpy\<close> does not terminate a value of exactly \<open>len\<close> characters.
\<close>

definition ocall_getenv :: "(string \<Rightarrow> string option) \<Rightarrow> string \<Rightarrow> nat \<Rightarrow> string" where
  "ocall_getenv env name len =
     (case env name of
        None \<Rightarrow> [NUL]
      | Some cp \<Rightarrow> if len < length cp then [NUL] else take len (cp @ replicate (len - length cp) NUL))"

definition enclave_getenv :: "(string \<Rightarrow> string option) \<Rightarrow> string \<Rightarrow> string" where
  "enclave_getenv env name = ocall_getenv env name 1024"

definition u_sgxssl_open :: "'w os \<Rightarrow> string option \<Rightarrow> int \<Rightarrow> 'w \<Rightarrow> int \<times> 'w" where
  "u_sgxssl_open os filename flags w =
     (case filename of None \<Rightarrow> (-1, w) | Some f \<Rightarrow> os_open os f flags 0 w)"

end
