(* ===== verification/Tpm_Common.thy ===== *)
theory Tpm_Common
  imports Io
begin

text \<open>
  The TPM data the client and the daemon exchange, the two helpers of
  \<open>src/libpica_common.c\<close> that decide over it (\<open>hash_extend_sha256\<close>,
  \<open>comp_pcr_selection\<close>), and the readers of registered keys and quotes of
  \<open>src/libio.c\<close> (\<open>read_pubkey\<close>, \<open>read_tpm2attest\<close>).

  The TSS2 marshalling library and OpenSSL are parameters: their calls return
  the codes that their documentation names, and the C code's own handling of
  these codes is modelled call by call.
\<close>

unbundle bit_operations_syntax

section \<open>TPM 2.0 structures\<close>

record pcr_selection =
  ps_hash :: u16
  ps_sizeof :: byte
  ps_select :: bytes

record pcr_list =
  pl_count :: u32
  pl_sel :: "pcr_selection list"

record attest =
  at_type :: u16
  at_extra :: bytes
  at_pcrs :: pcr_list
  at_pcr_digest :: bytes

datatype signature =
    SigRsaSsa u16 bytes
  | SigRsaPss u16 bytes
  | SigEcdsa u16 bytes bytes
  | SigOther u16

definition TPM2_ST_ATTEST_QUOTE :: u16 where "TPM2_ST_ATTEST_QUOTE = 0x8018"

text \<open>
  Unmarshalling: the TSS2 return code and the structure, which is meaningful
  only when the code is 0.
\<close>

record tss =
  un_attest :: "bytes \<Rightarrow> u32 \<times> attest"
  un_signature :: "bytes \<Rightarrow> u32 \<times> signature"

section \<open>Hash of a hash and a digest\<close>

text \<open>Return values of the digest calls; \<open>ms_len\<close> is the length \<open>EVP_DigestFinal_ex\<close> stores.\<close>

record mdsteps =
  ms_new :: bool
  ms_init :: int
  ms_update1 :: int
  ms_update2 :: int
  ms_final :: int
  ms_len :: nat

abbreviation garbage32 :: bbuf where "garbage32 \<equiv> replicate 32 Garbage"

text \<open>
  \<open>SSL_CALL\<close> leaves on a result other than 1, \<open>SSL_CALLP\<close> on 0, and either
  leaves that result in the variable that is returned.
\<close>

definition hash_extend_sha256 ::
    "(bytes \<Rightarrow> bytes) \<Rightarrow> mdsteps \<Rightarrow> bytes \<Rightarrow> bytes \<Rightarrow> (int \<times> bbuf) cres" where
  "hash_extend_sha256 sha ms old_hash digest =
     (if \<not> ms_new ms then Inr (-1, garbage32)
      else if ms_init ms \<noteq> 1 then Inr (ms_init ms, garbage32)
      else if length old_hash < 32 then Inl OutOfBounds
      else if ms_update1 ms \<noteq> 1 then Inr (ms_update1 ms, garbage32)
      else if length digest < 32 then Inl OutOfBounds
      else if ms_update2 ms = 0 then Inr (0, garbage32)
      else if ms_final ms \<noteq> 1 then Inr (ms_final ms, garbage32)
      else Inr (if ms_len ms = 32 then 0 else 1,
                map Val (sha (take 32 old_hash @ take 32 digest))))"

definition ms_good :: mdsteps where
  "ms_good = \<lparr>ms_new = True, ms_init = 1, ms_update1 = 1, ms_update2 = 1, ms_final = 1, ms_len = 32\<rparr>"

lemma hash_extend_good:
  "length old = 32 \<Longrightarrow> length d = 32 \<Longrightarrow>
   hash_extend_sha256 sha ms_good old d = Inr (0, map Val (sha (old @ d)))"
  by (simp add: hash_extend_sha256_def ms_good_def)

section \<open>PCR selections\<close>

fun comp_pcr_loop :: "pcr_selection list \<Rightarrow> pcr_selection list \<Rightarrow> nat list \<Rightarrow> int cres" where
  "comp_pcr_loop as bs [] = Inr 0"
| "comp_pcr_loop as bs (i # is) =
     cbind (cnth as i) (\<lambda>sa. cbind (cnth bs i) (\<lambda>sb.
     if ps_hash sa \<noteq> ps_hash sb then Inr (-1)
     else if ps_sizeof sa \<noteq> ps_sizeof sb then Inr (-1)
     else cbind (memcmp_eq (ps_select sa) (ps_select sb) (unat (ps_sizeof sa))) (\<lambda>same.
       if \<not> same then Inr (-1) else comp_pcr_loop as bs is)))"

definition comp_pcr_selection :: "pcr_list \<Rightarrow> pcr_list \<Rightarrow> int cres" where
  "comp_pcr_selection a b =
     (if pl_count a \<noteq> pl_count b then Inr (-1)
      else comp_pcr_loop (pl_sel a) (pl_sel b) [0..<unat (pl_count a)])"

text \<open>The selection that a list denotes: bank and selected bytes of each counted entry.\<close>

definition pcr_view :: "pcr_list \<Rightarrow> (u16 \<times> bytes) list" where
  "pcr_view a = map (\<lambda>s. (ps_hash s, take (unat (ps_sizeof s)) (ps_select s))) (take (unat (pl_count a)) (pl_sel a))"

definition pcr_wf :: "pcr_list \<Rightarrow> bool" where
  "pcr_wf a \<longleftrightarrow> unat (pl_count a) \<le> length (pl_sel a) \<and>
     (\<forall>s \<in> set (pl_sel a). unat (ps_sizeof s) \<le> length (ps_select s))"

lemma comp_pcr_loop_ok:
  assumes "n \<le> length as" "n \<le> length bs"
    and "\<forall>s \<in> set as. unat (ps_sizeof s) \<le> length (ps_select s)"
    and "\<forall>s \<in> set bs. unat (ps_sizeof s) \<le> length (ps_select s)"
  defines "v \<equiv> map (\<lambda>s. (ps_hash s, take (unat (ps_sizeof s)) (ps_select s)))"
  shows "comp_pcr_loop as bs [k..<n] = Inr (if v (drop k (take n as)) = v (drop k (take n bs)) then 0 else -1)"
proof (induction k rule: idx_induct [where n = n])
  case (past k)
  then show ?case by (simp add: v_def)
next
  case (step k)
  have d: "drop k (take n as) = as ! k # drop (Suc k) (take n as)"
    "drop k (take n bs) = bs ! k # drop (Suc k) (take n bs)"
    using step(1) assms(1,2) by (subst Cons_nth_drop_Suc [symmetric]; simp)+
  have a: "unat (ps_sizeof (as ! k)) \<le> length (ps_select (as ! k))"
    and b: "unat (ps_sizeof (bs ! k)) \<le> length (ps_select (bs ! k))"
    using step(1) assms(1-4) by simp_all
  have sz: "ps_sizeof (as ! k) = ps_sizeof (bs ! k)"
    if "take (unat (ps_sizeof (as ! k))) (ps_select (as ! k)) = take (unat (ps_sizeof (bs ! k))) (ps_select (bs ! k))"
    using arg_cong [OF that, of length] a b by (simp add: word_unat_eq_iff)
  show ?case
    using step(1) assms(1,2) step(2) a b sz
    by (auto simp: d upt_conv_Cons v_def memcmp_eq_def)
qed

text \<open>On unmarshalled lists the comparison decides equality of the selections.\<close>

lemma comp_pcr_selection_eq:
  assumes "pcr_wf a" "pcr_wf b"
  shows "comp_pcr_selection a b = Inr (if pcr_view a = pcr_view b then 0 else -1)"
proof (cases "pl_count a = pl_count b")
  case True
  then show ?thesis
    using comp_pcr_loop_ok [of "unat (pl_count a)" "pl_sel a" "pl_sel b" 0] assms
    by (simp add: comp_pcr_selection_def pcr_wf_def pcr_view_def)
next
  case False
  have "length (pcr_view a) = unat (pl_count a)" "length (pcr_view b) = unat (pl_count b)"
    using assms by (simp_all add: pcr_view_def pcr_wf_def)
  with False have "pcr_view a \<noteq> pcr_view b" by (metis word_unat_eq_iff)
  with False show ?thesis by (simp add: comp_pcr_selection_def)
qed

section \<open>File functions as linked\<close>

text \<open>The host and the enclave version of the file functions that the readers below call.\<close>

record 'w fileops =
  fo_read_file :: "string \<Rightarrow> u64 \<Rightarrow> 'w \<Rightarrow> (u64 slot \<times> bytes) \<times> 'w"
  fo_size :: "string \<Rightarrow> 'w \<Rightarrow> (int slot \<times> u64 slot) \<times> 'w"
  fo_read_close :: "int \<Rightarrow> u64 \<Rightarrow> 'w \<Rightarrow> (u64 slot \<times> bytes) \<times> 'w"

definition host_fileops :: "'w os \<Rightarrow> 'w fileops" where
  "host_fileops os = \<lparr>
     fo_read_file = (\<lambda>path n w. let ((sz, bs), w) = file_read_file os path n w in ((Val sz, bs), w)),
     fo_size = (\<lambda>path w. let ((fd, sz), w) = file_size os path w in ((Val fd, Val sz), w)),
     fo_read_close = (\<lambda>fd n w. let ((sz, bs), w) = file_read_close os fd n w in ((Val sz, bs), w))\<rparr>"

definition enclave_fileops :: "('w \<Rightarrow> bool) \<Rightarrow> 'w os \<Rightarrow> 'w fileops" where
  "enclave_fileops okc os = \<lparr>
     fo_read_file = enclave_file_read_file okc os,
     fo_size = enclave_file_size okc os,
     fo_read_close = enclave_file_read_close okc os\<rparr>"

section \<open>Registered key and quote\<close>

definition PEM_SIZE :: u64 where "PEM_SIZE = 32768"

text \<open>
  \<open>pem\<close> is \<open>PEM_read_bio_PUBKEY\<close> on the bytes read, \<open>None\<close> its NULL.  The code
  tests the address of the result variable, not the result, so a file that is
  no key gives the return value 0 with a NULL key.  A failed read makes the
  length \<open>-1\<close>, for which \<open>BIO_new_mem_buf\<close> measures the fresh buffer as a string.
\<close>

definition read_pubkey ::
    "(bytes \<Rightarrow> 'k option) \<Rightarrow> 'w fileops \<Rightarrow> string \<Rightarrow> 'k option \<Rightarrow> 'w \<Rightarrow> ((int \<times> 'k option) \<times> 'w) cres" where
  "read_pubkey pem fo fname ak_pubkey w =
     (let ((len, bs), w) = fo_read_file fo fname PEM_SIZE w in
      cbind (rd len) (\<lambda>len.
      if len = 0 then Inr ((-1, ak_pubkey), w)
      else if sint len < 0 then Inl Uninit
      else Inr ((0, pem bs), w)))"

text \<open>
  A TSS2 error code is returned as it is; read as an \<open>int\<close> it is positive.  The
  second component is what the caller's structure holds.
\<close>

definition read_tpm2attest ::
    "tss \<Rightarrow> 'w fileops \<Rightarrow> string \<Rightarrow> 'w \<Rightarrow> ((int \<times> attest slot) \<times> 'w) cres" where
  "read_tpm2attest ts fo fname w =
     (let ((fd, sz), w) = fo_size fo fname w in
      cbind (rd sz) (\<lambda>sz.
      if sz = 0 then Inr ((-1, Garbage), w)
      else
        cbind (rd fd) (\<lambda>fd.
        let ((rsz, bs), w) = fo_read_close fo fd sz w in
        cbind (rd rsz) (\<lambda>rsz.
        if rsz \<noteq> sz then Inr ((-1, Garbage), w)
        else let (rc, at) = un_attest ts bs in
          if rc \<noteq> 0 then Inr ((sint rc, Garbage), w)
          else if at_type at \<noteq> TPM2_ST_ATTEST_QUOTE then Inr ((0, Val at), w)
          else Inr ((0, Val at), w)))))"

end
