(* ===== verification/Pica_Verify.thy ===== *)
theory Pica_Verify
  imports Pica_Htable "HOL-Library.Multiset"
begin

text \<open>
  The checks of measured processes against configuration and policy in
  \<open>src/libpica_clnt.c\<close>: \<open>pica_verify_digest\<close>, \<open>pica_verify_binaries\<close>,
  \<open>pica_check_ichain\<close>, \<open>match_uid\<close>, \<open>pica_check_uids\<close> and
  \<open>pica_find_policy\<close>.  Each \<open>for\<close> loop is a recursion over the indices it
  visits; its early exits are the branches that stop the recursion.
\<close>

unbundle bit_operations_syntax

section \<open>Digests of one process\<close>

text \<open>
  The inner loop over the registered libraries: the first one with the fresh
  library's path decides; when no path agrees the loop ends without a verdict,
  and the code goes on as after a match.
\<close>

fun lib_scan :: "fdigest \<Rightarrow> fdigest list option \<Rightarrow> nat list \<Rightarrow> bool cres" where
  "lib_scan f reg_dig [] = Inr True"
| "lib_scan f reg_dig (j # js) =
     cbind (arr_get reg_dig j) (\<lambda>r.
     cbind (strcmp_eq (fd_path f) (fd_path r)) (\<lambda>same.
     if same then memcmp_eq (fd_digest f) (fd_digest r) 32
     else lib_scan f reg_dig js))"

fun libs_scan :: "fdigest list option \<Rightarrow> fdigest list option \<Rightarrow> nat \<Rightarrow> nat list \<Rightarrow> bool cres" where
  "libs_scan fresh_dig reg_dig n [] = Inr True"
| "libs_scan fresh_dig reg_dig n (i # is) =
     cbind (arr_get fresh_dig i) (\<lambda>f.
     cbind (lib_scan f reg_dig [0..<n]) (\<lambda>ok.
     if ok then libs_scan fresh_dig reg_dig n is else Inr False))"

definition pica_verify_digest :: "procinfo \<Rightarrow> procinfo \<Rightarrow> int cres" where
  "pica_verify_digest regpinfo freshpinfo =
     (let reg_cnt = pi_count regpinfo; fresh_cnt = pi_count freshpinfo in
      if reg_cnt \<noteq> fresh_cnt then Inr (-1)
      else cbind (memcmp_eq (pi_digest regpinfo) (pi_digest freshpinfo) 32) (\<lambda>exec_ok.
        if \<not> exec_ok then Inr (-1)
        else cbind (libs_scan (pi_libs freshpinfo) (pi_libs regpinfo) (nat fresh_cnt)
                      [0..<nat fresh_cnt]) (\<lambda>ok.
          Inr (if ok then 0 else -1))))"

section \<open>All binaries of the chain\<close>

text \<open>Reading a table address as a process entry; another kind of object there is undefined behaviour.\<close>

definition as_procinfo :: "entref \<Rightarrow> procinfo cres" where
  "as_procinfo a = (case a of RefProc p \<Rightarrow> Inr p | RefStmt _ \<Rightarrow> Inl OutOfBounds)"

fun verify_binaries_loop ::
    "(string \<Rightarrow> u32) \<Rightarrow> entref htable \<Rightarrow> procinfo list \<Rightarrow> int \<Rightarrow> nat list \<Rightarrow> int cres" where
  "verify_binaries_loop mm tbl pinfo rc [] = Inr rc"
| "verify_binaries_loop mm tbl pinfo rc (i # is) =
     cbind (cnth pinfo i) (\<lambda>p.
     cbind (find_hashtable mm tbl (pi_path p) PICA_ENT_CONF_PROCINFO) (\<lambda>r.
     case r of
       Some a \<Rightarrow>
         cbind (as_procinfo a) (\<lambda>cnfpinfo.
         cbind (pica_verify_digest cnfpinfo p) (\<lambda>vc.
         verify_binaries_loop mm tbl pinfo (if vc < 0 then 0 else rc) is))
     | None \<Rightarrow> verify_binaries_loop mm tbl pinfo 0 is))"

definition pica_verify_binaries ::
    "(string \<Rightarrow> u32) \<Rightarrow> entref htable \<Rightarrow> procinfo list option \<Rightarrow> int \<Rightarrow> int cres" where
  "pica_verify_binaries mm tbl pinfo ent =
     (case pinfo of None \<Rightarrow> Inr 0
      | Some ps \<Rightarrow> verify_binaries_loop mm tbl ps VERIFY_PICA_BINARIES [0..<nat ent])"

section \<open>Invocation chain, user ids, policy lookup\<close>

text \<open>\<open>True\<close> when all paths agree, \<open>False\<close> at the first different one.\<close>

fun chain_scan :: "procinfo list \<Rightarrow> string option list \<Rightarrow> nat list \<Rightarrow> bool cres" where
  "chain_scan pinfo chain [] = Inr True"
| "chain_scan pinfo chain (j # js) =
     cbind (cnth pinfo j) (\<lambda>p. cbind (cnth chain j) (\<lambda>c.
     cbind (strcmp_eq (pi_path p) c) (\<lambda>same.
     if same then chain_scan pinfo chain js else Inr False)))"

text \<open>
  \<open>rc\<close> starts as the flag, is cleared by a chain that differs, and the loop
  leaves with the current \<open>rc\<close> at the first chain that agrees.
\<close>

fun ichain_loop ::
    "inv_array slot list slot \<Rightarrow> procinfo list \<Rightarrow> nat \<Rightarrow> int \<Rightarrow> nat list \<Rightarrow> int cres" where
  "ichain_loop iarray pinfo ent rc [] = Inr rc"
| "ichain_loop iarray pinfo ent rc (i # is) =
     cbind (rd iarray) (\<lambda>ia. cbind (cnth ia i) (\<lambda>s. cbind (rd s) (\<lambda>a.
     cbind (chain_scan pinfo (ichain a) [0..<ent]) (\<lambda>found.
     if found then Inr rc else ichain_loop iarray pinfo ent 0 is))))"

definition pica_check_ichain :: "pica_stmt \<Rightarrow> procinfo list \<Rightarrow> int \<Rightarrow> int cres" where
  "pica_check_ichain pstmt pinfo ent =
     cbind (rd (st_ary_cnt pstmt)) (\<lambda>ary_cnt.
     ichain_loop (st_iarray pstmt) pinfo (nat ent) VERIFY_PICA_CHAIN [0..<nat ary_cnt])"

fun match_uid_loop :: "u32 list \<Rightarrow> u32 \<Rightarrow> nat list \<Rightarrow> bool cres" where
  "match_uid_loop ids uid [] = Inr False"
| "match_uid_loop ids uid (i # is) =
     cbind (cnth ids i) (\<lambda>x. if x = uid then Inr True else match_uid_loop ids uid is)"

definition match_uid :: "u32 list \<Rightarrow> int \<Rightarrow> u32 \<Rightarrow> bool cres" where
  "match_uid ids cnt uid = match_uid_loop ids uid [0..<nat cnt]"

fun check_uids_loop :: "u32 list \<Rightarrow> int \<Rightarrow> procinfo list \<Rightarrow> nat list \<Rightarrow> int cres" where
  "check_uids_loop uids cnt pinfo [] = Inr VERIFY_PICA_UIDS"
| "check_uids_loop uids cnt pinfo (i # is) =
     cbind (cnth pinfo i) (\<lambda>p. cbind (match_uid uids cnt (pi_ruid p)) (\<lambda>m.
     if m then check_uids_loop uids cnt pinfo is else Inr 0))"

definition pica_check_uids :: "pica_stmt \<Rightarrow> procinfo list \<Rightarrow> int \<Rightarrow> int cres" where
  "pica_check_uids pstmt pinfo ent =
     cbind (rd (st_uid_cnt pstmt)) (\<lambda>cnt. cbind (rd (st_uid pstmt)) (\<lambda>uids.
     check_uids_loop uids cnt pinfo [0..<nat ent]))"

text \<open>The result is the index of the statement, \<open>None\<close> for the NULL return.\<close>

fun find_policy_loop :: "pica_stmt list \<Rightarrow> string option \<Rightarrow> nat list \<Rightarrow> nat option cres" where
  "find_policy_loop stmts path [] = Inr None"
| "find_policy_loop stmts path (i # is) =
     cbind (cnth stmts i) (\<lambda>s. cbind (rd (st_exec_path s)) (\<lambda>ep.
     cbind (strcmp_eq ep path) (\<lambda>same.
     if same then Inr (Some i) else find_policy_loop stmts path is)))"

definition pica_find_policy :: "pica_policy \<Rightarrow> procinfo \<Rightarrow> nat option cres" where
  "pica_find_policy ppol bin =
     find_policy_loop (pp_stmt ppol) (pi_path bin) [0..<nat (pp_entries ppol)]"


section \<open>Loops over wellformed entries\<close>

lemma lib_scan_wf:
  assumes "wf_fdigest f" "\<forall>r \<in> set rs. wf_fdigest r"
  shows "lib_scan f (Some rs) [k..<length rs] =
     Inr (case find (\<lambda>r. fd_path r = fd_path f) (drop k rs) of
            None \<Rightarrow> True | Some r \<Rightarrow> fd_digest r = fd_digest f)"
proof (induction k rule: idx_induct [where n = "length rs"])
  case (past k)
  then show ?case by simp
next
  case (step k)
  note k = step(1)
  let ?r = "rs ! k"
  have r: "wf_fdigest ?r" using assms(2) k by simp
  show ?case
    using k wf_fdigestD [OF assms(1)] wf_fdigestD [OF r]
    by (auto simp: upt_step [OF k] step(2))
qed

lemma libs_scan_wf:
  assumes "\<forall>f \<in> set fs. wf_fdigest f" "\<forall>r \<in> set rs. wf_fdigest r" "length fs = length rs"
  shows "libs_scan (Some fs) (Some rs) (length fs) [k..<length fs] =
     Inr (\<forall>f \<in> set (drop k fs). case find (\<lambda>r. fd_path r = fd_path f) rs of
            None \<Rightarrow> True | Some r \<Rightarrow> fd_digest r = fd_digest f)"
proof (induction k rule: idx_induct [where n = "length fs"])
  case (past k)
  then show ?case by simp
next
  case (step k)
  note k = step(1)
  have one: "lib_scan (fs ! k) (Some rs) [0..<length fs] =
     Inr (case find (\<lambda>r. fd_path r = fd_path (fs ! k)) rs of
            None \<Rightarrow> True | Some r \<Rightarrow> fd_digest r = fd_digest (fs ! k))"
    using lib_scan_wf [of "fs ! k" rs 0] assms k by simp
  with step(2) show ?case
    by (simp only: upt_step [OF k]) (use k in simp)
qed

section \<open>Digest verification\<close>

text \<open>What the comparison of a fresh measurement with a registered entry accepts.\<close>

definition lib_agrees :: "procinfo \<Rightarrow> fdigest \<Rightarrow> bool" where
  "lib_agrees reg f = (case find (\<lambda>r. fd_path r = fd_path f) (libs_of reg) of
     None \<Rightarrow> True | Some r \<Rightarrow> fd_digest r = fd_digest f)"

definition digest_accepts :: "procinfo \<Rightarrow> procinfo \<Rightarrow> bool" where
  "digest_accepts reg fresh \<longleftrightarrow>
     length (libs_of reg) = length (libs_of fresh) \<and> pi_digest reg = pi_digest fresh \<and>
     (\<forall>f \<in> set (libs_of fresh). lib_agrees reg f)"

lemma verify_digest_wf:
  assumes "wf_procinfo reg" "wf_procinfo fresh"
  shows "pica_verify_digest reg fresh = Inr (if digest_accepts reg fresh then 0 else -1)"
proof -
  have lens: "length (pi_digest reg) = 32" "length (pi_digest fresh) = 32"
    using assms by (auto elim: wf_procinfo_path)
  have cnt: "pi_count reg = int (length (libs_of reg))" "pi_count fresh = int (length (libs_of fresh))"
    using assms by (simp_all add: wf_procinfo_libs(1))
  show ?thesis
  proof (cases "length (libs_of reg) = length (libs_of fresh) \<and> pi_digest reg = pi_digest fresh")
    case False
    then show ?thesis
      using lens cnt by (auto simp: pica_verify_digest_def digest_accepts_def Let_def)
  next
    case True
    have "libs_scan (pi_libs fresh) (pi_libs reg) (length (libs_of fresh)) [0..<length (libs_of fresh)]
        = Inr (\<forall>f \<in> set (libs_of fresh). lib_agrees reg f)"
    proof (cases "libs_of fresh = []")
      case True
      then show ?thesis by simp
    next
      case False
      with True obtain fs rs where "pi_libs fresh = Some fs" "pi_libs reg = Some rs"
        by (auto simp: libs_of_def split: option.splits)
      with True assms libs_scan_wf [of fs rs 0] show ?thesis
        by (simp add: libs_of_def lib_agrees_def wf_procinfo_def)
    qed
    with True lens cnt show ?thesis
      by (simp add: pica_verify_digest_def digest_accepts_def)
  qed
qed

lemma find_distinct_path:
  assumes "distinct (map fd_path rs)" "r \<in> set rs"
  shows "find (\<lambda>x. fd_path x = fd_path r) rs = Some r"
  using assms by (induction rs) (auto simp: image_iff)

lemma fdigest_eqI:
  fixes a b :: fdigest
  shows "fd_path a = fd_path b \<Longrightarrow> fd_digest a = fd_digest b \<Longrightarrow> a = b"
  by simp

text \<open>
  C13.  When every library of the fresh measurement is registered and neither
  side lists a path twice, \<open>pica_verify_digest\<close> returns 0 exactly when the
  executable digests are equal and the two library lists agree as multisets:
  the order in which the loader lists the libraries does not matter, and no
  changed digest passes.
\<close>

theorem verify_digest_exact:
  assumes "wf_procinfo reg" "wf_procinfo fresh"
    and "distinct (map fd_path (libs_of reg))" "distinct (map fd_path (libs_of fresh))"
    and "fd_path ` set (libs_of fresh) \<subseteq> fd_path ` set (libs_of reg)"
  shows "pica_verify_digest reg fresh =
     Inr (if pi_digest reg = pi_digest fresh \<and> mset (libs_of fresh) = mset (libs_of reg) then 0 else -1)"
proof -
  let ?R = "libs_of reg" and ?F = "libs_of fresh"
  have dist: "distinct ?R" "distinct ?F"
    using assms(3,4) by (auto simp: distinct_map)
  have agree: "lib_agrees reg f \<longleftrightarrow> f \<in> set ?R" if "f \<in> set ?F" for f
  proof -
    from that assms(5) obtain r where r: "r \<in> set ?R" "fd_path r = fd_path f"
      by (metis imageE image_subset_iff)
    then have "find (\<lambda>x. fd_path x = fd_path f) ?R = Some r"
      using find_distinct_path [OF assms(3) r(1)] by simp
    moreover have "f \<in> set ?R \<longleftrightarrow> r = f"
      using find_distinct_path [OF assms(3), of f] calculation r by auto
    ultimately show ?thesis
      using r(2) by (auto simp: lib_agrees_def intro: fdigest_eqI)
  qed
  have "length ?R = length ?F \<and> set ?F \<subseteq> set ?R \<longleftrightarrow> mset ?F = mset ?R"
  proof
    assume *: "length ?R = length ?F \<and> set ?F \<subseteq> set ?R"
    then have "set ?F = set ?R"
      using dist by (intro card_subset_eq) (simp_all add: distinct_card)
    then show "mset ?F = mset ?R"
      using dist by (simp add: set_eq_iff_mset_eq_distinct)
  qed (auto dest: mset_eq_setD mset_eq_length)
  then show ?thesis
    using agree by (auto simp: verify_digest_wf [OF assms(1,2)] digest_accepts_def subset_iff)
qed

text \<open>Two libraries in another order.\<close>

definition ex_lib :: "string \<Rightarrow> byte \<Rightarrow> fdigest" where
  "ex_lib path b = \<lparr>fd_path = Some path, fd_digest = replicate 32 b\<rparr>"

definition ex_pinfo :: "string \<Rightarrow> byte \<Rightarrow> fdigest list \<Rightarrow> procinfo" where
  "ex_pinfo path b ls = procinfo_zero\<lparr>pi_path := Some path, pi_digest := replicate 32 b,
     pi_count := int (length ls), pi_libs := (if ls = [] then None else Some ls)\<rparr>"

lemma ex_pinfo_simps [simp]:
  "pi_path (ex_pinfo path b ls) = Some path" "pi_digest (ex_pinfo path b ls) = replicate 32 b"
  "libs_of (ex_pinfo path b ls) = ls" "pi_count (ex_pinfo path b ls) = int (length ls)"
  "fd_path (ex_lib path b) = Some path" "fd_digest (ex_lib path b) = replicate 32 b"
  "pi_ruid (ex_pinfo path b ls) = 0"
  by (simp_all add: ex_pinfo_def ex_lib_def libs_of_def procinfo_zero_def)

lemma wf_ex_pinfo:
  "nul_free path \<Longrightarrow> \<forall>f \<in> set ls. wf_fdigest f \<Longrightarrow> wf_procinfo (ex_pinfo path b ls)"
  by (auto simp: wf_procinfo_def ex_pinfo_def)

lemma wf_ex_lib: "nul_free path \<Longrightarrow> wf_fdigest (ex_lib path b)"
  by (simp add: wf_fdigest_def)

lemma ex_lib_eq [simp]: "ex_lib p b = ex_lib q c \<longleftrightarrow> p = q \<and> b = c"
  by (auto simp: ex_lib_def)

theorem verify_digest_exact_witness:
  "pica_verify_digest (ex_pinfo ''/bin/sh'' 1 [ex_lib ''libc'' 2, ex_lib ''libm'' 3])
     (ex_pinfo ''/bin/sh'' 1 [ex_lib ''libm'' 3, ex_lib ''libc'' 2]) = Inr 0 \<and>
   pica_verify_digest (ex_pinfo ''/bin/sh'' 1 [ex_lib ''libc'' 2, ex_lib ''libm'' 3])
     (ex_pinfo ''/bin/sh'' 1 [ex_lib ''libm'' 4, ex_lib ''libc'' 2]) = Inr (-1)"
proof
  let ?reg = "ex_pinfo ''/bin/sh'' 1 [ex_lib ''libc'' 2, ex_lib ''libm'' 3]"
  have wf: "wf_procinfo ?reg" "wf_procinfo (ex_pinfo ''/bin/sh'' 1 [ex_lib ''libm'' b, ex_lib ''libc'' 2])" for b
    by (simp_all add: wf_ex_pinfo wf_ex_lib)
  show "pica_verify_digest ?reg (ex_pinfo ''/bin/sh'' 1 [ex_lib ''libm'' 3, ex_lib ''libc'' 2]) = Inr 0"
    by (subst verify_digest_exact) (simp_all add: wf)
  have "mset [ex_lib ''libm'' 4, ex_lib ''libc'' 2] \<noteq> mset [ex_lib ''libc'' 2, ex_lib ''libm'' 3]"
  proof
    assume "mset [ex_lib ''libm'' 4, ex_lib ''libc'' 2] = mset [ex_lib ''libc'' 2, ex_lib ''libm'' 3]"
    then have "ex_lib ''libm'' 4 \<in> set [ex_lib ''libc'' 2, ex_lib ''libm'' 3]"
      by (metis mset_eq_setD list.set_intros(1))
    then show False by simp
  qed
  then show "pica_verify_digest ?reg (ex_pinfo ''/bin/sh'' 1 [ex_lib ''libm'' 4, ex_lib ''libc'' 2]) = Inr (-1)"
    by (subst verify_digest_exact) (simp_all add: wf)
qed

text \<open>
  A library that no registered one shares its path with is not compared
  at all: replacing its digest by any other one never changes the verdict of
  \<open>pica_verify_digest\<close>.
\<close>

theorem verify_digest_ignores_unregistered:
  assumes "wf_procinfo reg" "wf_procinfo fresh"
    and "libs_of fresh = xs @ f # ys" "fd_path f \<notin> fd_path ` set (libs_of reg)" "length d = 32"
  shows "pica_verify_digest reg (fresh\<lparr>pi_libs := Some (xs @ f\<lparr>fd_digest := d\<rparr> # ys)\<rparr>)
       = pica_verify_digest reg fresh"
proof -
  let ?g = "fresh\<lparr>pi_libs := Some (xs @ f\<lparr>fd_digest := d\<rparr> # ys)\<rparr>"
  have libs: "pi_libs fresh = Some (xs @ f # ys)"
    using assms(3) by (auto simp: libs_of_def split: option.splits)
  then have "wf_fdigest f" using assms(2) by (auto simp: wf_procinfo_def)
  then have "wf_fdigest (f\<lparr>fd_digest := d\<rparr>)"
    using assms(5) by (auto simp: wf_fdigest_def)
  then have wf: "wf_procinfo ?g"
    using assms(2) libs by (auto simp: wf_procinfo_def)
  have free: "lib_agrees reg h" if "fd_path h = fd_path f" for h
  proof -
    have "find (\<lambda>r. fd_path r = fd_path h) (libs_of reg) = None"
      using assms(4) that by (auto simp: find_None_iff image_iff)
    then show ?thesis by (simp add: lib_agrees_def)
  qed
  have "libs_of ?g = xs @ f\<lparr>fd_digest := d\<rparr> # ys" "pi_digest ?g = pi_digest fresh"
    by (simp_all add: libs_of_def)
  then have "digest_accepts reg ?g \<longleftrightarrow> digest_accepts reg fresh"
    using free [of f] free [of "f\<lparr>fd_digest := d\<rparr>"] assms(3) by (simp add: digest_accepts_def)
  then show ?thesis
    by (simp add: verify_digest_wf assms(1,2) wf)
qed

text \<open>An unregistered library in the place of the registered one is accepted.\<close>

theorem verify_digest_ignores_unregistered_witness:
  "pica_verify_digest (ex_pinfo ''/bin/sh'' 1 [ex_lib ''libc'' 2])
     ((ex_pinfo ''/bin/sh'' 1 [ex_lib ''libx'' 3])
        \<lparr>pi_libs := Some ([] @ (ex_lib ''libx'' 3)\<lparr>fd_digest := replicate 32 9\<rparr> # [])\<rparr>) = Inr 0"
proof -
  let ?reg = "ex_pinfo ''/bin/sh'' 1 [ex_lib ''libc'' 2]"
  let ?fresh = "ex_pinfo ''/bin/sh'' 1 [ex_lib ''libx'' 3]"
  have wf: "wf_procinfo ?reg" "wf_procinfo ?fresh"
    by (simp_all add: wf_ex_pinfo wf_ex_lib)
  have "pica_verify_digest ?reg ?fresh = Inr 0"
    by (simp add: verify_digest_wf wf digest_accepts_def lib_agrees_def)
  then show ?thesis
    using verify_digest_ignores_unregistered [OF wf, of "[]" "ex_lib ''libx'' 3" "[]" "replicate 32 9"]
    by simp
qed

section \<open>Verification of the whole chain\<close>

text \<open>
  What the table must answer: an entry of kind \<open>PICA_ENT_CONF_PROCINFO\<close> is a
  wellformed process entry.
\<close>

definition conf_table :: "(string \<Rightarrow> u32) \<Rightarrow> entref htable \<Rightarrow> (string \<Rightarrow> procinfo option) \<Rightarrow> bool" where
  "conf_table mm tbl cnf \<longleftrightarrow>
     (\<forall>path. find_hashtable mm tbl (Some path) PICA_ENT_CONF_PROCINFO = Inr (map_option RefProc (cnf path))
        \<and> (case cnf path of None \<Rightarrow> True | Some c \<Rightarrow> wf_procinfo c))"

definition bin_accepted :: "(string \<Rightarrow> procinfo option) \<Rightarrow> procinfo \<Rightarrow> bool" where
  "bin_accepted cnf p = (case cnf (the (pi_path p)) of None \<Rightarrow> False | Some c \<Rightarrow> digest_accepts c p)"

lemma verify_binaries_loop_ok:
  assumes "conf_table mm tbl cnf" "\<forall>p \<in> set ps. wf_procinfo p" "n \<le> length ps"
  shows "verify_binaries_loop mm tbl ps rc [k..<n] =
     Inr (if \<forall>p \<in> set (drop k (take n ps)). bin_accepted cnf p then rc else 0)"
proof (induction k arbitrary: rc rule: idx_induct [where n = n])
  case (past k)
  then show ?case by simp
next
  case (step k)
  let ?p = "ps ! k"
  have wf: "wf_procinfo ?p" using assms step(1) by simp
  then obtain s where s: "pi_path ?p = Some s" by (auto elim: wf_procinfo_path)
  have find: "find_hashtable mm tbl (Some s) PICA_ENT_CONF_PROCINFO = Inr (map_option RefProc (cnf s))"
    and wfc: "\<And>c. cnf s = Some c \<Longrightarrow> wf_procinfo c"
    using assms(1) by (auto simp: conf_table_def split: option.splits)
  have "drop k (take n ps) = ?p # drop (Suc k) (take n ps)"
    using step(1) assms(3) by (simp add: Cons_nth_drop_Suc [symmetric] drop_take take_Cons')
  then show ?case
    using step assms(3) s
    by (cases "cnf s")
      (auto simp: upt_conv_Cons find bin_accepted_def as_procinfo_def verify_digest_wf wf wfc)
qed

lemma conf_table_built:
  assumes "\<forall>p \<in> set ps. wf_procinfo p" "pica_build_hashtable mm ps = Inr tbl"
  shows "conf_table mm tbl (\<lambda>path. find (\<lambda>p. pi_path p = Some path) ps)"
proof -
  have "\<forall>p \<in> set ps. pi_path p \<noteq> None"
    using assms(1) by (auto elim: wf_procinfo_path)
  moreover have "find (\<lambda>p. pi_path p = Some path) ps = Some c \<Longrightarrow> wf_procinfo c" for path c
    using assms(1) by (auto simp: find_Some_iff)
  ultimately show ?thesis
    using assms(2) by (auto simp: conf_table_def pica_build_hashtable_def
        reg_fold_insert_all htable_ok_zero find_hashtable_lookup pica_tbl.inv_insert_all
        pica_tbl.lookup_built conf_lookup split: option.splits)
qed

text \<open>
  C12.  With the table built from a configuration, \<open>pica_verify_binaries\<close>
  returns \<open>VERIFY_PICA_BINARIES\<close> when every process of the measured chain
  has an entry with its path and the first such entry accepts its digests,
  and 0 otherwise; it never faults on completely filled entries.
\<close>

theorem verify_binaries_correct:
  assumes "\<forall>c \<in> set cs. wf_procinfo c" "\<forall>p \<in> set ps. wf_procinfo p"
    and "pica_build_hashtable mm cs = Inr tbl"
  shows "pica_verify_binaries mm tbl (Some ps) (int (length ps)) =
     Inr (if \<forall>p \<in> set ps. \<exists>c. find (\<lambda>c. pi_path c = pi_path p) cs = Some c \<and> digest_accepts c p
          then VERIFY_PICA_BINARIES else 0)"
proof -
  have tbl: "conf_table mm tbl (\<lambda>path. find (\<lambda>p. pi_path p = Some path) cs)"
    by (rule conf_table_built) fact+
  have "bin_accepted (\<lambda>path. find (\<lambda>p. pi_path p = Some path) cs) p \<longleftrightarrow>
      (\<exists>c. find (\<lambda>c. pi_path c = pi_path p) cs = Some c \<and> digest_accepts c p)" if "p \<in> set ps" for p
  proof -
    from that assms(2) have "wf_procinfo p" by simp
    then obtain s where "pi_path p = Some s" by (rule wf_procinfo_path)
    then show ?thesis by (auto simp: bin_accepted_def split: option.splits)
  qed
  then show ?thesis
    using verify_binaries_loop_ok [OF tbl assms(2), of "length ps" VERIFY_PICA_BINARIES 0]
    by (simp add: pica_verify_binaries_def)
qed

theorem verify_binaries_correct_witness:
  "\<exists>tbl. pica_build_hashtable (\<lambda>_. 5) [ex_pinfo ''/a'' 1 [], ex_pinfo ''/b'' 2 [ex_lib ''l'' 3]] = Inr tbl \<and>
     pica_verify_binaries (\<lambda>_. 5) tbl (Some [ex_pinfo ''/b'' 2 [ex_lib ''l'' 3], ex_pinfo ''/a'' 1 []])
       (int (length [ex_pinfo ''/b'' 2 [ex_lib ''l'' 3], ex_pinfo ''/a'' 1 []])) = Inr VERIFY_PICA_BINARIES"
proof -
  let ?cs = "[ex_pinfo ''/a'' 1 [], ex_pinfo ''/b'' 2 [ex_lib ''l'' 3]]"
  let ?ps = "[ex_pinfo ''/b'' 2 [ex_lib ''l'' 3], ex_pinfo ''/a'' 1 []]"
  have wf: "\<forall>c \<in> set ?cs. wf_procinfo c" "\<forall>c \<in> set ?ps. wf_procinfo c"
    by (simp_all add: wf_ex_pinfo wf_ex_lib)
  have "\<forall>p \<in> set ?cs. pi_path p \<noteq> None" by simp
  then have "pica_build_hashtable (\<lambda>_. 5) ?cs
      = Inr (pica_tbl.insert_all (\<lambda>_. 5) (conf_entries ?cs) htable_zero)" (is "_ = Inr ?t")
    unfolding pica_build_hashtable_def by (rule reg_fold_insert_all [OF htable_ok_zero])
  moreover from verify_binaries_correct [OF wf this]
  have "pica_verify_binaries (\<lambda>_. 5) ?t (Some ?ps) (int (length ?ps)) = Inr VERIFY_PICA_BINARIES"
    by (simp add: digest_accepts_def lib_agrees_def)
  ultimately show ?thesis by blast
qed

section \<open>Invocation chains\<close>

lemma chain_scan_ok:
  assumes "n \<le> length ps" "n \<le> length ch"
    and "\<forall>p \<in> set ps. pi_path p \<noteq> None" "\<forall>c \<in> set ch. c \<noteq> None"
  shows "chain_scan ps ch [k..<n] =
     Inr (drop k (take n (map pi_path ps)) = drop k (take n ch))"
proof (induction k rule: idx_induct [where n = n])
  case (past k)
  then show ?case by simp
next
  case (step k)
  have "ps ! k \<in> set ps" "ch ! k \<in> set ch" using step(1) assms(1,2) by simp_all
  then obtain s c where sc: "pi_path (ps ! k) = Some s" "ch ! k = Some c"
    using assms(3,4) by blast
  have "drop k (take n (map pi_path ps)) = Some s # drop (Suc k) (take n (map pi_path ps))"
    "drop k (take n ch) = Some c # drop (Suc k) (take n ch)"
    using step(1) assms(1,2) sc by (subst Cons_nth_drop_Suc [symmetric]; simp)+
  then show ?case
    using step assms(1,2) sc by (simp add: upt_conv_Cons)
qed

lemma ichain_loop_zero:
  assumes "n \<le> length ichns"
    and "\<forall>a \<in> set ichns. ent \<le> length (ichain a) \<and> (\<forall>c \<in> set (ichain a). c \<noteq> None)"
    and "ent \<le> length ps" "\<forall>p \<in> set ps. pi_path p \<noteq> None"
  shows "ichain_loop (Val (map Val ichns)) ps ent 0 [k..<n] = Inr 0"
proof (induction k rule: idx_induct [where n = n])
  case (step k)
  then have "ichns ! k \<in> set ichns" using assms(1) by simp
  with assms(2) have "ent \<le> length (ichain (ichns ! k))" "\<forall>c \<in> set (ichain (ichns ! k)). c \<noteq> None"
    by blast+
  from chain_scan_ok [OF assms(3) this(1) assms(4) this(2), of 0] show ?case
    using step assms(1) by (simp add: upt_conv_Cons)
qed simp

text \<open>
  C26.  On a policy statement whose chains are all at least as long as the
  measured one, \<open>pica_check_ichain\<close> returns \<open>VERIFY_PICA_CHAIN\<close> exactly when
  the statement lists no chain at all, or the measured paths are the first
  entries of the first chain.  The code means to try every chain, but the
  result is cleared by the first chain that differs and never set again.
\<close>

theorem check_ichain_first_only:
  assumes "st_ary_cnt stmt = Val (int (length ichns))" "st_iarray stmt = Val (map Val ichns)"
    and "\<forall>a \<in> set ichns. length ps \<le> length (ichain a) \<and> (\<forall>c \<in> set (ichain a). c \<noteq> None)"
    and "\<forall>p \<in> set ps. pi_path p \<noteq> None"
  shows "pica_check_ichain stmt ps (int (length ps)) =
     Inr (case ichns of [] \<Rightarrow> VERIFY_PICA_CHAIN
          | a # _ \<Rightarrow> if map pi_path ps = take (length ps) (ichain a) then VERIFY_PICA_CHAIN else 0)"
proof (cases ichns)
  case Nil
  with assms(1) show ?thesis by (simp add: pica_check_ichain_def)
next
  case (Cons a as)
  have "chain_scan ps (ichain a) [0..<length ps] = Inr (map pi_path ps = take (length ps) (ichain a))"
    using chain_scan_ok [of "length ps" ps "ichain a" 0] assms(3,4) Cons by simp
  moreover have "ichain_loop (Val (map Val ichns)) ps (length ps) 0 [1..<length ichns] = Inr 0"
    using assms(3,4) by (intro ichain_loop_zero) simp_all
  ultimately show ?thesis
    using assms(1,2) Cons by (simp add: pica_check_ichain_def upt_conv_Cons nat_add_distrib del: upt_Suc)
qed

text \<open>A second chain that agrees does not help.\<close>

definition ex_stmt :: "inv_array list \<Rightarrow> pica_stmt" where
  "ex_stmt ichns = stmt_garbage\<lparr>st_ary_cnt := Val (int (length ichns)),
     st_iarray := Val (map Val ichns)\<rparr>"

definition ex_chain :: "string list \<Rightarrow> inv_array" where
  "ex_chain ps = \<lparr>ichn_cnt = int (length ps), ichain = map Some ps\<rparr>"

theorem check_ichain_first_only_witness:
  "pica_check_ichain (ex_stmt [ex_chain [''/a'', ''/b''], ex_chain [''/c'', ''/d'']])
     [ex_pinfo ''/a'' 0 []] (int (length [ex_pinfo ''/a'' 0 []])) = Inr VERIFY_PICA_CHAIN \<and>
   pica_check_ichain (ex_stmt [ex_chain [''/a'', ''/b''], ex_chain [''/c'', ''/d'']])
     [ex_pinfo ''/c'' 0 [], ex_pinfo ''/d'' 0 []]
     (int (length [ex_pinfo ''/c'' 0 [], ex_pinfo ''/d'' 0 []])) = Inr 0"
proof -
  let ?cs = "[ex_chain [''/a'', ''/b''], ex_chain [''/c'', ''/d'']]"
  have "st_ary_cnt (ex_stmt ?cs) = Val (int (length ?cs))" "st_iarray (ex_stmt ?cs) = Val (map Val ?cs)"
    by (simp_all add: ex_stmt_def)
  note * = check_ichain_first_only [OF this]
  show ?thesis
    by (subst (1 2) *) (simp_all add: ex_chain_def)
qed

section \<open>User ids\<close>

lemma match_uid_loop_ok:
  "n \<le> length ids \<Longrightarrow> match_uid_loop ids u [k..<n] = Inr (u \<in> set (drop k (take n ids)))"
proof (induction k rule: idx_induct [where n = n])
  case (step k)
  then have "drop k (take n ids) = ids ! k # drop (Suc k) (take n ids)"
    by (subst Cons_nth_drop_Suc [symmetric]) simp_all
  with step show ?case by (simp add: upt_conv_Cons)
qed simp

lemma check_uids_loop_ok:
  assumes "n \<le> length ps" "nat c \<le> length ids"
  shows "check_uids_loop ids c ps [k..<n] =
     Inr (if pi_ruid ` set (drop k (take n ps)) \<subseteq> set (take (nat c) ids) then VERIFY_PICA_UIDS else 0)"
proof (induction k rule: idx_induct [where n = n])
  case (step k)
  then have "drop k (take n ps) = ps ! k # drop (Suc k) (take n ps)"
    using assms by (subst Cons_nth_drop_Suc [symmetric]) simp_all
  with step assms show ?case
    using match_uid_loop_ok [of "nat c" ids "pi_ruid (ps ! k)" 0]
    by (simp add: upt_conv_Cons match_uid_def)
qed simp

lemma check_uids_match:
  assumes "st_uid_cnt stmt = Val (int (length ids))" "st_uid stmt = Val ids"
  shows "pica_check_uids stmt ps (int (length ps)) =
     Inr (if \<forall>p \<in> set ps. pi_ruid p \<in> set ids then VERIFY_PICA_UIDS else 0)"
  using check_uids_loop_ok [of "length ps" ps "int (length ids)" ids 0] assms
  by (simp add: pica_check_uids_def image_subset_iff)

text \<open>
  \<open>pica_check_uids\<close> returns \<open>VERIFY_PICA_UIDS\<close> exactly when the real uid
  of every process of the chain is one of the uids the statement lists, and
  0 otherwise.
\<close>

theorem check_uids_correct:
  assumes "st_uid_cnt stmt = Val (int (length ids))" "st_uid stmt = Val ids"
  shows "pica_check_uids stmt ps (int (length ps)) =
     Inr (if \<forall>p \<in> set ps. pi_ruid p \<in> set ids then VERIFY_PICA_UIDS else 0)"
  by (rule check_uids_match) fact+

theorem check_uids_correct_witness:
  "pica_check_uids (stmt_garbage\<lparr>st_uid_cnt := Val (int (length [1000, 0 :: u32])), st_uid := Val [1000, 0]\<rparr>)
     [ex_pinfo ''/a'' 0 []] (int (length [ex_pinfo ''/a'' 0 []])) = Inr VERIFY_PICA_UIDS \<and>
   pica_check_uids (stmt_garbage\<lparr>st_uid_cnt := Val (int (length [1000 :: u32])), st_uid := Val [1000]\<rparr>)
     [ex_pinfo ''/a'' 0 []] (int (length [ex_pinfo ''/a'' 0 []])) = Inr 0"
  using check_uids_correct [of "stmt_garbage\<lparr>st_uid_cnt := Val (int (length [1000, 0 :: u32])),
        st_uid := Val [1000, 0]\<rparr>" "[1000, 0]" "[ex_pinfo ''/a'' 0 []]"]
    check_uids_correct [of "stmt_garbage\<lparr>st_uid_cnt := Val (int (length [1000 :: u32])),
        st_uid := Val [1000]\<rparr>" "[1000]" "[ex_pinfo ''/a'' 0 []]"]
  by simp

section \<open>Policy lookup\<close>

text \<open>The executable path of a completely filled statement.\<close>

definition stmt_path :: "pica_stmt \<Rightarrow> string option" where
  "stmt_path s = (case st_exec_path s of Val p \<Rightarrow> p | Garbage \<Rightarrow> None)"

lemma find_policy_loop_ok:
  assumes "\<forall>s \<in> set stmts. stmt_path s \<noteq> None" "n \<le> length stmts"
  shows "find_policy_loop stmts (Some path) [k..<n] =
     Inr (find (\<lambda>i. stmt_path (stmts ! i) = Some path) [k..<n])"
proof (induction k rule: idx_induct [where n = n])
  case (step k)
  then have "stmts ! k \<in> set stmts" using assms by simp
  then obtain s where "st_exec_path (stmts ! k) = Val (Some s)"
    using assms(1) by (fastforce simp: stmt_path_def split: slot.splits)
  then show ?case
    using step assms(2) by (simp add: upt_conv_Cons stmt_path_def)
qed simp

text \<open>
  \<open>pica_find_policy\<close> returns the first statement whose executable path is the
  path of the binary, NULL when there is none.
\<close>

lemma find_policy_first:
  assumes "\<forall>s \<in> set (pp_stmt pol). stmt_path s \<noteq> None" "pp_entries pol = int (length (pp_stmt pol))"
    and "pi_path bin = Some path"
  shows "pica_find_policy pol bin = Inr r \<longleftrightarrow>
     (case r of None \<Rightarrow> \<forall>s \<in> set (pp_stmt pol). stmt_path s \<noteq> Some path
      | Some i \<Rightarrow> i < length (pp_stmt pol) \<and> stmt_path (pp_stmt pol ! i) = Some path \<and>
          (\<forall>j < i. stmt_path (pp_stmt pol ! j) \<noteq> Some path))"
proof -
  have "pica_find_policy pol bin
      = Inr (find (\<lambda>i. stmt_path (pp_stmt pol ! i) = Some path) [0..<length (pp_stmt pol)])"
    using find_policy_loop_ok [OF assms(1), of "length (pp_stmt pol)" path 0] assms(2,3)
    by (simp add: pica_find_policy_def)
  then show ?thesis
    by (auto simp: find_None_iff find_Some_iff all_set_conv_all_nth split: option.splits)
qed

end
