(* ===== verification/Measure.thy ===== *)
theory Measure
  imports Pica_Htable Tpm_Common Pica_Verify
begin

text \<open>
  The measurement library (\<open>src/libmeasure.c\<close>, copied as
  \<open>tpm2/libmeasurement.c\<close>): the cache of file digests, \<open>sha256_file\<close>,
  \<open>sha256_libs\<close> over the lines of \<open>/proc/<pid>/maps\<close>, and \<open>sha256_pid\<close>.

  System calls are the record \<open>os\<close>, extended by \<open>fstat\<close>, \<open>readlink\<close> and by the
  lines of a proc file as \<open>fgets\<close> returns them.  murmur3 and the hash function
  are parameters.
\<close>

unbundle bit_operations_syntax

section \<open>Text of the proc files\<close>

definition is_space :: "char \<Rightarrow> bool" where
  "is_space c \<longleftrightarrow> c \<in> {CHR 0x20, CHR 0x09, CHR 0x0A, CHR 0x0B, CHR 0x0C, CHR 0x0D}"

definition skip_ws :: "string \<Rightarrow> string" where
  "skip_ws s = dropWhile is_space s"

text \<open>\<open>trim\<close>: leading white space is skipped, trailing white space cut; the first character stays.\<close>

definition trim :: "string \<Rightarrow> string" where
  "trim s = (case skip_ws s of [] \<Rightarrow> [] | c # cs \<Rightarrow> c # rev (dropWhile is_space (rev cs)))"

definition hex_val :: "char \<Rightarrow> nat option" where
  "hex_val c = (let n = of_char c :: nat in
     if 48 \<le> n \<and> n \<le> 57 then Some (n - 48)
     else if 97 \<le> n \<and> n \<le> 102 then Some (n - 87)
     else if 65 \<le> n \<and> n \<le> 70 then Some (n - 55) else None)"

definition dec_val :: "char \<Rightarrow> nat option" where
  "dec_val c = (let n = of_char c :: nat in if 48 \<le> n \<and> n \<le> 57 then Some (n - 48) else None)"

fun scan_digits :: "(char \<Rightarrow> nat option) \<Rightarrow> nat \<Rightarrow> nat \<Rightarrow> string \<Rightarrow> nat \<times> string" where
  "scan_digits dv base acc [] = (acc, [])"
| "scan_digits dv base acc (c # cs) =
     (case dv c of Some d \<Rightarrow> scan_digits dv base (acc * base + d) cs | None \<Rightarrow> (acc, c # cs))"

text \<open>
  A number directive of \<open>sscanf\<close> without sign or prefix, as the kernel prints
  them: white space, then at least one digit.
\<close>

definition scan_num :: "(char \<Rightarrow> nat option) \<Rightarrow> nat \<Rightarrow> string \<Rightarrow> (nat \<times> string) option" where
  "scan_num dv base s = (case skip_ws s of
     [] \<Rightarrow> None
   | c # cs \<Rightarrow> if dv c = None then None else Some (scan_digits dv base 0 (c # cs)))"

definition scan_word :: "nat \<Rightarrow> string \<Rightarrow> (string \<times> string) option" where
  "scan_word n s = (let s = skip_ws s; w = take n (takeWhile (\<lambda>c. \<not> is_space c) s)
     in if w = [] then None else Some (w, drop (length w) s))"

text \<open>
  The fixed fields of a line of \<open>maps\<close>: the two addresses and the rest of the
  line where \<open>%n\<close> points; \<open>None\<close> when fewer than six items are converted.
\<close>

definition scan_maps :: "string \<Rightarrow> (nat \<times> nat \<times> string) option" where
  "scan_maps line =
     (case scan_num hex_val 16 line of None \<Rightarrow> None | Some (start, s) \<Rightarrow>
     (case s of c # s \<Rightarrow> if c \<noteq> CHR ''-'' then None else
     (case scan_num hex_val 16 s of None \<Rightarrow> None | Some (end, s) \<Rightarrow>
     (case scan_word 7 s of None \<Rightarrow> None | Some (_, s) \<Rightarrow>
     (case scan_num hex_val 16 s of None \<Rightarrow> None | Some (_, s) \<Rightarrow>
     (case scan_word 31 s of None \<Rightarrow> None | Some (_, s) \<Rightarrow>
     (case scan_num dec_val 10 s of None \<Rightarrow> None | Some (_, s) \<Rightarrow> Some (start, end, skip_ws s))))))
     | [] \<Rightarrow> None))"

function digits_str :: "nat \<Rightarrow> nat \<Rightarrow> string \<Rightarrow> string" where
  "digits_str base n acc =
     (let d = n mod base; c = char_of (if d < 10 then 48 + d else 87 + d); n' = n div base
      in if n' = 0 \<or> base < 2 then c # acc else digits_str base n' (c # acc))"

  by pat_completeness auto

termination
  by (relation "measure (\<lambda>(base, n, acc). n)") (auto intro!: div_less_dividend intro: gr0I)

declare digits_str.simps [simp del]

definition long_str :: "int \<Rightarrow> string" where
  "long_str i = (if i < 0 then CHR ''-'' # digits_str 10 (nat (- i)) [] else digits_str 10 (nat i) [])"

definition hex_str :: "nat \<Rightarrow> string" where
  "hex_str n = digits_str 16 n []"

section \<open>Paths\<close>

fun has_infix :: "string \<Rightarrow> string \<Rightarrow> bool" where
  "has_infix p [] = (p = [])"
| "has_infix p (c # s) = (take (length p) (c # s) = p \<or> has_infix p s)"

definition is_shared_library :: "string option \<Rightarrow> bool" where
  "is_shared_library path = (case path of None \<Rightarrow> False | Some s \<Rightarrow> has_infix ''.so'' s)"

record path_entry =
  pe_path :: string
  pe_digest :: bytes

text \<open>The list starts at the entry pushed last.\<close>

fun path_exists :: "path_entry list \<Rightarrow> string \<Rightarrow> bool" where
  "path_exists [] path = False"
| "path_exists (p # ps) path = (if pe_path p = path then True else path_exists ps path)"

text \<open>\<open>mem\<close> says whether the two allocations succeed.\<close>

definition add_path :: "bool \<Rightarrow> path_entry list \<Rightarrow> string \<Rightarrow> bytes \<Rightarrow> int \<times> path_entry list" where
  "add_path mem ents path dig =
     (if \<not> mem then (-1, ents) else (0, \<lparr>pe_path = path, pe_digest = dig\<rparr> # ents))"

section \<open>The digest cache\<close>

text \<open>
  The path of an entry: unset, a string, or a buffer that was copied without a
  terminator.
\<close>

datatype mpath = MNone | MStr string | MOpen string

record fp_hentry =
  fe_path :: mpath
  fe_digest :: bytes

definition fp_zero :: fp_hentry where
  "fp_zero = \<lparr>fe_path = MNone, fe_digest = replicate 32 0\<rparr>"

definition MTABLE_SZ :: nat where "MTABLE_SZ = 512"

text \<open>A bucket is its inline entry followed by the chain.\<close>

type_synonym fp_htable = "fp_hentry list list"

definition filepath_htable :: fp_htable where
  "filepath_htable = replicate MTABLE_SZ [fp_zero]"

definition mhash :: "(string \<Rightarrow> u32) \<Rightarrow> string \<Rightarrow> u32" where
  "mhash mm cp = (let hash = mm cp
     in (drop_bit 16 hash XOR (hash AND 0xffff)) mod of_nat MTABLE_SZ)"

text \<open>
  \<open>strcmp\<close> with a stored path.  A buffer without terminator is read past its
  end when the other string starts with all of it.
\<close>

definition mpath_eq :: "mpath \<Rightarrow> string \<Rightarrow> bool cres" where
  "mpath_eq m p = (case m of
     MNone \<Rightarrow> Inl NullDeref
   | MStr s \<Rightarrow> Inr (s = p)
   | MOpen s \<Rightarrow> if take (length s) p = s then Inl OutOfBounds else Inr False)"

fun find_chain :: "fp_hentry list \<Rightarrow> string \<Rightarrow> nat \<Rightarrow> nat option cres" where
  "find_chain [] path i = Inr None"
| "find_chain (e # es) path i =
     cbind (mpath_eq (fe_path e) path) (\<lambda>m. if m then Inr (Some i) else find_chain es path (i + 1))"

text \<open>Bucket and position of the entry found or made.\<close>

definition find_hashentry ::
    "(string \<Rightarrow> u32) \<Rightarrow> fp_htable \<Rightarrow> string \<Rightarrow> (nat \<times> nat \<times> fp_htable) cres" where
  "find_hashentry mm tbl path =
     (let h = unat (mhash mm path) in
      cbind (cnth tbl h) (\<lambda>b.
      cbind (cnth b 0) (\<lambda>e.
      if fe_path e = MNone then Inr (h, 0, tbl)
      else
        cbind (mpath_eq (fe_path e) path) (\<lambda>m.
        if m then Inr (h, 0, tbl)
        else
          cbind (find_chain (tl b) path 1) (\<lambda>r.
          case r of
            Some i \<Rightarrow> Inr (h, i, tbl)
          | None \<Rightarrow> Inr (h, length b, tbl[h := b @ [fp_zero]]))))))"

section \<open>Measuring a file\<close>

text \<open>The calls that \<open>os\<close> lacks, and the results of the digest calls.\<close>

record 'w msys =
  m_os :: "'w os"
  m_fstat :: "int \<Rightarrow> 'w \<Rightarrow> int option"
  m_readlink :: "string \<Rightarrow> 'w \<Rightarrow> string option"
  m_lines :: "string \<Rightarrow> 'w \<Rightarrow> string list option"
  m_sha256 :: "bytes \<Rightarrow> bytes"
  m_md :: mdsteps
  m_murmur :: "string \<Rightarrow> u32"

text \<open>
  The entry's path is allocated with the length of \<open>path\<close> and filled from
  \<open>libpath\<close>: a longer \<open>libpath\<close> is cut and not terminated.
\<close>

definition cached_path :: "string \<Rightarrow> string \<Rightarrow> mpath" where
  "cached_path libpath path =
     (if length libpath \<le> length path then MStr libpath else MOpen (take (length path + 1) libpath))"

definition set_entry :: "fp_htable \<Rightarrow> nat \<Rightarrow> nat \<Rightarrow> (fp_hentry \<Rightarrow> fp_hentry) \<Rightarrow> fp_htable" where
  "set_entry tbl h i f = tbl[h := (tbl ! h)[i := f ((tbl ! h) ! i)]]"

text \<open>The contents measured, \<open>None\<close> for every error exit.\<close>

definition measure_file :: "'w msys \<Rightarrow> string \<Rightarrow> 'w \<Rightarrow> bytes option \<times> 'w" where
  "measure_file ms path w =
     (let os = m_os ms; (fd, w) = os_open os path O_RDONLY 0 w in
      if fd < 0 then (None, w)
      else case m_fstat ms fd w of
        None \<Rightarrow> let (_, w) = (if fd > 0 then os_close os fd w else (0, w)) in (None, w)
      | Some st_size \<Rightarrow>
          let (mem, w) = os_malloc os (word_of_int st_size) w in
          if \<not> mem then let (_, w) = (if fd > 0 then os_close os fd w else (0, w)) in (None, w)
          else
            let ((n, bs), w) = os_read os fd (word_of_int st_size) w;
                md = m_md ms;
                ok = (\<not> n < st_size \<and> ms_new md \<and> ms_init md = 1 \<and> ms_update1 md = 1 \<and> ms_final md = 1);
                (_, w) = (if fd > 0 then os_close os fd w else (0, w))
            in (if ok then Some (take (nat st_size) bs) else None, w))"

text \<open>
  The return value, the digest stored for the caller (\<open>None\<close>: left as it was)
  and the cache.  The path is entered before the file is measured.
\<close>

definition sha256_file ::
    "'w msys \<Rightarrow> string \<Rightarrow> string \<Rightarrow> fp_htable \<Rightarrow> 'w \<Rightarrow> ((int \<times> bytes option) \<times> fp_htable \<times> 'w) cres" where
  "sha256_file ms libpath path tbl w =
     cbind (find_hashentry (m_murmur ms) tbl libpath) (\<lambda>(h, i, tbl).
     let fp = (tbl ! h) ! i in
     if fe_path fp \<noteq> MNone then Inr ((0, Some (fe_digest fp)), tbl, w)
     else
       let tbl = set_entry tbl h i (fe_path_update (\<lambda>_. cached_path libpath path));
           (contents, w) = measure_file ms path w
       in case contents of
            None \<Rightarrow> Inr ((-1, None), tbl, w)
          | Some bs \<Rightarrow>
              let digest = m_sha256 ms bs
              in Inr ((0, Some digest), set_entry tbl h i (fe_digest_update (\<lambda>_. take 32 digest)), w))"

section \<open>Measuring a process\<close>

text \<open>
  The loop over the lines; \<open>ents\<close> is the list of libraries entered so far and
  \<open>cnt\<close> their number.
\<close>

fun libs_lines ::
    "'w msys \<Rightarrow> int \<Rightarrow> string list \<Rightarrow> path_entry list \<Rightarrow> int \<Rightarrow> fp_htable \<Rightarrow> 'w \<Rightarrow>
     (int \<times> path_entry list \<times> fp_htable \<times> 'w) cres" where
  "libs_lines ms pid [] ents cnt tbl w = Inr (cnt, ents, tbl, w)"
| "libs_lines ms pid (line # lines) ents cnt tbl w =
     (case scan_maps line of
        None \<Rightarrow> libs_lines ms pid lines ents cnt tbl w
      | Some (start, end, rest) \<Rightarrow>
          let path = trim rest in
          if rest = [] \<or> path = [] \<or> hd path = CHR ''['' then libs_lines ms pid lines ents cnt tbl w
          else if \<not> is_shared_library (Some path) then libs_lines ms pid lines ents cnt tbl w
          else if path_exists ents path then libs_lines ms pid lines ents cnt tbl w
          else
            let pathbuf = ''/proc/'' @ long_str pid @ ''/map_files/'' @ hex_str start @ ''-'' @ hex_str end in
            cbind (sha256_file ms path pathbuf tbl w) (\<lambda>((rc, dig), tbl, w).
            if rc \<noteq> 0 then libs_lines ms pid lines ents cnt tbl w
            else
              let (mem, w) = os_malloc (m_os ms) (of_nat (length path + 1)) w;
                  (arc, ents) = add_path mem ents path (case dig of Some d \<Rightarrow> d | None \<Rightarrow> [])
              in if arc \<noteq> 0 then Inr (-1, ents, tbl, w)
                 else libs_lines ms pid lines ents (cnt + 1) tbl w))"

definition sha256_libs ::
    "'w msys \<Rightarrow> int \<Rightarrow> path_entry list \<Rightarrow> fp_htable \<Rightarrow> 'w \<Rightarrow> (int \<times> path_entry list \<times> fp_htable \<times> 'w) cres" where
  "sha256_libs ms pid ents tbl w =
     (case m_lines ms (''/proc/'' @ long_str pid @ ''/maps'') w of
        None \<Rightarrow> Inr (-1, ents, tbl, w)
      | Some lines \<Rightarrow> libs_lines ms pid lines ents 0 tbl w)"

text \<open>
  Return value, digest and command path stored (\<open>None\<close>: the caller's buffer is
  untouched).
\<close>

definition sha256_pid ::
    "'w msys \<Rightarrow> int \<Rightarrow> nat \<Rightarrow> fp_htable \<Rightarrow> 'w \<Rightarrow>
     ((int \<times> bytes option \<times> string option) \<times> fp_htable \<times> 'w) cres" where
  "sha256_pid ms pid path_len tbl w =
     (let path = ''/proc/'' @ long_str pid @ ''/exe'' in
      cbind (sha256_file ms path path tbl w) (\<lambda>((rc, dig), tbl, w).
      if rc < 0 then Inr ((rc, dig, None), tbl, w)
      else Inr ((rc, dig, map_option (take (path_len - 1)) (m_readlink ms path w)), tbl, w)))"

section \<open>Looking an entry up again\<close>

lemma find_chain_append:
  "find_chain es p i = Inr None \<Longrightarrow>
   find_chain (es @ [e]) p i = cbind (mpath_eq (fe_path e) p) (\<lambda>m. Inr (if m then Some (i + length es) else None))"
proof (induction es arbitrary: i)
  case (Cons e' es)
  then obtain m where m: "mpath_eq (fe_path e') p = Inr m" "(if m then Inr (Some i) else find_chain es p (i + 1)) = Inr None"
    by (auto simp: cbind_eq_Inr)
  then have "\<not> m" "find_chain es p (i + 1) = Inr None" by (simp_all split: if_splits)
  with m(1) Cons.IH [of "i + 1"] show ?case by (simp cong: if_cong)
qed (simp add: if_distrib cong: if_cong)

lemma find_chain_found:
  "find_chain es p k = Inr (Some i) \<Longrightarrow>
     k \<le> i \<and> i < k + length es \<and> mpath_eq (fe_path (es ! (i - k))) p = Inr True"
proof (induction es arbitrary: k)
  case (Cons e es)
  from Cons.prems obtain m where m: "mpath_eq (fe_path e) p = Inr m"
    "(if m then Inr (Some k) else find_chain es p (k + 1)) = Inr (Some i)"
    by (auto simp: cbind_eq_Inr)
  show ?case
  proof (cases m)
    case False
    with m Cons.IH [of "k + 1"] have "k + 1 \<le> i" "i < k + 1 + length es"
      "mpath_eq (fe_path (es ! (i - (k + 1)))) p = Inr True" by simp_all
    then show ?thesis by (simp add: nth_Cons')
  qed (use m in auto)
qed simp

lemma mpath_eq_True: "mpath_eq m p = Inr True \<longleftrightarrow> m = MStr p"
  by (auto simp: mpath_eq_def split: mpath.splits if_splits)

text \<open>
  What a lookup returns: a position in the returned table that holds either an
  unset entry or one with exactly this path, and in the latter case the table
  is unchanged.
\<close>

lemma find_hashentry_result:
  assumes "find_hashentry mm tbl p = Inr (h, i, t)"
  shows "h = unat (mhash mm p)" "h < length t" "i < length (t ! h)" "length t = length tbl"
    and "fe_path ((t ! h) ! i) = MNone \<or> fe_path ((t ! h) ! i) = MStr p \<and> t = tbl"
proof -
  let ?h = "unat (mhash mm p)" and ?b = "tbl ! unat (mhash mm p)"
  from assms have h: "h = ?h" and lt: "?h < length tbl" and ne: "0 < length ?b"
    by (auto simp: find_hashentry_def cbind_eq_Inr cnth_eq_Inr Let_def split: if_splits option.splits)
  have cases: "i = 0 \<and> t = tbl \<and> (fe_path (?b ! 0) = MNone \<or> fe_path (?b ! 0) = MStr p)
      \<or> find_chain (tl ?b) p 1 = Inr (Some i) \<and> t = tbl
      \<or> i = length ?b \<and> t = tbl[?h := ?b @ [fp_zero]]"
    using assms
    by (auto simp: find_hashentry_def cbind_eq_Inr cnth_eq_Inr Let_def mpath_eq_True split: if_splits option.splits)
  have found: "i < length ?b \<and> fe_path (?b ! i) = MStr p" if "find_chain (tl ?b) p 1 = Inr (Some i)"
    using find_chain_found [OF that] ne by (cases ?b) (auto simp: mpath_eq_True nth_Cons')
  show "h = ?h" by (rule h)
  show "h < length t" "length t = length tbl" using cases lt h by auto
  show "i < length (t ! h)" using cases found ne lt h by auto
  show "fe_path ((t ! h) ! i) = MNone \<or> fe_path ((t ! h) ! i) = MStr p \<and> t = tbl"
    using cases found h lt by (auto simp: fp_zero_def nth_append)
qed

lemma set_entry_nth:
  "h < length t \<Longrightarrow> i < length (t ! h) \<Longrightarrow> set_entry t h i f ! h = (t ! h)[i := f ((t ! h) ! i)]"
  by (simp add: set_entry_def)

lemma find_fresh_cases:
  assumes "find_hashentry mm tbl p = Inr (h, i, t)" "fe_path ((t ! h) ! i) = MNone"
  shows "i = 0 \<and> t = tbl \<or>
     0 < i \<and> t = tbl[h := tbl ! h @ [fp_zero]] \<and> i = length (tbl ! h) \<and> fe_path ((tbl ! h) ! 0) \<noteq> MNone \<and>
     mpath_eq (fe_path ((tbl ! h) ! 0)) p = Inr False \<and> find_chain (tl (tbl ! h)) p 1 = Inr None"
proof (cases "fe_path ((tbl ! h) ! 0) = MNone")
  case True
  then show ?thesis
    using assms(1) find_hashentry_result(1) [OF assms(1)]
    by (auto simp: find_hashentry_def Let_def cbind_eq_Inr cnth_eq_Inr)
next
  case False
  let ?b = "tbl ! h"
  have h: "h = unat (mhash mm p)" by (rule find_hashentry_result(1) [OF assms(1)])
  have lt: "h < length tbl" using find_hashentry_result(2,4) [OF assms(1)] by simp
  have ne: "0 < length ?b"
    using assms(1) lt unfolding find_hashentry_def Let_def h [symmetric]
    by (cases "0 < length ?b") (simp_all add: cnth_def)
  have run: "cbind (mpath_eq (fe_path (?b ! 0)) p) (\<lambda>m.
        if m then Inr (h, 0, tbl)
        else cbind (find_chain (tl ?b) p 1) (\<lambda>r.
          case r of Some i \<Rightarrow> Inr (h, i, tbl) | None \<Rightarrow> Inr (h, length ?b, tbl[h := ?b @ [fp_zero]])))
      = Inr (h, i, t)"
    using assms(1) False lt ne unfolding find_hashentry_def Let_def h [symmetric] by simp
  then obtain m where m: "mpath_eq (fe_path (?b ! 0)) p = Inr m" by (auto simp: cbind_eq_Inr)
  have "\<not> m"
  proof
    assume "m"
    with run [unfolded m cbind_Inr] have "i = 0" "t = tbl" by simp_all
    moreover have "fe_path (?b ! 0) = MStr p" using \<open>m\<close> m by (simp flip: mpath_eq_True)
    ultimately show False using assms(2) by simp
  qed
  with run m obtain r where r: "find_chain (tl ?b) p 1 = Inr r" by (auto simp: cbind_eq_Inr)
  show ?thesis
  proof (cases r)
    case None
    then show ?thesis using run m \<open>\<not> m\<close> r ne False by auto
  next
    case (Some j)
    then have "j = i" "t = tbl" using run m \<open>\<not> m\<close> r by simp_all
    then have "fe_path (?b ! i) = MStr p"
      using find_chain_found [of "tl ?b" p 1 j] r Some by (auto simp: mpath_eq_True nth_tl)
    then show ?thesis using assms(2) \<open>t = tbl\<close> by simp
  qed
qed

text \<open>After a fresh entry has been filled the next lookup compares with what was stored in it.\<close>

lemma find_stored:
  assumes find: "find_hashentry mm tbl p = Inr (h, i, t)" and fresh: "fe_path ((t ! h) ! i) = MNone"
    and m: "fe_path (f ((t ! h) ! i)) = m" "m \<noteq> MNone" "mpath_eq m p \<noteq> Inr False"
  shows "find_hashentry mm (set_entry t h i f) p = cbind (mpath_eq m p) (\<lambda>_. Inr (h, i, set_entry t h i f))"
proof -
  note res = find_hashentry_result [OF find]
  let ?t = "set_entry t h i f" and ?b = "set_entry t h i f ! h"
  have len: "h < length ?t" "length ?b = length (t ! h)" using res(2) by (simp_all add: set_entry_def)
  consider "i = 0" "t = tbl" | "0 < i" "t = tbl[h := tbl ! h @ [fp_zero]]" "i = length (tbl ! h)"
    "fe_path ((tbl ! h) ! 0) \<noteq> MNone" "mpath_eq (fe_path ((tbl ! h) ! 0)) p = Inr False"
    "find_chain (tl (tbl ! h)) p 1 = Inr None"
    using find_fresh_cases [OF find fresh] by blast
  then show ?thesis
  proof cases
    case 1
    then show ?thesis
      using res m len
      by (cases "mpath_eq m p") (simp_all add: find_hashentry_def Let_def set_entry_nth res(1) [symmetric])
  next
    case 2
    have h: "h < length tbl" using res(2,4) by simp
    have b: "?b = tbl ! h @ [f fp_zero]"
      using 2 h res(3) by (simp add: set_entry_def nth_append list_update_append)
    have "f fp_zero = f ((t ! h) ! i)" using 2 h by (simp add: nth_append)
    then have "fe_path (f fp_zero) = m" using m(1) by simp
    moreover have ne: "tbl ! h \<noteq> []" using 2(1,3) by auto
    ultimately have "find_chain (tl ?b) p 1 = cbind (mpath_eq m p) (\<lambda>e. Inr (if e then Some i else None))"
      unfolding b using find_chain_append [OF 2(6), of "f fp_zero"] 2(3) by (simp cong: if_cong)
    then show ?thesis
      using 2 h len m b ne
      by (cases "mpath_eq m p") (simp_all add: find_hashentry_def Let_def nth_append res(1) [symmetric])
  qed
qed

text \<open>
  The tables the library builds: buckets are never empty, and a bucket whose
  inline entry is unset holds nothing else.
\<close>

definition cache_ok :: "fp_htable \<Rightarrow> bool" where
  "cache_ok tbl \<longleftrightarrow> length tbl = MTABLE_SZ \<and>
     (\<forall>b \<in> set tbl. b \<noteq> [] \<and> (fe_path (hd b) = MNone \<longrightarrow> b = [fp_zero]) \<and>
        (\<forall>e \<in> set (tl b). fe_path e \<noteq> MNone))"

lemma cache_ok_init: "cache_ok filepath_htable"
  by (simp add: cache_ok_def filepath_htable_def)

lemma fresh_entry_zero:
  assumes "cache_ok tbl" "find_hashentry mm tbl p = Inr (h, i, t)" "fe_path ((t ! h) ! i) = MNone"
  shows "(t ! h) ! i = fp_zero"
proof -
  note res = find_hashentry_result [OF assms(2)]
  have h: "h < length tbl" using res(2,4) by simp
  then have "tbl ! h \<in> set tbl" by simp
  then have ok: "tbl ! h \<noteq> []" "fe_path (hd (tbl ! h)) = MNone \<longrightarrow> tbl ! h = [fp_zero]"
    using assms(1) by (auto simp: cache_ok_def)
  from find_fresh_cases [OF assms(2,3)] show ?thesis
  proof
    assume "i = 0 \<and> t = tbl"
    then show ?thesis using ok assms(3) by (simp add: hd_conv_nth)
  qed (use h in \<open>auto simp: nth_append\<close>)
qed

lemma cache_ok_set_entry:
  assumes ok: "cache_ok tbl" and find: "find_hashentry mm tbl p = Inr (h, i, t)"
    and fresh: "fe_path ((t ! h) ! i) = MNone" and f: "fe_path (f ((t ! h) ! i)) \<noteq> MNone"
  shows "cache_ok (set_entry t h i f)"
proof -
  note res = find_hashentry_result [OF find]
  have h: "h < length tbl" using res(2,4) by simp
  then have "tbl ! h \<in> set tbl" by simp
  then have b: "tbl ! h \<noteq> []" "fe_path (hd (tbl ! h)) = MNone \<longrightarrow> tbl ! h = [fp_zero]"
    "\<forall>e \<in> set (tl (tbl ! h)). fe_path e \<noteq> MNone"
    using ok by (auto simp: cache_ok_def)
  let ?new = "(t ! h)[i := f ((t ! h) ! i)]"
  have new: "?new \<noteq> [] \<and> (fe_path (hd ?new) = MNone \<longrightarrow> ?new = [fp_zero]) \<and> (\<forall>e \<in> set (tl ?new). fe_path e \<noteq> MNone)"
    using find_fresh_cases [OF find fresh]
  proof
    assume "i = 0 \<and> t = tbl"
    then show ?thesis using b f by (cases "tbl ! h") auto
  next
    assume *: "0 < i \<and> t = tbl[h := tbl ! h @ [fp_zero]] \<and> i = length (tbl ! h) \<and>
      fe_path ((tbl ! h) ! 0) \<noteq> MNone \<and> mpath_eq (fe_path ((tbl ! h) ! 0)) p = Inr False \<and>
      find_chain (tl (tbl ! h)) p 1 = Inr None"
    then have "?new = tbl ! h @ [f fp_zero]" "fe_path (f fp_zero) \<noteq> MNone"
      using h f by (simp_all add: nth_append list_update_append)
    then show ?thesis using b * by (cases "tbl ! h") auto
  qed
  have "set_entry t h i f = tbl[h := ?new]"
    using find_fresh_cases [OF find fresh] h by (auto simp: set_entry_def)
  then show ?thesis
    using ok new by (auto simp: cache_ok_def dest!: subsetD [OF set_update_subset_insert])
qed

section \<open>Properties of the measurement\<close>

lemma set_entry_twice:
  "h < length t \<Longrightarrow> i < length (t ! h) \<Longrightarrow>
   set_entry (set_entry t h i f) h i g = set_entry t h i (g \<circ> f)"
  by (simp add: set_entry_def)

text \<open>The entry a run leaves: a function of the fresh entry for the outcome.\<close>

definition filled :: "mpath \<Rightarrow> bytes option \<Rightarrow> fp_hentry \<Rightarrow> fp_hentry" where
  "filled m out e = (case out of None \<Rightarrow> e\<lparr>fe_path := m\<rparr> | Some d \<Rightarrow> e\<lparr>fe_path := m, fe_digest := take 32 d\<rparr>)"

lemma filled_simps:
  "filled m None = fe_path_update (\<lambda>_. m)"
  "filled m (Some d) = (\<lambda>e. e\<lparr>fe_path := m, fe_digest := take 32 d\<rparr>)"
  by (rule ext, simp add: filled_def)+

lemma sha256_file_fresh:
  assumes "find_hashentry (m_murmur ms) tbl libpath = Inr (h, i, t)" "fe_path ((t ! h) ! i) = MNone"
  shows "sha256_file ms libpath path tbl w =
     (let (contents, w') = measure_file ms path w; out = map_option (m_sha256 ms) contents
      in Inr ((if out = None then -1 else 0, out), set_entry t h i (filled (cached_path libpath path) out), w'))"
proof -
  note res = find_hashentry_result(2,3) [OF assms(1)]
  have "set_entry (set_entry t h i (fe_path_update (\<lambda>_. m))) h i (fe_digest_update (\<lambda>_. d))
      = set_entry t h i (\<lambda>e. e\<lparr>fe_path := m, fe_digest := d\<rparr>)" for m d
    using set_entry_twice [OF res] by (simp add: comp_def)
  then show ?thesis
    using assms by (auto simp: sha256_file_def filled_simps Let_def case_prod_beta split: option.splits)
qed

lemma sha256_file_hit:
  assumes "find_hashentry (m_murmur ms) tbl libpath = Inr (h, i, t)" "fe_path ((t ! h) ! i) \<noteq> MNone"
  shows "sha256_file ms libpath path tbl w = Inr ((0, Some (fe_digest ((t ! h) ! i))), t, w)"
  using assms by (simp add: sha256_file_def)

lemma cached_path_MStr: "length libpath \<le> length path \<Longrightarrow> cached_path libpath path = MStr libpath"
  by (simp add: cached_path_def)


text \<open>The digests of the cache have 32 bytes.\<close>

definition sized_cache :: "fp_htable \<Rightarrow> bool" where
  "sized_cache tbl \<longleftrightarrow> (\<forall>b \<in> set tbl. \<forall>e \<in> set b. length (fe_digest e) = 32)"

lemma sized_cache_init: "sized_cache filepath_htable"
  by (simp add: sized_cache_def filepath_htable_def fp_zero_def)

lemma sized_cache_nth:
  "sized_cache t \<Longrightarrow> h < length t \<Longrightarrow> i < length (t ! h) \<Longrightarrow> length (fe_digest ((t ! h) ! i)) = 32"
  by (metis nth_mem sized_cache_def)

lemma sized_cache_update:
  "sized_cache t \<Longrightarrow> \<forall>e \<in> set b. length (fe_digest e) = 32 \<Longrightarrow> sized_cache (t[h := b])"
  by (auto simp: sized_cache_def dest!: set_update_subset_insert [THEN subsetD])

lemma find_hashentry_sized:
  assumes "find_hashentry mm tbl p = Inr (h, i, t)" "sized_cache tbl"
  shows "sized_cache t"
proof -
  have "t = tbl \<or> h < length tbl \<and> t = tbl[h := tbl ! h @ [fp_zero]]"
    using assms(1) by (auto simp: find_hashentry_def Let_def cbind_eq_Inr cnth_eq_Inr split: if_splits option.splits)
  moreover have "\<forall>e \<in> set (tbl ! h @ [fp_zero]). length (fe_digest e) = 32" if "h < length tbl"
    using nth_mem [OF that] assms(2) by (auto simp: sized_cache_def fp_zero_def)
  ultimately show ?thesis using assms(2) sized_cache_update by blast
qed

lemma set_entry_sized:
  assumes "sized_cache t" "h < length t" "i < length (t ! h)" "\<And>e. length (fe_digest e) = 32 \<Longrightarrow> length (fe_digest (f e)) = 32"
  shows "sized_cache (set_entry t h i f)"
proof -
  have "\<forall>e \<in> set (t ! h). length (fe_digest e) = 32"
    using nth_mem [OF assms(2)] assms(1) by (auto simp: sized_cache_def)
  moreover have "length (fe_digest (f ((t ! h) ! i))) = 32" by (rule assms(4) [OF sized_cache_nth [OF assms(1-3)]])
  ultimately have "\<forall>e \<in> set ((t ! h)[i := f ((t ! h) ! i)]). length (fe_digest e) = 32"
    by (auto dest!: set_update_subset_insert [THEN subsetD])
  then show ?thesis unfolding set_entry_def by (rule sized_cache_update [OF assms(1)])
qed

lemma sha256_file_sized:
  assumes "sha256_file ms lib path tbl w = Inr ((rc, dig), tbl', w')" "sized_cache tbl"
    and "\<forall>x. length (m_sha256 ms x) = 32"
  shows "sized_cache tbl' \<and> (case dig of None \<Rightarrow> rc = -1 | Some d \<Rightarrow> rc = 0 \<and> length d = 32)"
proof -
  from assms(1) obtain h i t where find: "find_hashentry (m_murmur ms) tbl lib = Inr (h, i, t)"
    by (auto simp: sha256_file_def cbind_eq_Inr)
  note pos = find_hashentry_result(2,3) [OF find]
  have t: "sized_cache t" by (rule find_hashentry_sized [OF find assms(2)])
  show ?thesis
  proof (cases "fe_path ((t ! h) ! i) = MNone")
    case True
    obtain c w1 where c: "measure_file ms path w = (c, w1)" by (cases "measure_file ms path w")
    have "length (fe_digest e) = 32 \<Longrightarrow> length (fe_digest (filled m (map_option (m_sha256 ms) c) e)) = 32" for e m
      using assms(3) by (simp add: filled_def split: option.splits)
    then show ?thesis
      using assms(1,3) set_entry_sized [OF t pos] by (cases c) (auto simp: sha256_file_fresh [OF find True] c Let_def)
  qed (use assms(1) t pos sha256_file_hit [OF find] in \<open>auto dest: sized_cache_nth\<close>)
qed

text \<open>A system where no file opens, and one where every file has the same two bytes.\<close>

definition ex_mos :: "int \<Rightarrow> 'w os" where
  "ex_mos fd = \<lparr>os_open = (\<lambda>_ _ _ w. (fd, w)), os_read = (\<lambda>_ _ w. ((2, [1, 2]), w)),
     os_write = (\<lambda>_ bs w. (int (length bs), w)), os_lseek = (\<lambda>_ _ _ w. (2, w)),
     os_close = (\<lambda>_ w. (0, w)), os_chmod = (\<lambda>_ _ w. (0, w)), os_malloc = (\<lambda>_ w. (True, w))\<rparr>"

definition ex_msys :: "int \<Rightarrow> 'w msys" where
  "ex_msys fd = \<lparr>m_os = (ex_mos fd), m_fstat = (\<lambda>_ _. Some 2), m_readlink = (\<lambda>_ _. Some ''/bin/sh''),
     m_lines = (\<lambda>_ _. None), m_sha256 = (\<lambda>bs. replicate 31 7 @ [of_nat (length bs)]), m_md = ms_good,
     m_murmur = (\<lambda>_. 0)\<rparr>"

lemma ex_first:
  "sha256_file (ex_msys fd) ''/l.so'' ''/proc/1/m'' filepath_htable () =
     Inr ((if fd < 0 then -1 else 0, if fd < 0 then None else Some (replicate 31 7 @ [2])),
       set_entry filepath_htable 0 0 (filled (MStr ''/l.so'') (if fd < 0 then None else Some (replicate 31 7 @ [2]))), ())"
proof -
  have find: "find_hashentry (m_murmur (ex_msys fd)) filepath_htable ''/l.so'' = Inr (0, 0, filepath_htable)"
    by (simp add: find_hashentry_def mhash_def ex_msys_def filepath_htable_def MTABLE_SZ_def fp_zero_def)
  have fresh: "fe_path ((filepath_htable ! 0) ! 0) = MNone"
    by (simp add: filepath_htable_def MTABLE_SZ_def fp_zero_def)
  show ?thesis
    by (simp add: sha256_file_fresh [OF find fresh] cached_path_def)
      (simp add: measure_file_def ex_msys_def ex_mos_def ms_good_def Let_def)
qed


text \<open>
  A library whose name is longer than the path it is measured under is
  entered without a terminator: the next lookup of the same name reads past
  the end of the stored buffer.
\<close>

theorem sha256_file_long_name:
  assumes "find_hashentry (m_murmur ms) tbl libpath = Inr (h, i, t)" "fe_path ((t ! h) ! i) = MNone"
    and "length path < length libpath"
    and "sha256_file ms libpath path tbl w = Inr (r, tbl', w1)"
  shows "sha256_file ms libpath path2 tbl' w2 = Inl OutOfBounds"
proof -
  let ?m = "MOpen (take (length path + 1) libpath)"
  have run: "\<exists>out. tbl' = set_entry t h i (filled ?m out)"
    using assms(4) sha256_file_fresh [OF assms(1,2), of path w] assms(3)
    by (auto simp: Let_def case_prod_beta cached_path_def)
  then obtain out where tbl': "tbl' = set_entry t h i (filled ?m out)" ..
  have "mpath_eq ?m libpath = Inl OutOfBounds" using assms(3) by (simp add: mpath_eq_def min_def)
  moreover have "fe_path (filled ?m out ((t ! h) ! i)) = ?m" by (simp add: filled_def split: option.splits)
  ultimately have "find_hashentry (m_murmur ms) tbl' libpath = Inl OutOfBounds"
    using find_stored [OF assms(1,2), of "filled ?m out" ?m] by (simp add: tbl')
  then show ?thesis by (simp add: sha256_file_def)
qed

theorem sha256_file_long_name_witness:
  "\<exists>r tbl'. sha256_file (ex_msys 3) ''/libcrypto.so'' ''/proc/1/m'' filepath_htable () = Inr (r, tbl', ()) \<and>
     sha256_file (ex_msys 3) ''/libcrypto.so'' ''/proc/2/m'' tbl' () = Inl OutOfBounds"
proof -
  have find: "find_hashentry (m_murmur (ex_msys 3)) filepath_htable ''/libcrypto.so'' = Inr (0, 0, filepath_htable)"
    by (simp add: find_hashentry_def mhash_def ex_msys_def filepath_htable_def MTABLE_SZ_def fp_zero_def)
  have fresh: "fe_path ((filepath_htable ! 0) ! 0) = MNone"
    by (simp add: filepath_htable_def MTABLE_SZ_def fp_zero_def)
  have len: "length ''/proc/1/m'' < length ''/libcrypto.so''" by simp
  obtain r tbl' where run: "sha256_file (ex_msys 3) ''/libcrypto.so'' ''/proc/1/m'' filepath_htable () = Inr (r, tbl', ())"
    by (auto simp: sha256_file_fresh [OF find fresh] Let_def case_prod_beta)
  from sha256_file_long_name [OF find fresh len run] run show ?thesis by blast
qed

section \<open>The libraries of a process\<close>

definition libs_inv :: "path_entry list \<Rightarrow> bool" where
  "libs_inv es \<longleftrightarrow> distinct (map pe_path es) \<and> (\<forall>e \<in> set es. is_shared_library (Some (pe_path e)))"

lemma path_exists_set: "path_exists es p \<longleftrightarrow> p \<in> pe_path ` set es"
  by (induction es) auto

lemma libs_lines_inv:
  assumes "libs_lines ms pid lines es cnt tbl w = Inr (n, es', tbl', w')" "libs_inv es" "cnt = int (length es)"
  shows "libs_inv es' \<and> (n = -1 \<or> n = int (length es'))"
  using assms
proof (induction lines arbitrary: es cnt tbl w)
  case (Cons line lines)
  show ?case
  proof (cases "scan_maps line")
    case None
    then show ?thesis using Cons by simp
  next
    case (Some r)
    obtain a b rest where r: "r = (a, b, rest)" by (cases r)
    let ?p = "trim rest"
    let ?skip = "rest = [] \<or> ?p = [] \<or> hd ?p = CHR ''['' \<or> \<not> is_shared_library (Some ?p) \<or> path_exists es ?p"
    show ?thesis
    proof (cases ?skip)
      case True
      then have "libs_lines ms pid (line # lines) es cnt tbl w = libs_lines ms pid lines es cnt tbl w"
        using Some r by (auto simp: Let_def)
      then show ?thesis using Cons by simp
    next
      case False
      let ?buf = "''/proc/'' @ long_str pid @ ''/map_files/'' @ hex_str a @ ''-'' @ hex_str b"
      from Cons.prems(1) False Some r obtain rc dig tbl1 w1 where
        s: "sha256_file ms ?p ?buf tbl w = Inr ((rc, dig), tbl1, w1)"
        by (auto simp: cbind_eq_Inr Let_def)
      let ?d = "case dig of Some d \<Rightarrow> d | None \<Rightarrow> []"
      have inv: "libs_inv (\<lparr>pe_path = ?p, pe_digest = ?d\<rparr> # es)"
        using Cons.prems(2) False by (auto simp: libs_inv_def path_exists_set)
      obtain mem w2 where mem: "os_malloc (m_os ms) (of_nat (length ?p + 1)) w1 = (mem, w2)"
        by (cases "os_malloc (m_os ms) (of_nat (length ?p + 1)) w1")
      have step: "libs_lines ms pid (line # lines) es cnt tbl w =
          (if rc \<noteq> 0 then libs_lines ms pid lines es cnt tbl1 w1
           else if \<not> mem then Inr (-1, es, tbl1, w2)
           else libs_lines ms pid lines (\<lparr>pe_path = ?p, pe_digest = ?d\<rparr> # es) (cnt + 1) tbl1 w2)"
        using False Some r s mem by (simp add: Let_def add_path_def)
      consider "rc \<noteq> 0" | "rc = 0" "\<not> mem" | "rc = 0" mem by blast
      then show ?thesis
      proof cases
        case 3
        then have "libs_lines ms pid lines (\<lparr>pe_path = ?p, pe_digest = ?d\<rparr> # es) (cnt + 1) tbl1 w2 = Inr (n, es', tbl', w')"
          using Cons.prems(1) step by simp
        from Cons.IH [OF this inv] Cons.prems(3) show ?thesis by simp
      qed (use Cons step in auto)
    qed
  qed
qed simp

text \<open>
  C25.  \<open>sha256_libs\<close>, started on an empty list, returns \<open>-1\<close> or the length of
  the list it built; no path occurs twice in the list and every path contains
  \<open>.so\<close>.
\<close>

theorem sha256_libs_count:
  assumes "sha256_libs ms pid [] tbl w = Inr (n, es, tbl', w')"
  shows "(n = -1 \<or> n = int (length es)) \<and> distinct (map pe_path es) \<and>
     (\<forall>e \<in> set es. is_shared_library (Some (pe_path e)))"
proof (cases "m_lines ms (''/proc/'' @ long_str pid @ ''/maps'') w")
  case None
  then show ?thesis using assms by (simp add: sha256_libs_def)
next
  case (Some lines)
  then have "libs_lines ms pid lines [] 0 tbl w = Inr (n, es, tbl', w')"
    using assms by (simp add: sha256_libs_def)
  then have "libs_inv es \<and> (n = -1 \<or> n = int (length es))"
    by (rule libs_lines_inv) (simp_all add: libs_inv_def)
  then show ?thesis by (simp add: libs_inv_def)
qed

text \<open>A process that maps one library twice, and its heap.\<close>

definition ex_maps :: "unit msys" where
  "ex_maps = (ex_msys 3)\<lparr>m_lines := (\<lambda>_ _. Some
     [''7f00-7f01 r--p 0 08:01 12 /lib/c.so'', ''7f01-7f02 r-xp 1000 08:01 12 /lib/c.so'',
      ''8f00-8f01 rw-p 0 00:00 0 [heap]''])\<rparr>"

lemma ex_maps_run:
  "\<exists>tbl'. sha256_libs ex_maps 1 [] filepath_htable () =
     Inr (1, [\<lparr>pe_path = ''/lib/c.so'', pe_digest = replicate 31 7 @ [2]\<rparr>], tbl', ())"
proof -
  have lines: "scan_maps ''7f00-7f01 r--p 0 08:01 12 /lib/c.so'' = Some (0x7f00, 0x7f01, ''/lib/c.so'')"
    "scan_maps ''7f01-7f02 r-xp 1000 08:01 12 /lib/c.so'' = Some (0x7f01, 0x7f02, ''/lib/c.so'')"
    "scan_maps ''8f00-8f01 rw-p 0 00:00 0 [heap]'' = Some (0x8f00, 0x8f01, ''[heap]'')"
    "trim ''/lib/c.so'' = ''/lib/c.so''" "trim ''[heap]'' = ''[heap]''"
    "is_shared_library (Some ''/lib/c.so'')"
    by (simp_all add: scan_maps_def scan_num_def scan_word_def skip_ws_def is_space_def hex_val_def dec_val_def
        trim_def is_shared_library_def Let_def)
  have find: "find_hashentry (m_murmur ex_maps) filepath_htable ''/lib/c.so'' = Inr (0, 0, filepath_htable)"
    by (simp add: find_hashentry_def mhash_def ex_maps_def ex_msys_def filepath_htable_def MTABLE_SZ_def fp_zero_def)
  have fresh: "fe_path ((filepath_htable ! 0) ! 0) = MNone"
    by (simp add: filepath_htable_def MTABLE_SZ_def fp_zero_def)
  have measure: "measure_file ex_maps p () = (Some [1, 2], ())" for p
    by (simp add: measure_file_def ex_maps_def ex_msys_def ex_mos_def ms_good_def Let_def)
  have sha: "\<exists>t. sha256_file ex_maps ''/lib/c.so'' p filepath_htable () = Inr ((0, Some (replicate 31 7 @ [2])), t, ())" for p
    by (simp add: sha256_file_fresh [OF find fresh] measure Let_def) (simp add: ex_maps_def ex_msys_def)
  let ?buf = "''/proc/'' @ long_str 1 @ ''/map_files/'' @ hex_str 0x7f00 @ ''-'' @ hex_str 0x7f01"
  obtain t where t: "sha256_file ex_maps ''/lib/c.so'' ?buf filepath_htable () = Inr ((0, Some (replicate 31 7 @ [2])), t, ())"
    using sha by blast
  have lines_eq: "m_lines ex_maps f () = Some [''7f00-7f01 r--p 0 08:01 12 /lib/c.so'',
      ''7f01-7f02 r-xp 1000 08:01 12 /lib/c.so'', ''8f00-8f01 rw-p 0 00:00 0 [heap]'']" for f
    by (simp add: ex_maps_def)
  have mem: "os_malloc (m_os ex_maps) n () = (True, ())" for n
    by (simp add: ex_maps_def ex_msys_def ex_mos_def)
  show ?thesis
    using t by (simp add: sha256_libs_def lines_eq lines mem add_path_def Let_def)
qed

theorem sha256_libs_count_witness:
  "\<exists>es tbl'. sha256_libs ex_maps 1 [] filepath_htable () = Inr (1, es, tbl', ()) \<and>
     length es = 1 \<and> distinct (map pe_path es)"
proof -
  obtain tbl' where run: "sha256_libs ex_maps 1 [] filepath_htable () =
     Inr (1, [\<lparr>pe_path = ''/lib/c.so'', pe_digest = replicate 31 7 @ [2]\<rparr>], tbl', ())"
    using ex_maps_run ..
  from sha256_libs_count [OF run] run show ?thesis by auto
qed

end
