(* ===== verification/Cbor_Model.thy ===== *)
theory Cbor_Model
  imports Prelude
begin

text \<open>
  The interface of libcbor as the code uses it.  \<open>cbor\<close> is a decoded item;
  \<open>cl_load\<close> decodes a buffer (\<open>None\<close>: an error code and NULL) and \<open>cl_ser\<close>
  serializes an item.  The accessors have the preconditions that libcbor
  documents; a call outside them is a \<open>LibContract\<close> fault, a call on the NULL
  item a \<open>NullDeref\<close>.

  The second half holds the three \<open>mycbor_\<close> helpers and \<open>unpack_sercbor\<close> of
  \<open>src/libpica_clnt.c\<close>.
\<close>

unbundle bit_operations_syntax

section \<open>Items\<close>

text \<open>
  An unsigned integer carries its width in bytes.  A string, an array or a map
  may be of indefinite length (\<open>False\<close>); such a string has no single buffer.
\<close>

datatype cbor =
    CUint nat u64
  | CNegint nat u64
  | CBytes bool bytes
  | CText bool bytes
  | CArr bool "cbor list"
  | CMap bool "(cbor \<times> cbor) list"
  | CTag u64 cbor
  | CCtrl nat u64

record cbor_lib =
  cl_load :: "bytes \<Rightarrow> cbor option"
  cl_ser :: "cbor \<Rightarrow> bytes"

text \<open>What the code relies on: a serialized item is loaded back.\<close>

definition cbor_faithful :: "cbor_lib \<Rightarrow> cbor \<Rightarrow> bool" where
  "cbor_faithful cl x \<longleftrightarrow> cl_load cl (cl_ser cl x) = Some x"

section \<open>Accessors\<close>

definition cbor_isa_uint :: "cbor option \<Rightarrow> bool cres" where
  "cbor_isa_uint it = cbind (deref it) (\<lambda>x. Inr (case x of CUint _ _ \<Rightarrow> True | _ \<Rightarrow> False))"

definition cbor_isa_bytestring :: "cbor option \<Rightarrow> bool cres" where
  "cbor_isa_bytestring it = cbind (deref it) (\<lambda>x. Inr (case x of CBytes _ _ \<Rightarrow> True | _ \<Rightarrow> False))"

definition cbor_isa_string :: "cbor option \<Rightarrow> bool cres" where
  "cbor_isa_string it = cbind (deref it) (\<lambda>x. Inr (case x of CText _ _ \<Rightarrow> True | _ \<Rightarrow> False))"

definition cbor_isa_array :: "cbor option \<Rightarrow> bool cres" where
  "cbor_isa_array it = cbind (deref it) (\<lambda>x. Inr (case x of CArr _ _ \<Rightarrow> True | _ \<Rightarrow> False))"

definition cbor_isa_map :: "cbor option \<Rightarrow> bool cres" where
  "cbor_isa_map it = cbind (deref it) (\<lambda>x. Inr (case x of CMap _ _ \<Rightarrow> True | _ \<Rightarrow> False))"

definition cbor_isa_tag :: "cbor option \<Rightarrow> bool cres" where
  "cbor_isa_tag it = cbind (deref it) (\<lambda>x. Inr (case x of CTag _ _ \<Rightarrow> True | _ \<Rightarrow> False))"

definition cbor_get_int :: "cbor option \<Rightarrow> u64 cres" where
  "cbor_get_int it = cbind (deref it) (\<lambda>x.
     case x of CUint _ v \<Rightarrow> Inr v | CNegint _ v \<Rightarrow> Inr v | _ \<Rightarrow> Inl LibContract)"

text \<open>Handle and length of a string of definite length.\<close>

definition cbor_bytestring :: "cbor option \<Rightarrow> bytes cres" where
  "cbor_bytestring it = cbind (deref it) (\<lambda>x.
     case x of CBytes True bs \<Rightarrow> Inr bs | _ \<Rightarrow> Inl LibContract)"

definition cbor_string :: "cbor option \<Rightarrow> bytes cres" where
  "cbor_string it = cbind (deref it) (\<lambda>x.
     case x of CText True bs \<Rightarrow> Inr bs | _ \<Rightarrow> Inl LibContract)"

definition cbor_map_pairs :: "cbor option \<Rightarrow> (cbor \<times> cbor) list cres" where
  "cbor_map_pairs it = cbind (deref it) (\<lambda>x. case x of CMap _ ps \<Rightarrow> Inr ps | _ \<Rightarrow> Inl LibContract)"

definition cbor_array_items :: "cbor option \<Rightarrow> cbor list cres" where
  "cbor_array_items it = cbind (deref it) (\<lambda>x. case x of CArr _ xs \<Rightarrow> Inr xs | _ \<Rightarrow> Inl LibContract)"

lemmas cbor_access_defs =
  cbor_isa_uint_def cbor_isa_bytestring_def cbor_isa_string_def cbor_isa_array_def cbor_isa_map_def
  cbor_isa_tag_def cbor_get_int_def cbor_bytestring_def cbor_string_def cbor_map_pairs_def
  cbor_array_items_def

lemma cbor_access_ok [simp]:
  "cbor_isa_uint (Some (CUint n v)) = Inr True" "cbor_get_int (Some (CUint n v)) = Inr v"
  "cbor_isa_bytestring (Some (CBytes d bs)) = Inr True" "cbor_bytestring (Some (CBytes True bs)) = Inr bs"
  "cbor_isa_string (Some (CText d ts)) = Inr True" "cbor_string (Some (CText True ts)) = Inr ts"
  "cbor_isa_array (Some (CArr d xs)) = Inr True" "cbor_array_items (Some (CArr d xs)) = Inr xs"
  "cbor_isa_map (Some (CMap d ps)) = Inr True" "cbor_map_pairs (Some (CMap d ps)) = Inr ps"
  "cbor_isa_tag (Some (CTag t x)) = Inr True"
  by (simp_all add: cbor_access_defs)

section \<open>Helpers of the client library\<close>

text \<open>\<open>None\<close> is the NULL result.\<close>

definition unpack_sercbor :: "cbor_lib \<Rightarrow> cbor option \<Rightarrow> cbor option cres" where
  "unpack_sercbor cl item =
     cbind (cbor_isa_bytestring item) (\<lambda>b.
     if \<not> b then Inr None
     else cbind (cbor_bytestring item) (\<lambda>cp. Inr (cl_load cl cp)))"

definition mycbor_get_int :: "cbor option \<Rightarrow> u64 cres" where
  "mycbor_get_int val =
     cbind (cbor_isa_uint val) (\<lambda>b. if \<not> b then Inr (-1) else cbor_get_int val)"

text \<open>\<open>strncpy\<close> stops at the first NUL of the text.\<close>

definition mycbor_get_string :: "cbor option \<Rightarrow> string option cres" where
  "mycbor_get_string val =
     cbind (cbor_isa_string val) (\<lambda>b.
     if \<not> b then Inr None
     else cbind (cbor_string val) (\<lambda>str. Inr (Some (c_str (of_bytes str)))))"

text \<open>The return code and the destination, which keeps its contents on an error.\<close>

definition mycbor_copy_bstring :: "bytes \<Rightarrow> cbor option \<Rightarrow> nat \<Rightarrow> (int \<times> bytes) cres" where
  "mycbor_copy_bstring out val n =
     cbind (cbor_isa_bytestring val) (\<lambda>b.
     if \<not> b then Inr (-1, out)
     else cbind (cbor_bytestring val) (\<lambda>bstr.
       if length bstr \<noteq> n then Inr (-1, out) else Inr (0, bstr)))"

lemma unpack_sercbor_ser:
  "cbor_faithful cl x \<Longrightarrow> unpack_sercbor cl (Some (CBytes True (cl_ser cl x))) = Inr (Some x)"
  by (simp add: unpack_sercbor_def cbor_faithful_def)

lemma mycbor_ok [simp]:
  "mycbor_get_int (Some (CUint n v)) = Inr v"
  "nul_free s \<Longrightarrow> mycbor_get_string (Some (CText True (to_bytes s))) = Inr (Some s)"
  "length bs = n \<Longrightarrow> mycbor_copy_bstring out (Some (CBytes True bs)) n = Inr (0, bs)"
  by (simp_all add: mycbor_get_int_def mycbor_get_string_def mycbor_copy_bstring_def)

text \<open>
  A text key compared with a literal over the length of the key, as
  \<open>strncmp (literal, key, length of key)\<close> does: any prefix of the literal
  matches.
\<close>

definition key_matches :: "string \<Rightarrow> bytes \<Rightarrow> bool" where
  "key_matches lit key = strncmp_eq lit (of_bytes key) (length key)"

lemma key_matches_prefix:
  assumes "nul_free lit" "nul_free (of_bytes key)"
  shows "key_matches lit key \<longleftrightarrow> (\<exists>rest. lit = of_bytes key @ rest)"
  using strncmp_eq_key [OF assms(2,1)] by (simp add: key_matches_def of_bytes_def)

lemma key_matches_to_bytes: "key_matches lit (to_bytes key) = strncmp_eq lit key (length key)"
  by (simp add: key_matches_def)

end
