(* ===== verification/Codec.thy ===== *)
theory Codec
  imports Prelude
begin

text \<open>
  Fixed-size records in memory.  The interface \<open>struct_codec\<close> states what the
  code relies on when it copies a C struct to a byte buffer and reads it back
  through a pointer cast: a fixed size, and a decoding that inverts the
  encoding.  Inside it: arrays of structs, and the access to one element at
  its offset.
\<close>

unbundle bit_operations_syntax

text \<open>The bytes of an array of structs, and element \<open>i\<close> of the array at \<open>base\<close>.\<close>

definition struct_array :: "('a \<Rightarrow> bytes) \<Rightarrow> 'a list \<Rightarrow> bytes" where
  "struct_array enc xs = concat (map enc xs)"

definition get_struct :: "(bytes \<Rightarrow> 'a) \<Rightarrow> nat \<Rightarrow> bbuf \<Rightarrow> nat \<Rightarrow> nat \<Rightarrow> 'a cres" where
  "get_struct dec sz b base i = cbind (buf_get b (base + sz * i) sz) (\<lambda>bs. Inr (dec bs))"

locale struct_codec =
  fixes enc :: "'a \<Rightarrow> bytes"
    and dec :: "bytes \<Rightarrow> 'a"
    and sz :: nat
    and dom :: "'a \<Rightarrow> bool"
  assumes length_enc: "dom x \<Longrightarrow> length (enc x) = sz"
    and dec_enc: "dom x \<Longrightarrow> dec (enc x) = x"
begin

lemma length_array: "\<forall>x \<in> set xs. dom x \<Longrightarrow> length (struct_array enc xs) = sz * length xs"
  by (induction xs) (auto simp: struct_array_def length_enc)

lemma array_append: "struct_array enc (xs @ ys) = struct_array enc xs @ struct_array enc ys"
  by (simp add: struct_array_def)

lemma array_element:
  assumes "\<forall>x \<in> set xs. dom x" "i < length xs"
  shows "take sz (drop (sz * i) (struct_array enc xs)) = enc (xs ! i)"
proof -
  have "xs = take i xs @ xs ! i # drop (Suc i) xs"
    using assms(2) by (rule id_take_nth_drop)
  then have "struct_array enc xs = struct_array enc (take i xs) @ enc (xs ! i) @ struct_array enc (drop (Suc i) xs)"
    by (metis array_append struct_array_def concat.simps(2) list.simps(9))
  moreover have "length (struct_array enc (take i xs)) = sz * i"
    using assms by (subst length_array) (auto dest: in_set_takeD simp: min_def)
  ultimately show ?thesis
    using assms length_enc [of "xs ! i"] by simp
qed

text \<open>An element read back from an image that holds the array at \<open>length pre\<close>.\<close>

lemma get_struct_array:
  assumes "\<forall>x \<in> set xs. dom x" "i < length xs" "base = length pre"
  shows "get_struct dec sz (map Val (pre @ struct_array enc xs @ post)) base i = Inr (xs ! i)"
proof -
  have len: "length (struct_array enc xs) = sz * length xs" by (rule length_array [OF assms(1)])
  have *: "sz * i + sz \<le> sz * length xs"
    using assms(2) by (metis Suc_leI mult_Suc_right add.commute mult_le_mono2)
  have "take sz (drop (base + sz * i) (pre @ struct_array enc xs @ post)) = take sz (drop (sz * i) (struct_array enc xs))"
    using * len assms(3) by simp
  moreover have "base + sz * i + sz \<le> length (pre @ struct_array enc xs @ post)"
    using * len assms(3) by simp
  ultimately show ?thesis
    using assms array_element [OF assms(1,2)]
    by (simp only: get_struct_def buf_get_Val cbind_Inr) (simp add: dec_enc)
qed

end

end
