(* ===== verification/Pica_Conf.thy ===== *)
theory Pica_Conf
  imports Pica_Types Codec Io
begin

text \<open>
  The configuration file (\<open>src/libpica_clnt.c\<close>: \<open>reg_config\<close>, \<open>build_conf\<close>;
  \<open>src/libpica_clnt.h\<close>: \<open>struct confhead\<close>).  The file is the memory image of a
  header, an array of \<open>struct procinfo\<close>, an array of \<open>struct fdigest\<close> and a
  string area; pointers are stored as offsets.

  The structs have the layout of a little-endian LP64 machine: a \<open>confhead\<close> of
  20 bytes, a \<open>procinfo\<close> of 88 with 4 bytes of padding before its last field,
  an \<open>fdigest\<close> of 40.
\<close>

unbundle bit_operations_syntax

section \<open>The structs as stored\<close>

record rfdigest =
  rf_spos :: u64
  rf_digest :: bytes

record rprocinfo =
  rp_pid :: u32
  rp_ppid :: u32
  rp_ruid :: u32
  rp_rgid :: u32
  rp_euid :: u32
  rp_egid :: u32
  rp_suid :: u32
  rp_sgid :: u32
  rp_spos :: u64
  rp_digest :: bytes
  rp_count :: u32
  rp_pad :: u32
  rp_fpos :: u64

record confhead =
  ch_magic :: bytes
  ch_proc_cnt :: u32
  ch_fdig_cnt :: u32
  ch_str_size :: u32

definition PROCCONF_MAGIC :: string where "PROCCONF_MAGIC = ''PROCCNF''"

abbreviation "CONFHEAD_SZ \<equiv> (20::nat)"
abbreviation "PROCINFO_SZ \<equiv> (88::nat)"
abbreviation "FDIGEST_SZ \<equiv> (40::nat)"

definition enc_rfdigest :: "rfdigest \<Rightarrow> bytes" where
  "enc_rfdigest f = le_bytes 8 (rf_spos f) @ rf_digest f"

definition dec_rfdigest :: "bytes \<Rightarrow> rfdigest" where
  "dec_rfdigest bs = \<lparr>rf_spos = le_word (take 8 bs), rf_digest = drop 8 bs\<rparr>"

definition enc_rprocinfo :: "rprocinfo \<Rightarrow> bytes" where
  "enc_rprocinfo p =
     le_bytes 4 (rp_pid p) @ le_bytes 4 (rp_ppid p) @ le_bytes 4 (rp_ruid p) @ le_bytes 4 (rp_rgid p) @
     le_bytes 4 (rp_euid p) @ le_bytes 4 (rp_egid p) @ le_bytes 4 (rp_suid p) @ le_bytes 4 (rp_sgid p) @
     le_bytes 8 (rp_spos p) @ rp_digest p @ le_bytes 4 (rp_count p) @ le_bytes 4 (rp_pad p) @
     le_bytes 8 (rp_fpos p)"

definition dec_rprocinfo :: "bytes \<Rightarrow> rprocinfo" where
  "dec_rprocinfo bs = (let f = (\<lambda>k n. take n (drop k bs)) in
     \<lparr>rp_pid = le_word (f 0 4), rp_ppid = le_word (f 4 4), rp_ruid = le_word (f 8 4),
      rp_rgid = le_word (f 12 4), rp_euid = le_word (f 16 4), rp_egid = le_word (f 20 4),
      rp_suid = le_word (f 24 4), rp_sgid = le_word (f 28 4), rp_spos = le_word (f 32 8),
      rp_digest = f 40 32, rp_count = le_word (f 72 4), rp_pad = le_word (f 76 4),
      rp_fpos = le_word (f 80 8)\<rparr>)"

definition enc_confhead :: "confhead \<Rightarrow> bytes" where
  "enc_confhead h = ch_magic h @ le_bytes 4 (ch_proc_cnt h) @ le_bytes 4 (ch_fdig_cnt h) @
     le_bytes 4 (ch_str_size h)"

definition dec_confhead :: "bytes \<Rightarrow> confhead" where
  "dec_confhead bs = (let f = (\<lambda>k n. take n (drop k bs)) in
     \<lparr>ch_magic = f 0 8, ch_proc_cnt = le_word (f 8 4), ch_fdig_cnt = le_word (f 12 4),
      ch_str_size = le_word (f 16 4)\<rparr>)"

interpretation fd_codec: struct_codec enc_rfdigest dec_rfdigest FDIGEST_SZ "\<lambda>f. length (rf_digest f) = 32"
  by unfold_locales (simp_all add: enc_rfdigest_def dec_rfdigest_def)

interpretation pi_codec: struct_codec enc_rprocinfo dec_rprocinfo PROCINFO_SZ "\<lambda>p. length (rp_digest p) = 32"
  by unfold_locales (simp_all add: enc_rprocinfo_def dec_rprocinfo_def Let_def)

interpretation ch_codec: struct_codec enc_confhead dec_confhead CONFHEAD_SZ "\<lambda>h. length (ch_magic h) = 8"
  by unfold_locales (simp_all add: enc_confhead_def dec_confhead_def Let_def)

section \<open>Reading: \<open>build_conf\<close>\<close>

text \<open>
  The entries that the relocated pointers describe.  The strings and library
  entries behind the pointers are read here; a pointer out of the buffer
  faults here and not at its first use.
\<close>

definition conf_lib :: "bbuf \<Rightarrow> nat \<Rightarrow> nat \<Rightarrow> nat \<Rightarrow> nat \<Rightarrow> fdigest cres" where
  "conf_lib b fdp fdig_cnt sbuf k =
     (if k < fdig_cnt then
        cbind (get_struct dec_rfdigest FDIGEST_SZ b fdp k) (\<lambda>r.
        cbind (cstr_at b (sbuf + unat (rf_spos r))) (\<lambda>path.
        Inr \<lparr>fd_path = Some path, fd_digest = rf_digest r\<rparr>))
      else Inl OutOfBounds)"

definition conf_entry :: "bbuf \<Rightarrow> nat \<Rightarrow> nat \<Rightarrow> nat \<Rightarrow> nat \<Rightarrow> nat \<Rightarrow> procinfo cres" where
  "conf_entry b cpif fdp fdig_cnt sbuf i =
     cbind (get_struct dec_rprocinfo PROCINFO_SZ b cpif i) (\<lambda>r.
     cbind (cstr_at b (sbuf + unat (rp_spos r))) (\<lambda>path.
     let cnt = sint (rp_count r) in
     cbind (if cnt > 0
            then cbind (cmapM (conf_lib b fdp fdig_cnt sbuf)
                          [unat (rp_fpos r)..<unat (rp_fpos r) + nat cnt]) (\<lambda>ls. Inr (Some ls))
            else Inr None) (\<lambda>libs.
     Inr \<lparr>pi_pid = rp_pid r, pi_ppid = rp_ppid r, pi_ruid = rp_ruid r, pi_rgid = rp_rgid r,
          pi_euid = rp_euid r, pi_egid = rp_egid r, pi_suid = rp_suid r, pi_sgid = rp_sgid r,
          pi_path = Some path, pi_digest = rp_digest r, pi_count = cnt, pi_libs = libs\<rparr>)))"

text \<open>
  The value returned, and what is stored through \<open>pinfop\<close> (\<open>Garbage\<close>: nothing).
  The size check is done in \<open>size_t\<close>, with sign-extended counts, and lets negative
  ones through: the string area then begins before the digests.
\<close>

definition conf_size_ok :: "confhead \<Rightarrow> u64 \<Rightarrow> bool" where
  "conf_size_ok head sz \<longleftrightarrow>
     sz = of_nat CONFHEAD_SZ + of_nat PROCINFO_SZ * scast (ch_proc_cnt head)
        + of_nat FDIGEST_SZ * scast (ch_fdig_cnt head) + scast (ch_str_size head)"

text \<open>Where the string area begins.\<close>

definition conf_strs :: "nat \<Rightarrow> int \<Rightarrow> int" where
  "conf_strs fdp fdig_cnt = int fdp + int FDIGEST_SZ * fdig_cnt"

lemma conf_strs_nat [simp]:
  "nat (conf_strs fdp (int n)) = fdp + FDIGEST_SZ * n" "\<not> conf_strs fdp (int n) < 0"
  by (simp_all add: conf_strs_def nat_add_distrib nat_mult_distrib)

text \<open>The second loop stores a path in every digest of the array.\<close>

definition relocate_libs :: "bbuf \<Rightarrow> nat \<Rightarrow> nat \<Rightarrow> unit cres" where
  "relocate_libs b fdp n =
     cbind (cmapM (\<lambda>i. buf_get b (fdp + FDIGEST_SZ * i) 8) [0..<n]) (\<lambda>_. Inr ())"

lemma relocate_libs_ok:
  assumes "fdp + FDIGEST_SZ * n \<le> length bs"
  shows "relocate_libs (map Val bs) fdp n = Inr ()"
proof -
  have "cmapM (\<lambda>i. buf_get (map Val bs) (fdp + FDIGEST_SZ * i) 8) [0..<n] =
      Inr (map (\<lambda>i. take 8 (drop (fdp + FDIGEST_SZ * i) bs)) [0..<n])"
    using assms by (intro cmapM_Inr_map buf_get_Val) simp
  then show ?thesis by (simp add: relocate_libs_def)
qed

definition build_conf :: "bbuf option \<Rightarrow> u64 \<Rightarrow> (int \<times> procinfo list slot) cres" where
  "build_conf buf sz =
     cbind (deref buf) (\<lambda>b.
     cbind (get_struct dec_confhead CONFHEAD_SZ b 0 0) (\<lambda>head.
     if \<not> conf_size_ok head sz then Inr (0, Garbage)
     else
       let proc_cnt = sint (ch_proc_cnt head); fdig_cnt = sint (ch_fdig_cnt head);
           cpif = CONFHEAD_SZ; fdp = cpif + PROCINFO_SZ * nat proc_cnt;
           sbuf = conf_strs fdp fdig_cnt
       in if (proc_cnt < 0 \<and> 0 < fdig_cnt) \<or> sbuf < 0 then Inl OutOfBounds
          else cbind (cmapM (conf_entry b cpif fdp (nat fdig_cnt) (nat sbuf)) [0..<nat proc_cnt]) (\<lambda>ps.
               cbind (relocate_libs b fdp (nat fdig_cnt)) (\<lambda>_.
               Inr (proc_cnt, Val ps)))))"

section \<open>Writing: \<open>reg_config\<close>\<close>

text \<open>
  The bytes of the copied structs that the entries do not determine: the
  pointers before they are replaced by offsets, and the padding.  The library
  pointer of an entry without libraries and the padding reach the file.
\<close>

record addrs =
  path_addr :: "string \<Rightarrow> u64"
  libs_addr :: "procinfo \<Rightarrow> u64"
  pad_value :: "procinfo \<Rightarrow> u32"

definition raw_procinfo :: "addrs \<Rightarrow> procinfo \<Rightarrow> rprocinfo" where
  "raw_procinfo ad p =
     \<lparr>rp_pid = pi_pid p, rp_ppid = pi_ppid p, rp_ruid = pi_ruid p, rp_rgid = pi_rgid p,
      rp_euid = pi_euid p, rp_egid = pi_egid p, rp_suid = pi_suid p, rp_sgid = pi_sgid p,
      rp_spos = (case pi_path p of None \<Rightarrow> 0 | Some s \<Rightarrow> path_addr ad s),
      rp_digest = pi_digest p, rp_count = word_of_int (pi_count p), rp_pad = pad_value ad p,
      rp_fpos = libs_addr ad p\<rparr>"

definition rfdigest_zero :: rfdigest where
  "rfdigest_zero = \<lparr>rf_spos = 0, rf_digest = replicate 32 0\<rparr>"

text \<open>The size pass; it stops at the first entry without a path.\<close>

fun lib_sizes :: "fdigest list option \<Rightarrow> nat list \<Rightarrow> nat \<Rightarrow> nat cres" where
  "lib_sizes libs [] ssz = Inr ssz"
| "lib_sizes libs (j # js) ssz =
     cbind (arr_get libs j) (\<lambda>f. cbind (deref (fd_path f)) (\<lambda>s.
     lib_sizes libs js (ssz + length s + 1)))"

fun conf_sizes :: "procinfo list \<Rightarrow> nat list \<Rightarrow> nat \<times> int \<Rightarrow> (nat \<times> int) cres" where
  "conf_sizes pinfo [] st = Inr st"
| "conf_sizes pinfo (i # is) (ssz, fdcnt) =
     cbind (cnth pinfo i) (\<lambda>p.
     case pi_path p of
       None \<Rightarrow> Inr (ssz, fdcnt)
     | Some s \<Rightarrow>
         cbind (lib_sizes (pi_libs p) [0..<nat (pi_count p)] (ssz + length s + 1)) (\<lambda>ssz.
         conf_sizes pinfo is (ssz, fdcnt + pi_count p)))"

record conf_out =
  co_sbuf :: bytes
  co_spos :: nat
  co_cpif :: "rprocinfo list"
  co_fdp :: "rfdigest list"
  co_fpos :: nat

fun copy_libs :: "fdigest list option \<Rightarrow> nat list \<Rightarrow> conf_out \<Rightarrow> conf_out cres" where
  "copy_libs libs [] st = Inr st"
| "copy_libs libs (j # js) st =
     cbind (arr_get libs j) (\<lambda>f. cbind (deref (fd_path f)) (\<lambda>s.
     cbind (buf_put (co_sbuf st) (co_spos st) (to_bytes s)) (\<lambda>sbuf.
     cbind (cnth (co_fdp st) (co_fpos st)) (\<lambda>_.
     copy_libs libs js
       (st\<lparr>co_sbuf := sbuf, co_spos := co_spos st + length s + 1,
           co_fdp := (co_fdp st)[co_fpos st := \<lparr>rf_spos = of_nat (co_spos st), rf_digest = fd_digest f\<rparr>],
           co_fpos := co_fpos st + 1\<rparr>)))))"

fun copy_procs :: "procinfo list \<Rightarrow> nat list \<Rightarrow> conf_out \<Rightarrow> conf_out cres" where
  "copy_procs pinfo [] st = Inr st"
| "copy_procs pinfo (i # is) st =
     cbind (cnth pinfo i) (\<lambda>p.
     case pi_path p of
       None \<Rightarrow> Inr st
     | Some s \<Rightarrow>
         cbind (buf_put (co_sbuf st) (co_spos st) (to_bytes s)) (\<lambda>sbuf.
         let r = (co_cpif st ! i)\<lparr>rp_spos := of_nat (co_spos st)\<rparr>;
             st' = st\<lparr>co_sbuf := sbuf, co_spos := co_spos st + length s + 1, co_cpif := (co_cpif st)[i := r]\<rparr>
         in if pi_count p > 0 then
              cbind (copy_libs (pi_libs p) [0..<nat (pi_count p)]
                       (st'\<lparr>co_cpif := (co_cpif st)[i := r\<lparr>rp_fpos := of_nat (co_fpos st)\<rparr>]\<rparr>))
                (copy_procs pinfo is)
            else copy_procs pinfo is st'))"

definition conf_header :: "int \<Rightarrow> int \<Rightarrow> nat \<Rightarrow> confhead" where
  "conf_header entries fdcnt ssz =
     \<lparr>ch_magic = to_bytes PROCCONF_MAGIC @ [0], ch_proc_cnt = word_of_int entries,
      ch_fdig_cnt = word_of_int fdcnt, ch_str_size = of_nat ssz\<rparr>"

text \<open>
  The contents of \<open>p_buf\<close>.  A negative number of entries or digests makes the
  \<open>malloc\<close> size huge; the result is NULL and is written through.
\<close>

definition conf_image :: "addrs \<Rightarrow> procinfo list \<Rightarrow> int \<Rightarrow> bytes cres" where
  "conf_image ad pinfo entries =
     (if entries < 0 then Inl NullDeref
      else cbind (cmapM (cnth pinfo) [0..<nat entries]) (\<lambda>ps.
        cbind (conf_sizes pinfo [0..<nat entries] (0, 0)) (\<lambda>(ssz, fdcnt).
        if fdcnt < 0 then Inl NullDeref
        else cbind (copy_procs pinfo [0..<nat entries]
                      \<lparr>co_sbuf = replicate ssz 0, co_spos = 0, co_cpif = map (raw_procinfo ad) ps,
                       co_fdp = replicate (nat fdcnt) rfdigest_zero, co_fpos = 0\<rparr>) (\<lambda>st.
             Inr (enc_confhead (conf_header entries fdcnt ssz) @ struct_array enc_rprocinfo (co_cpif st)
                  @ struct_array enc_rfdigest (co_fdp st) @ co_sbuf st)))))"

text \<open>
  \<open>SYSCALL\<close> tests the result of \<open>file_seal_write\<close> for being negative; the
  function returns 0 for a short write.
\<close>

definition reg_config :: "addrs \<Rightarrow> 'w os \<Rightarrow> string \<Rightarrow> procinfo list \<Rightarrow> int \<Rightarrow> 'w \<Rightarrow> 'w cres" where
  "reg_config ad os fname pinfo entries w =
     (let (fd, w) = file_open os fname (O_CREAT OR O_RDWR) 416 w in
      if fd < 0 then Inl Abort
      else cbind (conf_image ad pinfo entries) (\<lambda>img.
        let (mem, w) = os_malloc os (of_nat (length img)) w in
        if \<not> mem then Inr w
        else let (ret, w) = file_seal_write os fd img w in
          if ret < 0 then Inr w
          else let (ret, w) = file_close os fd w in Inr w))"

section \<open>The layout the writer produces\<close>

definition zstr :: "string \<Rightarrow> bytes" where
  "zstr s = to_bytes s @ [0]"

definition lib_strs :: "fdigest list \<Rightarrow> bytes" where
  "lib_strs ls = concat (map (\<lambda>f. zstr (the (fd_path f))) ls)"

definition proc_strs :: "procinfo \<Rightarrow> bytes" where
  "proc_strs p = zstr (the (pi_path p)) @ lib_strs (libs_of p)"

definition all_strs :: "procinfo list \<Rightarrow> bytes" where
  "all_strs ps = concat (map proc_strs ps)"

definition all_libs :: "procinfo list \<Rightarrow> fdigest list" where
  "all_libs ps = concat (map libs_of ps)"

fun lay_libs :: "nat \<Rightarrow> fdigest list \<Rightarrow> rfdigest list" where
  "lay_libs sp [] = []"
| "lay_libs sp (f # fs) =
     \<lparr>rf_spos = of_nat sp, rf_digest = fd_digest f\<rparr> # lay_libs (sp + length (zstr (the (fd_path f)))) fs"

definition lay_proc :: "addrs \<Rightarrow> nat \<Rightarrow> nat \<Rightarrow> procinfo \<Rightarrow> rprocinfo" where
  "lay_proc ad sp fp p =
     (let r = (raw_procinfo ad p)\<lparr>rp_spos := of_nat sp\<rparr>
      in if libs_of p = [] then r else r\<lparr>rp_fpos := of_nat fp\<rparr>)"

fun lay_procs :: "addrs \<Rightarrow> nat \<Rightarrow> nat \<Rightarrow> procinfo list \<Rightarrow> rprocinfo list" where
  "lay_procs ad sp fp [] = []"
| "lay_procs ad sp fp (p # ps) =
     lay_proc ad sp fp p # lay_procs ad (sp + length (proc_strs p)) (fp + length (libs_of p)) ps"

fun lay_fdigs :: "nat \<Rightarrow> procinfo list \<Rightarrow> rfdigest list" where
  "lay_fdigs sp [] = []"
| "lay_fdigs sp (p # ps) =
     lay_libs (sp + length (zstr (the (pi_path p)))) (libs_of p) @ lay_fdigs (sp + length (proc_strs p)) ps"

lemma length_zstr [simp]: "length (zstr s) = length s + 1"
  by (simp add: zstr_def)

lemma lib_strs_simps [simp]:
  "lib_strs [] = []" "lib_strs (f # fs) = zstr (the (fd_path f)) @ lib_strs fs"
  "lib_strs (xs @ ys) = lib_strs xs @ lib_strs ys"
  by (simp_all add: lib_strs_def)

lemma all_strs_simps [simp]:
  "all_strs [] = []" "all_strs (p # ps) = proc_strs p @ all_strs ps"
  "all_strs (xs @ ys) = all_strs xs @ all_strs ys"
  by (simp_all add: all_strs_def)

lemma all_libs_simps [simp]:
  "all_libs [] = []" "all_libs (p # ps) = libs_of p @ all_libs ps"
  "all_libs (xs @ ys) = all_libs xs @ all_libs ys"
  by (simp_all add: all_libs_def)

lemma length_lay_libs [simp]: "length (lay_libs sp ls) = length ls"
  by (induction ls arbitrary: sp) auto

lemma length_lay_procs [simp]: "length (lay_procs ad sp fp ps) = length ps"
  by (induction ps arbitrary: sp fp) auto

lemma length_lay_fdigs [simp]: "length (lay_fdigs sp ps) = length (all_libs ps)"
  by (induction ps arbitrary: sp) auto

lemma lay_libs_append:
  "lay_libs sp (xs @ ys) = lay_libs sp xs @ lay_libs (sp + length (lib_strs xs)) ys"
  by (induction xs arbitrary: sp) (auto simp: algebra_simps)

lemma lay_procs_append:
  "lay_procs ad sp fp (xs @ ys) =
     lay_procs ad sp fp xs @ lay_procs ad (sp + length (all_strs xs)) (fp + length (all_libs xs)) ys"
  by (induction xs arbitrary: sp fp) (auto simp: algebra_simps)

lemma lay_fdigs_append:
  "lay_fdigs sp (xs @ ys) = lay_fdigs sp xs @ lay_fdigs (sp + length (all_strs xs)) ys"
  by (induction xs arbitrary: sp) (auto simp: algebra_simps)

lemma lay_digests:
  "\<forall>p \<in> set ps. wf_procinfo p \<Longrightarrow> \<forall>r \<in> set (lay_procs ad sp fp ps). length (rp_digest r) = 32"
  by (induction ps arbitrary: sp fp)
    (auto simp: lay_proc_def raw_procinfo_def Let_def wf_procinfo_def)

lemma lay_libs_digests:
  "\<forall>f \<in> set ls. wf_fdigest f \<Longrightarrow> \<forall>r \<in> set (lay_libs sp ls). length (rf_digest r) = 32"
  by (induction ls arbitrary: sp) (auto simp: wf_fdigest_def)

lemma lay_fdigs_digests:
  "\<forall>p \<in> set ps. wf_procinfo p \<Longrightarrow> \<forall>r \<in> set (lay_fdigs sp ps). length (rf_digest r) = 32"
proof (induction ps arbitrary: sp)
  case (Cons p ps)
  then have "\<forall>f \<in> set (libs_of p). wf_fdigest f" using wf_procinfo_libs(2) [of p] by auto
  then show ?case using Cons lay_libs_digests [of "libs_of p"] by (simp add: ball_Un)
qed simp

section \<open>The writer follows the layout\<close>

lemma lib_sizes_wf:
  assumes "\<forall>f \<in> set ls. wf_fdigest f"
  shows "lib_sizes (Some ls) [k..<length ls] ssz = Inr (ssz + length (lib_strs (drop k ls)))"
proof (induction k arbitrary: ssz rule: idx_induct [where n = "length ls"])
  case (step k)
  then have "wf_fdigest (ls ! k)" using assms by simp
  then obtain s where "fd_path (ls ! k) = Some s" by (auto dest: wf_fdigestD)
  then show ?case using step by (simp add: upt_step)
qed simp

lemma lib_sizes_proc:
  "wf_procinfo p \<Longrightarrow>
   lib_sizes (pi_libs p) [0..<nat (pi_count p)] ssz = Inr (ssz + length (lib_strs (libs_of p)))"
  using lib_sizes_wf [of _ 0] by (auto simp: wf_procinfo_def libs_of_def split: option.splits)

lemma conf_sizes_wf:
  assumes "\<forall>p \<in> set ps. wf_procinfo p"
  shows "conf_sizes ps [k..<length ps] (ssz, fc) =
     Inr (ssz + length (all_strs (drop k ps)), fc + int (length (all_libs (drop k ps))))"
proof (induction k arbitrary: ssz fc rule: idx_induct [where n = "length ps"])
  case (step k)
  then have wf: "wf_procinfo (ps ! k)" using assms by simp
  then obtain s where s: "pi_path (ps ! k) = Some s" by (rule wf_procinfo_path)
  show ?case
    using step s lib_sizes_proc [OF wf] wf_procinfo_libs(1) [OF wf]
    by (simp add: upt_step proc_strs_def algebra_simps)
qed simp

text \<open>
  The state of the copy loops: the string area is a filled part followed by
  zeros, the digest array a filled part followed by the rest.
\<close>

lemma buf_put_zstr:
  assumes "length s < n"
  shows "buf_put (pre @ replicate n 0) (length pre) (to_bytes s)
     = Inr ((pre @ zstr s) @ replicate (n - length (zstr s)) 0)"
proof -
  have "replicate n (0::byte) = replicate (length s) 0 @ replicate (n - length s) 0"
    using assms by (simp flip: replicate_add)
  then have "buf_put (pre @ replicate n 0) (length pre) (to_bytes s) =
      Inr (pre @ to_bytes s @ replicate (n - length s) 0)"
    using buf_put_append [of "to_bytes s" "replicate (length s) 0"] by simp
  also have "replicate (n - length s) (0::byte) = 0 # replicate (n - length (zstr s)) 0"
    using assms by (cases "n - length s") auto
  finally show ?thesis by (simp add: zstr_def)
qed

lemma copy_libs_wf:
  assumes "\<forall>f \<in> set ls. wf_fdigest f" "length (lib_strs (drop k ls)) \<le> n" "length (drop k ls) \<le> length rest"
    and "co_sbuf st = pre @ replicate n 0" "co_spos st = length pre"
    and "co_fdp st = fpre @ rest" "co_fpos st = length fpre"
  shows "copy_libs (Some ls) [k..<length ls] st =
     Inr (st\<lparr>co_sbuf := pre @ lib_strs (drop k ls) @ replicate (n - length (lib_strs (drop k ls))) 0,
             co_spos := length pre + length (lib_strs (drop k ls)),
             co_fdp := fpre @ lay_libs (length pre) (drop k ls) @ drop (length (drop k ls)) rest,
             co_fpos := length fpre + length (drop k ls)\<rparr>)"
  using assms(2-)
proof (induction k arbitrary: st pre n fpre rest rule: idx_induct [where n = "length ls"])
  case (past k)
  then show ?case by simp
next
  case (step k)
  let ?f = "ls ! k"
  from step(1) assms(1) have "wf_fdigest ?f" by simp
  then obtain s where s: "fd_path ?f = Some s" by (auto dest: wf_fdigestD)
  have d: "drop k ls = ?f # drop (Suc k) ls" using step(1) by (simp add: Cons_nth_drop_Suc)
  from step.prems(2) d obtain r rest' where rest: "rest = r # rest'" by (cases rest) auto
  let ?rf = "\<lparr>rf_spos = of_nat (length pre), rf_digest = fd_digest ?f\<rparr>"
  have put: "buf_put (co_sbuf st) (length pre) (to_bytes s)
      = Inr ((pre @ zstr s) @ replicate (n - length (zstr s)) 0)"
    unfolding step.prems using step.prems(1) d s by (intro buf_put_zstr) simp
  have upd: "(co_fdp st)[length fpre := ?rf] = (fpre @ [?rf]) @ rest'"
    by (simp add: step.prems rest list_update_append)
  have "cnth (co_fdp st) (co_fpos st) = Inr r" by (simp add: step.prems rest cnth_def)
  note IH = step.IH [of "n - length (zstr s)" rest'
      "st\<lparr>co_sbuf := (pre @ zstr s) @ replicate (n - length (zstr s)) 0,
         co_spos := co_spos st + length s + 1, co_fdp := (fpre @ [?rf]) @ rest', co_fpos := co_fpos st + 1\<rparr>"
      "pre @ zstr s" "fpre @ [?rf]"]
  show ?case
    using IH step.prems(1,2) s d rest step(1) \<open>cnth _ _ = _\<close>
    by (simp add: upt_conv_Cons put upd step.prems(4,6) algebra_simps)
qed

lemma copy_libs_proc:
  assumes "wf_procinfo p" "pi_count p > 0" "length (lib_strs (libs_of p)) \<le> n" "length (libs_of p) \<le> length rest"
    and "co_sbuf st = pre @ replicate n 0" "co_spos st = length pre"
    and "co_fdp st = fpre @ rest" "co_fpos st = length fpre"
  shows "copy_libs (pi_libs p) [0..<nat (pi_count p)] st =
     Inr (st\<lparr>co_sbuf := pre @ lib_strs (libs_of p) @ replicate (n - length (lib_strs (libs_of p))) 0,
             co_spos := length pre + length (lib_strs (libs_of p)),
             co_fdp := fpre @ lay_libs (length pre) (libs_of p) @ drop (length (libs_of p)) rest,
             co_fpos := length fpre + length (libs_of p)\<rparr>)"
proof -
  obtain ls where ls: "pi_libs p = Some ls" "libs_of p = ls" "pi_count p = int (length ls)"
    using assms(1,2) by (auto simp: wf_procinfo_def libs_of_def split: option.splits)
  then have "\<forall>f \<in> set ls. wf_fdigest f" using wf_procinfo_libs(2) [OF assms(1)] by simp
  from copy_libs_wf [OF this, of 0 n rest st pre fpre] show ?thesis
    using ls assms(3-) by simp
qed

text \<open>The state after all entries from position \<open>k\<close> on are copied.\<close>

definition copied :: "addrs \<Rightarrow> procinfo list \<Rightarrow> bytes \<Rightarrow> nat \<Rightarrow> rprocinfo list \<Rightarrow> rfdigest list \<Rightarrow> rfdigest list \<Rightarrow> conf_out" where
  "copied ad qs pre n before fpre rest =
     \<lparr>co_sbuf = pre @ all_strs qs @ replicate (n - length (all_strs qs)) 0,
      co_spos = length pre + length (all_strs qs),
      co_cpif = before @ lay_procs ad (length pre) (length fpre) qs,
      co_fdp = fpre @ lay_fdigs (length pre) qs @ drop (length (all_libs qs)) rest,
      co_fpos = length fpre + length (all_libs qs)\<rparr>"

lemma copy_procs_wf:
  assumes "\<forall>p \<in> set ps. wf_procinfo p"
    and "length (all_strs (drop k ps)) \<le> n" "length (all_libs (drop k ps)) \<le> length rest" "length before = k"
    and "k \<le> length ps"
  shows "copy_procs ps [k..<length ps]
      \<lparr>co_sbuf = pre @ replicate n 0, co_spos = length pre,
       co_cpif = before @ map (raw_procinfo ad) (drop k ps),
       co_fdp = fpre @ rest, co_fpos = length fpre\<rparr>
     = Inr (copied ad (drop k ps) pre n before fpre rest)"
  using assms(2-)
proof (induction k arbitrary: pre n before fpre rest rule: idx_induct [where n = "length ps"])
  case (past k)
  then show ?case by (simp add: copied_def)
next
  case (step k)
  let ?p = "ps ! k"
  from step(1) assms(1) have wf: "wf_procinfo ?p" by simp
  then obtain s where s: "pi_path ?p = Some s" by (rule wf_procinfo_path)
  have d: "drop k ps = ?p # drop (Suc k) ps" using step(1) by (simp add: Cons_nth_drop_Suc)
  have len: "length (proc_strs ?p) = length (zstr s) + length (lib_strs (libs_of ?p))"
    by (simp add: proc_strs_def s)
  have cnt: "pi_count ?p = int (length (libs_of ?p))" by (rule wf_procinfo_libs(1) [OF wf])
  let ?n1 = "n - length (zstr s)"
  have put: "buf_put (pre @ replicate n 0) (length pre) (to_bytes s) = Inr ((pre @ zstr s) @ replicate ?n1 0)"
    using step.prems(1) d len by (intro buf_put_zstr) simp
  let ?r = "lay_proc ad (length pre) (length fpre) ?p"
  let ?n2 = "n - length (proc_strs ?p)"
  let ?fpre = "fpre @ lay_libs (length pre + length (zstr s)) (libs_of ?p)"
  let ?rest = "drop (length (libs_of ?p)) rest"
  have IH: "copy_procs ps [Suc k..<length ps]
      \<lparr>co_sbuf = (pre @ proc_strs ?p) @ replicate ?n2 0, co_spos = length (pre @ proc_strs ?p),
       co_cpif = (before @ [?r]) @ map (raw_procinfo ad) (drop (Suc k) ps),
       co_fdp = ?fpre @ ?rest, co_fpos = length ?fpre\<rparr>
     = Inr (copied ad (drop (Suc k) ps) (pre @ proc_strs ?p) ?n2 (before @ [?r]) ?fpre ?rest)"
    using step.prems d step(1) by (intro step.IH) simp_all
  show ?case
  proof (cases "libs_of ?p = []")
    case True
    then show ?thesis
      using IH s step.prems(3) step(1) cnt
      by (simp add: upt_conv_Cons put d nth_append list_update_append lay_proc_def
          proc_strs_def copied_def)
  next
    case False
    let ?st = "\<lparr>co_sbuf = (pre @ zstr s) @ replicate ?n1 0, co_spos = length (pre @ zstr s),
       co_cpif = before @ ?r # map (raw_procinfo ad) (drop (Suc k) ps),
       co_fdp = fpre @ rest, co_fpos = length fpre\<rparr>"
    have libs: "copy_libs (pi_libs ?p) [0..<nat (pi_count ?p)] ?st =
        Inr (?st\<lparr>co_sbuf := (pre @ zstr s) @ lib_strs (libs_of ?p) @ replicate (?n1 - length (lib_strs (libs_of ?p))) 0,
             co_spos := length (pre @ zstr s) + length (lib_strs (libs_of ?p)),
             co_fdp := fpre @ lay_libs (length (pre @ zstr s)) (libs_of ?p) @ drop (length (libs_of ?p)) rest,
             co_fpos := length fpre + length (libs_of ?p)\<rparr>)"
      using False cnt step.prems(1,2) d len by (intro copy_libs_proc wf) simp_all
    show ?thesis
      using IH libs False s step.prems(3) step(1) cnt
      by (simp add: upt_conv_Cons [OF step(1)] put d nth_append list_update_append lay_proc_def Let_def
          proc_strs_def copied_def algebra_simps del: upt_Suc)
  qed
qed

section \<open>The reader inverts the layout\<close>

text \<open>The string of an entry stands in the string area at the offset the entry stores.\<close>

lemma lay_libs_nth:
  "i < length ls \<Longrightarrow> \<exists>pre post. lib_strs ls = pre @ zstr (the (fd_path (ls ! i))) @ post \<and>
     lay_libs sp ls ! i = \<lparr>rf_spos = of_nat (sp + length pre), rf_digest = fd_digest (ls ! i)\<rparr>"
proof (induction ls arbitrary: sp i)
  case (Cons f fs)
  show ?case
  proof (cases i)
    case 0
    then show ?thesis by - (rule exI [of _ "[]"], rule exI [of _ "lib_strs fs"], simp)
  next
    case (Suc j)
    then have "j < length fs" using Cons.prems by simp
    from Cons.IH [OF this, of "sp + length (zstr (the (fd_path f)))"]
    obtain pre post where "lib_strs fs = pre @ zstr (the (fd_path (fs ! j))) @ post"
      "lay_libs (sp + length (zstr (the (fd_path f)))) fs ! j
         = \<lparr>rf_spos = of_nat (sp + length (zstr (the (fd_path f))) + length pre), rf_digest = fd_digest (fs ! j)\<rparr>"
      by blast
    then show ?thesis
      using Suc by - (rule exI [of _ "zstr (the (fd_path f)) @ pre"], rule exI [of _ post], simp add: add.assoc)
  qed
qed simp

lemma lay_fdigs_nth:
  "k < length (all_libs ps) \<Longrightarrow> \<exists>pre post. all_strs ps = pre @ zstr (the (fd_path (all_libs ps ! k))) @ post \<and>
     lay_fdigs sp ps ! k = \<lparr>rf_spos = of_nat (sp + length pre), rf_digest = fd_digest (all_libs ps ! k)\<rparr>"
proof (induction ps arbitrary: sp k)
  case (Cons p ps)
  let ?z = "zstr (the (pi_path p))" and ?n = "length (libs_of p)"
  show ?case
  proof (cases "k < ?n")
    case True
    from lay_libs_nth [OF this, of "sp + length ?z"] obtain pre post where
      "lib_strs (libs_of p) = pre @ zstr (the (fd_path (libs_of p ! k))) @ post"
      "lay_libs (sp + length ?z) (libs_of p) ! k
         = \<lparr>rf_spos = of_nat (sp + length ?z + length pre), rf_digest = fd_digest (libs_of p ! k)\<rparr>"
      by blast
    then show ?thesis
      using True
      by - (rule exI [of _ "?z @ pre"], rule exI [of _ "post @ all_strs ps"],
          simp add: nth_append proc_strs_def add.assoc)
  next
    case False
    with Cons.prems have "k - ?n < length (all_libs ps)" by simp
    from Cons.IH [OF this, of "sp + length (proc_strs p)"] obtain pre post where
      "all_strs ps = pre @ zstr (the (fd_path (all_libs ps ! (k - ?n)))) @ post"
      "lay_fdigs (sp + length (proc_strs p)) ps ! (k - ?n) = \<lparr>rf_spos = of_nat (sp + length (proc_strs p) + length pre),
          rf_digest = fd_digest (all_libs ps ! (k - ?n))\<rparr>"
      by blast
    then show ?thesis
      using False
      by - (rule exI [of _ "proc_strs p @ pre"], rule exI [of _ post], simp add: nth_append add.assoc)
  qed
qed simp

lemma lay_procs_nth:
  assumes "i < length ps"
  shows "lay_procs ad 0 0 ps ! i = lay_proc ad (length (all_strs (take i ps))) (length (all_libs (take i ps))) (ps ! i)"
    and "all_strs ps = all_strs (take i ps) @ zstr (the (pi_path (ps ! i))) @ lib_strs (libs_of (ps ! i))
           @ all_strs (drop (Suc i) ps)"
    and "all_libs ps = all_libs (take i ps) @ libs_of (ps ! i) @ all_libs (drop (Suc i) ps)"
proof -
  from assms have ps: "ps = take i ps @ ps ! i # drop (Suc i) ps" by (rule id_take_nth_drop)
  have "lay_procs ad 0 0 ps ! i = lay_procs ad 0 0 (take i ps @ ps ! i # drop (Suc i) ps) ! i"
    using ps by simp
  then show "lay_procs ad 0 0 ps ! i = lay_proc ad (length (all_strs (take i ps))) (length (all_libs (take i ps))) (ps ! i)"
    using assms by (simp only: lay_procs_append) (simp add: nth_append)
  show "all_strs ps = all_strs (take i ps) @ zstr (the (pi_path (ps ! i))) @ lib_strs (libs_of (ps ! i))
           @ all_strs (drop (Suc i) ps)"
    by (subst ps) (simp add: proc_strs_def)
  show "all_libs ps = all_libs (take i ps) @ libs_of (ps ! i) @ all_libs (drop (Suc i) ps)"
    by (subst ps) simp
qed

lemma cstr_at_area:
  assumes "nul_free s" "S = pre @ zstr s @ post" "off = length front + length pre"
  shows "cstr_at (map Val (front @ S)) off = Inr s"
proof (rule cstr_at_string [OF assms(1)])
  show "drop off (map Val (front @ S)) = map Val (to_bytes s) @ Val 0 # map Val post"
    using assms(2,3) by (simp add: zstr_def)
qed

text \<open>The parts of an image, and the bounds under which every count fits its field.\<close>

definition conf_bounds :: "procinfo list \<Rightarrow> bool" where
  "conf_bounds ps \<longleftrightarrow> length ps < 2 ^ 31 \<and> length (all_libs ps) < 2 ^ 31 \<and> length (all_strs ps) < 2 ^ 31"

definition image_of :: "addrs \<Rightarrow> procinfo list \<Rightarrow> bytes" where
  "image_of ad ps =
     enc_confhead (conf_header (int (length ps)) (int (length (all_libs ps))) (length (all_strs ps)))
     @ struct_array enc_rprocinfo (lay_procs ad 0 0 ps) @ struct_array enc_rfdigest (lay_fdigs 0 ps)
     @ all_strs ps"

lemma conf_image_wf:
  assumes "\<forall>p \<in> set ps. wf_procinfo p"
  shows "conf_image ad ps (int (length ps)) = Inr (image_of ad ps)"
proof -
  have "cmapM (cnth ps) [0..<length ps] = Inr (map (\<lambda>i. ps ! i) [0..<length ps])"
    by (rule cmapM_Inr_map) simp
  then have arr: "cmapM (cnth ps) [0..<length ps] = Inr ps"
    by (simp add: map_nth)
  have sizes: "conf_sizes ps [0..<length ps] (0, 0) = Inr (length (all_strs ps), int (length (all_libs ps)))"
    using conf_sizes_wf [OF assms, of 0 0 0] by simp
  have "copy_procs ps [0..<length ps]
      \<lparr>co_sbuf = replicate (length (all_strs ps)) 0, co_spos = 0, co_cpif = map (raw_procinfo ad) ps,
       co_fdp = replicate (length (all_libs ps)) rfdigest_zero, co_fpos = 0\<rparr>
     = Inr (copied ad ps [] (length (all_strs ps)) [] [] (replicate (length (all_libs ps)) rfdigest_zero))"
    using copy_procs_wf [OF assms, of 0 "length (all_strs ps)" "replicate (length (all_libs ps)) rfdigest_zero"
        "[]" "[]" ad "[]"] by simp
  then show ?thesis
    by (simp add: conf_image_def arr sizes image_of_def copied_def)
qed

lemma conf_lib_image:
  assumes "\<forall>p \<in> set ps. wf_procinfo p" "length (all_strs ps) < 2 ^ 31" "k < length (all_libs ps)"
    and "front = front' @ struct_array enc_rfdigest (lay_fdigs 0 ps)" "fdp = length front'"
  shows "conf_lib (map Val (front @ all_strs ps)) fdp (length (all_libs ps)) (length front) k
     = Inr (all_libs ps ! k)"
proof -
  let ?f = "all_libs ps ! k"
  have "?f \<in> set (all_libs ps)" using assms(3) by simp
  then have "wf_fdigest ?f" using assms(1) wf_procinfo_libs(2) by (auto simp: all_libs_def)
  then obtain s where s: "fd_path ?f = Some s" "nul_free s" by (auto dest: wf_fdigestD)
  obtain pre post where lay: "all_strs ps = pre @ zstr s @ post"
    "lay_fdigs 0 ps ! k = \<lparr>rf_spos = of_nat (length pre), rf_digest = fd_digest ?f\<rparr>"
    using lay_fdigs_nth [OF assms(3), of 0] s by auto
  have "get_struct dec_rfdigest FDIGEST_SZ (map Val (front @ all_strs ps)) fdp k = Inr (lay_fdigs 0 ps ! k)"
    using fd_codec.get_struct_array [OF lay_fdigs_digests [OF assms(1)], where i = k and base = fdp
        and pre = front' and post = "all_strs ps"] assms
    by simp
  moreover have "cstr_at (map Val (front @ all_strs ps)) (length front + length pre) = Inr s"
    by (rule cstr_at_area [OF s(2) lay(1) refl])
  moreover have "length pre < 2 ^ 64" using lay(1) assms(2) by simp
  ultimately show ?thesis
    using assms(3) s(1) by (simp add: conf_lib_def lay(2))
qed

lemma conf_entry_image:
  assumes wf: "\<forall>p \<in> set ps. wf_procinfo p" and b: "conf_bounds ps" and i: "i < length ps"
    and front: "front = hdr @ struct_array enc_rprocinfo (lay_procs ad 0 0 ps)
                  @ struct_array enc_rfdigest (lay_fdigs 0 ps)"
    and cpif: "cpif = length hdr" and fdp: "fdp = length (hdr @ struct_array enc_rprocinfo (lay_procs ad 0 0 ps))"
  shows "conf_entry (map Val (front @ all_strs ps)) cpif fdp (length (all_libs ps)) (length front) i
     = Inr (ps ! i)"
proof -
  let ?b = "map Val (front @ all_strs ps)" and ?p = "ps ! i"
  let ?sp = "length (all_strs (take i ps))" and ?fp = "length (all_libs (take i ps))"
  note lay = lay_procs_nth [OF i]
  have wfp: "wf_procinfo ?p" using wf i by simp
  then obtain s where s: "pi_path ?p = Some s" "nul_free s" by (rule wf_procinfo_path)
  have len_s: "length (all_strs ps) < 2 ^ 31" and len_l: "length (all_libs ps) < 2 ^ 31"
    using b by (simp_all add: conf_bounds_def)
  have r: "get_struct dec_rprocinfo PROCINFO_SZ ?b cpif i = Inr (lay_procs ad 0 0 ps ! i)"
    using pi_codec.get_struct_array [OF lay_digests [OF wf], where i = i and base = cpif and pre = hdr
        and post = "struct_array enc_rfdigest (lay_fdigs 0 ps) @ all_strs ps"] i front cpif by simp
  have sp: "?sp < 2 ^ 64" using arg_cong [OF lay(2), of length] len_s by simp
  have path: "cstr_at ?b (length front + ?sp) = Inr s"
    using lay(2) s by (intro cstr_at_area) auto
  have fp: "?fp + length (libs_of ?p) \<le> length (all_libs ps)"
    using arg_cong [OF lay(3), of length] by simp
  have "cmapM (conf_lib ?b fdp (length (all_libs ps)) (length front)) [?fp..<?fp + length (libs_of ?p)]
      = Inr (map (\<lambda>k. all_libs ps ! k) [?fp..<?fp + length (libs_of ?p)])"
    using fp
    by (intro cmapM_Inr_map conf_lib_image [OF wf len_s,
          where front' = "hdr @ struct_array enc_rprocinfo (lay_procs ad 0 0 ps)"])
      (simp_all add: front fdp)
  also have "map (\<lambda>k. all_libs ps ! k) [?fp..<?fp + length (libs_of ?p)] = libs_of ?p"
    using fp by (intro nth_equalityI) (auto simp: lay(3) nth_append)
  finally have libs: "cmapM (conf_lib ?b fdp (length (all_libs ps)) (length front))
      [?fp..<?fp + length (libs_of ?p)] = Inr (libs_of ?p)" .
  have cnt: "pi_count ?p = int (length (libs_of ?p))" by (rule wf_procinfo_libs(1) [OF wfp])
  have cnt': "sint (word_of_int (pi_count ?p) :: u32) = pi_count ?p"
    using fp len_l by (simp add: cnt)
  have libs_some: "libs_of ?p \<noteq> [] \<Longrightarrow> pi_libs ?p = Some (libs_of ?p)" "libs_of ?p = [] \<Longrightarrow> pi_libs ?p = None"
    using wfp by (auto simp: libs_of_def wf_procinfo_def split: option.splits)
  show ?thesis
    using sp path s libs cnt cnt' libs_some fp len_l
    by (cases "libs_of ?p = []")
      (simp_all add: conf_entry_def r lay(1) lay_proc_def raw_procinfo_def Let_def del: map_append)
qed

lemma length_image_of:
  assumes "\<forall>p \<in> set ps. wf_procinfo p"
  shows "length (image_of ad ps) = CONFHEAD_SZ + PROCINFO_SZ * length ps + FDIGEST_SZ * length (all_libs ps)
     + length (all_strs ps)"
  using pi_codec.length_array [OF lay_digests [OF assms]] fd_codec.length_array [OF lay_fdigs_digests [OF assms]]
    ch_codec.length_enc [of "conf_header (int (length ps)) (int (length (all_libs ps))) (length (all_strs ps))"]
  by (simp add: image_of_def conf_header_def PROCCONF_MAGIC_def)

lemma build_conf_image:
  assumes "\<forall>p \<in> set ps. wf_procinfo p" "conf_bounds ps"
  shows "build_conf (Some (map Val (image_of ad ps))) (of_nat (length (image_of ad ps)))
     = Inr (int (length ps), Val ps)"
proof -
  let ?h = "conf_header (int (length ps)) (int (length (all_libs ps))) (length (all_strs ps))"
  let ?A = "struct_array enc_rprocinfo (lay_procs ad 0 0 ps)" and ?B = "struct_array enc_rfdigest (lay_fdigs 0 ps)"
  let ?front = "enc_confhead ?h @ ?A @ ?B"
  have magic: "length (ch_magic ?h) = 8" by (simp add: conf_header_def PROCCONF_MAGIC_def)
  note lenh = ch_codec.length_enc [of ?h, OF magic]
  have lenA: "length ?A = PROCINFO_SZ * length ps"
    using pi_codec.length_array [OF lay_digests [OF assms(1)]] by simp
  have lenB: "length ?B = FDIGEST_SZ * length (all_libs ps)"
    using fd_codec.length_array [OF lay_fdigs_digests [OF assms(1)]] by simp
  have img: "image_of ad ps = ?front @ all_strs ps" by (simp add: image_of_def)
  have head: "get_struct dec_confhead CONFHEAD_SZ (map Val (image_of ad ps)) 0 0 = Inr ?h"
    using ch_codec.get_struct_array [where xs = "[?h]" and i = 0 and base = 0 and pre = "[]"
        and post = "?A @ ?B @ all_strs ps"] magic
    by (simp add: struct_array_def image_of_def)
  have bounds: "length ps < 2 ^ 31" "length (all_libs ps) < 2 ^ 31" "length (all_strs ps) < 2 ^ 31"
    using assms(2) by (simp_all add: conf_bounds_def)
  have fields: "ch_proc_cnt ?h = word_of_nat (length ps)" "ch_fdig_cnt ?h = word_of_nat (length (all_libs ps))"
    "ch_str_size ?h = word_of_nat (length (all_strs ps))"
    by (simp_all add: conf_header_def)
  have size: "conf_size_ok ?h (of_nat (length (image_of ad ps)))"
    using bounds lenh lenA lenB by (simp add: conf_size_ok_def img fields)
  have "conf_entry (map Val (image_of ad ps)) CONFHEAD_SZ (CONFHEAD_SZ + PROCINFO_SZ * length ps)
      (length (all_libs ps)) (length ?front) i = Inr (ps ! i)" if "i < length ps" for i
    unfolding img by (rule conf_entry_image [OF assms that refl]) (simp_all add: lenh lenA)
  then have "cmapM (conf_entry (map Val (image_of ad ps)) CONFHEAD_SZ (CONFHEAD_SZ + PROCINFO_SZ * length ps)
      (length (all_libs ps)) (length ?front)) [0..<length ps] = Inr (map (\<lambda>i. ps ! i) [0..<length ps])"
    by (intro cmapM_Inr_map) simp
  moreover have "length ?front = CONFHEAD_SZ + PROCINFO_SZ * length ps + FDIGEST_SZ * length (all_libs ps)"
    using lenh lenA lenB by simp
  moreover have "relocate_libs (map Val (image_of ad ps)) (CONFHEAD_SZ + PROCINFO_SZ * length ps) (length (all_libs ps)) = Inr ()"
    using lenh lenA lenB by (intro relocate_libs_ok) (simp add: img)
  ultimately show ?thesis
    using size bounds by (simp add: build_conf_def head fields map_nth Let_def)
qed

text \<open>
  C15.  The configuration writer and reader are inverse: for completely filled
  entries whose counts and string sizes fit the \<open>int\<close> fields of the header,
  \<open>conf_image\<close> produces a file image from which \<open>build_conf\<close> rebuilds exactly
  the same entries, paths, digests, ids and libraries, whatever the pointers
  were.
\<close>

theorem conf_roundtrip:
  assumes "\<forall>p \<in> set ps. wf_procinfo p" "conf_bounds ps"
  shows "\<exists>img. conf_image ad ps (int (length ps)) = Inr img \<and>
     build_conf (Some (map Val img)) (of_nat (length img)) = Inr (int (length ps), Val ps)"
  using conf_image_wf [OF assms(1), of ad] build_conf_image [OF assms, of ad] by blast

text \<open>Two entries, one with a library.\<close>

definition ex_addrs :: addrs where
  "ex_addrs = \<lparr>path_addr = (\<lambda>_. 0x7f00), libs_addr = (\<lambda>_. 0x7f80), pad_value = (\<lambda>_. 0)\<rparr>"

definition ex_conf :: "procinfo list" where
  "ex_conf =
     [procinfo_zero\<lparr>pi_pid := 7, pi_ruid := 1000, pi_path := Some ''/b'', pi_digest := replicate 32 5,
        pi_count := 1, pi_libs := Some [\<lparr>fd_path = Some ''l'', fd_digest = replicate 32 6\<rparr>]\<rparr>,
      procinfo_zero\<lparr>pi_pid := 1, pi_path := Some ''/i''\<rparr>]"

lemma ex_conf_wf: "\<forall>p \<in> set ex_conf. wf_procinfo p" "conf_bounds ex_conf"
  by (simp_all add: ex_conf_def wf_procinfo_def wf_fdigest_def procinfo_zero_def conf_bounds_def
      all_strs_def all_libs_def proc_strs_def lib_strs_def libs_of_def)

theorem conf_roundtrip_witness:
  "\<exists>img. conf_image ex_addrs ex_conf (int (length ex_conf)) = Inr img \<and>
     build_conf (Some (map Val img)) (of_nat (length img)) = Inr (int (length ex_conf), Val ex_conf)"
  by (rule conf_roundtrip [OF ex_conf_wf])

section \<open>The magic string\<close>

lemma buf_get_suffix:
  assumes "length m = length m'" "length m \<le> off"
  shows "buf_get (m @ b) off n = buf_get (m' @ b) off n"
  using assms by (simp add: buf_get_def)

lemma relocate_libs_suffix:
  assumes "length m = length m'" "length m \<le> fdp"
  shows "relocate_libs (m @ b) fdp = relocate_libs (m' @ b) fdp"
  using assms by (simp add: relocate_libs_def buf_get_suffix [of m m'] fun_eq_iff)

lemma get_struct_suffix:
  assumes "length m = length m'" "length m \<le> base"
  shows "get_struct d sz (m @ b) base i = get_struct d sz (m' @ b) base i"
  using assms by (simp add: get_struct_def buf_get_suffix [of m m'])

lemma cstr_at_suffix:
  assumes "length m = length m'" "length m \<le> off"
  shows "cstr_at (m @ b) off = cstr_at (m' @ b) off"
  using assms by (simp add: cstr_at_def)

lemma conf_lib_suffix:
  assumes "length m = length m'" "length m \<le> fdp" "length m \<le> sbuf"
  shows "conf_lib (m @ b) fdp fc sbuf = conf_lib (m' @ b) fdp fc sbuf"
  using assms
  by (auto simp: conf_lib_def get_struct_suffix [of m m'] cstr_at_suffix [of m m'] intro!: ext cbind_cong)

lemma conf_entry_suffix:
  assumes "length m = length m'" "length m \<le> cpif" "length m \<le> fdp" "length m \<le> sbuf"
  shows "conf_entry (m @ b) cpif fdp fc sbuf = conf_entry (m' @ b) cpif fdp fc sbuf"
  using assms unfolding conf_entry_def Let_def
  by (auto simp: get_struct_suffix [of m m'] cstr_at_suffix [of m m']
      conf_lib_suffix [of m m'] intro!: ext cbind_cong)

text \<open>
  The magic string at the start of a configuration file is written but
  never checked: two files that differ only in their first 8 bytes, and whose
  number of digests is not negative, are read alike, down to the faults.
\<close>

theorem build_conf_ignores_magic:
  assumes "length m = 8" "length m' = 8"
    and cnt: "\<And>bs. buf_get b 0 12 = Inr bs \<Longrightarrow> 0 \<le> sint (le_word (take 4 (drop 4 bs)) :: u32)"
  shows "build_conf (Some (map Val m @ b)) sz = build_conf (Some (map Val m' @ b)) sz"
proof -
  have same: "get_struct dec_confhead CONFHEAD_SZ (map Val m @ b) 0 0 =
      cbind (buf_get b 0 12) (\<lambda>bs. Inr (dec_confhead (m @ bs)))" if "length m = 8" for m
  proof -
    have "buf_get (map Val m @ b) 0 CONFHEAD_SZ = cbind (buf_get b 0 12) (\<lambda>bs. Inr (m @ bs))"
    proof -
      have "cmapM rd (map Val m @ c) = cbind (cmapM rd c) (\<lambda>bs. Inr (m @ bs))" for c
        by (induction m) (auto simp: cbind_assoc split: cbind_splits)
      then show ?thesis using that by (simp add: buf_get_def)
    qed
    then show ?thesis by (simp add: get_struct_def cbind_assoc)
  qed
  have head: "dec_confhead (m @ bs) = (dec_confhead (m' @ bs))\<lparr>ch_magic := m\<rparr>" for bs
    using assms by (simp add: dec_confhead_def Let_def)
  have entry: "conf_entry (map Val m @ b) CONFHEAD_SZ fdp fc (nat (conf_strs fdp l))
      = conf_entry (map Val m' @ b) CONFHEAD_SZ fdp fc (nat (conf_strs fdp l))"
    if "0 \<le> l" "CONFHEAD_SZ \<le> fdp" for fdp l fc
    using assms(1,2) that by (intro conf_entry_suffix) (simp_all add: conf_strs_def)
  have libs: "relocate_libs (map Val m @ b) (CONFHEAD_SZ + k) = relocate_libs (map Val m' @ b) (CONFHEAD_SZ + k)" for k
    using assms(1,2) by (intro relocate_libs_suffix) simp_all
  have fc: "ch_fdig_cnt (dec_confhead (m' @ bs)) = le_word (take 4 (drop 4 bs))" for bs
    using assms(2) by (simp add: dec_confhead_def Let_def)
  show ?thesis
  proof (cases "buf_get b 0 12")
    case (Inr bs)
    from cnt [OF Inr] have "0 \<le> sint (ch_fdig_cnt (dec_confhead (m' @ bs)))" by (simp only: fc)
    from entry [OF this] have "conf_entry (map Val m @ b) CONFHEAD_SZ (CONFHEAD_SZ + k) fc
          (nat (conf_strs (CONFHEAD_SZ + k) (sint (ch_fdig_cnt (dec_confhead (m' @ bs))))))
        = conf_entry (map Val m' @ b) CONFHEAD_SZ (CONFHEAD_SZ + k) fc
          (nat (conf_strs (CONFHEAD_SZ + k) (sint (ch_fdig_cnt (dec_confhead (m' @ bs))))))" for k fc
      by simp
    then show ?thesis
      unfolding build_conf_def same [OF assms(1)] same [OF assms(2)] deref_simps cbind_Inr cbind_assoc head Inr Let_def
      by (simp add: conf_size_ok_def libs cong: if_cong)
  qed (simp add: build_conf_def same assms(1,2))
qed

theorem build_conf_ignores_magic_witness:
  "build_conf (Some (map Val (replicate 8 0) @ map Val (replicate 12 (0::byte)))) 20 = Inr (0, Val []) \<and>
   build_conf (Some (map Val (replicate 8 9) @ map Val (replicate 12 (0::byte)))) 20 = Inr (0, Val [])"
proof -
  have "build_conf (Some (map Val (replicate 8 0) @ map Val (replicate 12 (0::byte)))) 20 = Inr (0, Val [])"
    by code_simp
  moreover have "0 \<le> sint (le_word (take 4 (drop 4 bs)) :: u32)"
    if "buf_get (map Val (replicate 12 (0::byte))) 0 12 = Inr bs" for bs
  proof -
    have "bs = replicate 12 0" using that buf_get_Val [of 0 12 "replicate 12 (0::byte)"] by (simp del: map_replicate)
    then show ?thesis by (simp add: numeral_eq_Suc)
  qed
  ultimately show ?thesis
    using build_conf_ignores_magic [of "replicate 8 9" "replicate 8 0" "map Val (replicate 12 0)" 20]
    by (simp del: map_replicate)
qed

end
