(* ===== verification/Pica_Read.thy ===== *)
theory Pica_Read
  imports Pica_Htable Pica_Conf
begin

text \<open>
  \<open>pica_read_config\<close> of \<open>src/libpica_clnt.c\<close>: the configuration file is read
  through \<open>file_size\<close> and \<open>file_seal_read_close\<close>, rebuilt by \<open>build_conf\<close> and
  registered in the hash table.  The same source is linked with the host and
  with the enclave version of the two file functions, so they are arguments
  here, and both instances follow.
\<close>

unbundle bit_operations_syntax

section \<open>The function over the file functions it is linked with\<close>

fun reg_entries :: "(string \<Rightarrow> u32) \<Rightarrow> procinfo list \<Rightarrow> nat list \<Rightarrow> entref htable \<Rightarrow> entref htable cres" where
  "reg_entries mm ps [] tbl = Inr tbl"
| "reg_entries mm ps (i # is) tbl =
     cbind (cnth ps i) (\<lambda>p.
     cbind (reg_hashtable mm PICA_ENT_CONF_PROCINFO (Some (RefProc p)) (pi_path p) tbl)
       (reg_entries mm ps is))"

text \<open>
  The result is the return value, what \<open>*procinfo\<close> holds afterwards (\<open>old\<close> when
  nothing is stored) and the table.
\<close>

definition pica_read_config ::
    "(string \<Rightarrow> u32) \<Rightarrow> (string \<Rightarrow> 'w \<Rightarrow> (int slot \<times> u64 slot) \<times> 'w) \<Rightarrow>
     (int \<Rightarrow> u64 \<Rightarrow> 'w \<Rightarrow> ((u64 \<times> bbuf option slot) \<times> 'w) cres) \<Rightarrow>
     string \<Rightarrow> procinfo list option slot \<Rightarrow> entref htable \<Rightarrow> 'w \<Rightarrow>
     (int \<times> procinfo list option slot \<times> entref htable \<times> 'w) cres" where
  "pica_read_config mm fsize sread confpath old tbl w =
     (let ((fd, enc_sz), w) = fsize confpath w in
      cbind (rd fd) (\<lambda>fd.
      if fd < 0 then Inr (0, Val None, tbl, w)
      else
        cbind (rd enc_sz) (\<lambda>enc_sz.
        cbind (sread fd enc_sz w) (\<lambda>((dec_sz, buffer), w).
        cbind (rd buffer) (\<lambda>buffer.
        cbind (build_conf buffer dec_sz) (\<lambda>(entries, pinfo).
        let out = (case pinfo of Val ps \<Rightarrow> Val (Some ps) | Garbage \<Rightarrow> old) in
        if entries \<le> 0 then Inr (entries, out, tbl, w)
        else
          cbind (rd out) (\<lambda>p. cbind (deref p) (\<lambda>ps.
          cbind (reg_entries mm ps [0..<nat entries] tbl) (\<lambda>tbl.
          Inr (entries, out, tbl, w))))))))))"

definition host_read_config ::
    "(string \<Rightarrow> u32) \<Rightarrow> 'w os \<Rightarrow> string \<Rightarrow> procinfo list option slot \<Rightarrow> entref htable \<Rightarrow> 'w \<Rightarrow>
     (int \<times> procinfo list option slot \<times> entref htable \<times> 'w) cres" where
  "host_read_config mm os =
     pica_read_config mm (\<lambda>path w. let ((fd, sz), w) = file_size os path w in ((Val fd, Val sz), w))
       (\<lambda>fd sz w. Inr (file_seal_read_close os fd sz w))"

definition enclave_read_config ::
    "(string \<Rightarrow> u32) \<Rightarrow> sealer \<Rightarrow> ('w \<Rightarrow> bool) \<Rightarrow> 'w os \<Rightarrow> string \<Rightarrow> procinfo list option slot \<Rightarrow>
     entref htable \<Rightarrow> 'w \<Rightarrow> (int \<times> procinfo list option slot \<times> entref htable \<times> 'w) cres" where
  "enclave_read_config mm sl okc os =
     pica_read_config mm (enclave_file_size okc os) (enclave_file_seal_read_close sl okc os)"

section \<open>Registering what was read\<close>

lemma reg_entries_insert_all:
  assumes "htable_ok tbl" "\<forall>p \<in> set ps. pi_path p \<noteq> None" "k \<le> length ps"
  shows "reg_entries mm ps [k..<length ps] tbl = Inr (pica_tbl.insert_all mm (conf_entries (drop k ps)) tbl)"
  using assms(1,3)
proof (induction k arbitrary: tbl rule: idx_induct [where n = "length ps"])
  case (past k)
  then show ?case by (simp add: conf_entries_def)
next
  case (step k)
  then have "ps ! k \<in> set ps" by simp
  then obtain s where s: "pi_path (ps ! k) = Some s" using assms(2) by blast
  have "drop k ps = ps ! k # drop (Suc k) ps" using step(1) by (simp add: Cons_nth_drop_Suc)
  then show ?case
    using step s
    by (simp add: upt_conv_Cons [OF step(1)] reg_hashtable_insert htable_ok_insert conf_entries_def)
qed

text \<open>
  C27.  What \<open>reg_config\<close> wrote is what \<open>pica_read_config\<close> restores: when the
  file holds the image of completely filled entries, the host version returns
  their number and the same entries, and afterwards a lookup of a path that
  was not registered before finds the first of them with that path.
\<close>

theorem read_config_restores:
  assumes wf: "\<forall>p \<in> set ps. wf_procinfo p" and bounds: "conf_bounds ps" and nonempty: "ps \<noteq> []"
    and image: "conf_image ad ps (int (length ps)) = Inr img"
    and size: "file_size os path w = ((fd, of_nat (length img)), w1)" "0 \<le> fd"
    and mem: "os_malloc os (of_nat (length img)) w1 = (True, w2)"
    and read: "file_read_close os fd (of_nat (length img)) w2 = ((of_nat (length img), img), w3)"
    and tbl: "htable_ok tbl"
  shows "\<exists>tbl'. host_read_config mm os path old tbl w = Inr (int (length ps), Val (Some ps), tbl', w3) \<and>
     htable_ok tbl' \<and>
     (\<forall>p. find_hashtable mm tbl (Some p) PICA_ENT_CONF_PROCINFO = Inr None \<longrightarrow>
        find_hashtable mm tbl' (Some p) PICA_ENT_CONF_PROCINFO
          = Inr (map_option RefProc (find (\<lambda>q. pi_path q = Some p) ps)))"
proof -
  have img: "img = image_of ad ps" using image conf_image_wf [OF wf, of ad] by simp
  have paths: "\<forall>p \<in> set ps. pi_path p \<noteq> None" using wf by (auto elim: wf_procinfo_path)
  have "length img < 2 ^ 64"
    using bounds by (simp add: img length_image_of [OF wf] conf_bounds_def)
  then have full: "buf_store (unat (of_nat (length img) :: u64)) img = map Val img" by simp
  let ?t = "pica_tbl.insert_all mm (conf_entries ps) tbl"
  have "host_read_config mm os path old tbl w = Inr (int (length ps), Val (Some ps), ?t, w3)"
    using size mem read full build_conf_image [OF wf bounds, of ad] nonempty reg_entries_insert_all [OF tbl paths, of 0]
    by (simp add: host_read_config_def pica_read_config_def file_seal_read_close_def img Let_def)
  moreover have "htable_ok ?t" by (rule pica_tbl.inv_insert_all [OF tbl])
  moreover have "find_hashtable mm ?t (Some p) PICA_ENT_CONF_PROCINFO
      = Inr (map_option RefProc (find (\<lambda>q. pi_path q = Some p) ps))"
    if "find_hashtable mm tbl (Some p) PICA_ENT_CONF_PROCINFO = Inr None" for p
    using that tbl calculation(2)
    by (simp add: find_hashtable_lookup pica_tbl.lookup_insert_all conf_lookup [OF paths])
  ultimately show ?thesis by blast
qed

text \<open>A system with one file, whose descriptor is 3.\<close>

definition ex_os :: "bytes \<Rightarrow> unit os" where
  "ex_os img = \<lparr>os_open = (\<lambda>_ _ _ w. (3, w)), os_read = (\<lambda>_ _ w. ((int (length img), img), w)),
     os_write = (\<lambda>_ bs w. (int (length bs), w)), os_lseek = (\<lambda>_ _ _ w. (int (length img), w)),
     os_close = (\<lambda>_ w. (0, w)), os_chmod = (\<lambda>_ _ w. (0, w)), os_malloc = (\<lambda>_ w. (True, w))\<rparr>"

theorem read_config_restores_witness:
  "\<exists>tbl'. host_read_config (\<lambda>_. 1) (ex_os (image_of ex_addrs ex_conf)) ''c'' Garbage htable_zero ()
       = Inr (int (length ex_conf), Val (Some ex_conf), tbl', ()) \<and>
     find_hashtable (\<lambda>_. 1) tbl' (Some ''/i'') PICA_ENT_CONF_PROCINFO = Inr (Some (RefProc (ex_conf ! 1)))"
proof -
  let ?img = "image_of ex_addrs ex_conf" and ?mm = "\<lambda>_ :: string. 1 :: u32"
  have wf: "\<forall>p \<in> set ex_conf. wf_procinfo p"
    by (simp add: ex_conf_def wf_procinfo_def wf_fdigest_def procinfo_zero_def)
  have bounds: "conf_bounds ex_conf"
    by (simp add: ex_conf_def conf_bounds_def procinfo_zero_def
      all_strs_def all_libs_def proc_strs_def lib_strs_def libs_of_def)
  have ne: "ex_conf \<noteq> []" by (simp add: ex_conf_def)
  have os: "file_size (ex_os ?img) ''c'' () = ((3, of_nat (length ?img)), ())" "(0::int) \<le> 3"
    "os_malloc (ex_os ?img) (of_nat (length ?img)) () = (True, ())"
    "file_read_close (ex_os ?img) 3 (of_nat (length ?img)) () = ((of_nat (length ?img), ?img), ())"
    by (simp_all add: ex_os_def file_size_def file_read_close_def Let_def)
  obtain tbl' where *: "host_read_config ?mm (ex_os ?img) ''c'' Garbage htable_zero ()
       = Inr (int (length ex_conf), Val (Some ex_conf), tbl', ())"
    "\<forall>p. find_hashtable ?mm htable_zero (Some p) PICA_ENT_CONF_PROCINFO = Inr (None :: entref option) \<longrightarrow>
        find_hashtable ?mm tbl' (Some p) PICA_ENT_CONF_PROCINFO
          = Inr (map_option RefProc (find (\<lambda>q. pi_path q = Some p) ex_conf))"
    using read_config_restores [OF wf bounds ne conf_image_wf [OF wf] os htable_ok_zero, of ?mm Garbage] by blast
  have "find_hashtable ?mm htable_zero (Some ''/i'') PICA_ENT_CONF_PROCINFO = Inr (None :: entref option)"
    by (simp add: find_hashtable_lookup htable_ok_zero pica_tbl.lookup_empty)
  with * show ?thesis by (auto simp: ex_conf_def)
qed

section \<open>A sealed file that does not unseal\<close>

text \<open>
  In the enclave a configuration file whose sealing is broken is not
  rejected: when \<open>sgx_unseal_data\<close> reports an error the buffer pointer is left
  unset, and \<open>pica_read_config\<close> goes on to read through it.
\<close>

theorem read_config_bad_seal:
  assumes "okc w" "okc w2"
    and "file_size os path w = ((fd, sz), w1)" "0 \<le> fd"
    and "os_malloc os sz w1 = (True, w2)"
    and "file_read_close os fd sz w2 = ((sz, enc), w3)"
    and "os_malloc os (ucast (encrypt_txt_len sl enc)) w3 = (True, w4)"
    and "unseal_data sl enc = (st, dsz, dec)" "st \<noteq> 0"
  shows "enclave_read_config mm sl okc os path old tbl w = Inl Uninit"
  using assms
  by (simp add: enclave_read_config_def pica_read_config_def enclave_file_size_def ocall_file_size_def
      enclave_file_seal_read_close_def enclave_file_read_close_def ocall_file_read_close_def Let_def)

definition ex_sealer :: "u32 \<Rightarrow> sealer" where
  "ex_sealer st = \<lparr>calc_sealed_size = (\<lambda>n. ucast n + 16), seal_data = (\<lambda>bs. (0, replicate 16 0 @ bs)),
     encrypt_txt_len = (\<lambda>bs. of_nat (length bs - 16)),
     unseal_data = (\<lambda>bs. (st, of_nat (length bs - 16), drop 16 bs))\<rparr>"

theorem read_config_bad_seal_witness:
  "enclave_read_config (\<lambda>_. 1) (ex_sealer 0x3001) (\<lambda>_. True) (ex_os (replicate 40 0)) ''c'' Garbage htable_zero ()
     = Inl Uninit"
proof -
  let ?enc = "replicate 40 0 :: bytes" and ?os = "ex_os (replicate 40 0)"
  have "file_size ?os ''c'' () = ((3, 40), ())" "(0::int) \<le> 3" "os_malloc ?os 40 () = (True, ())"
    "file_read_close ?os 3 40 () = ((40, ?enc), ())"
    "os_malloc ?os (ucast (encrypt_txt_len (ex_sealer 0x3001) ?enc)) () = (True, ())"
    "unseal_data (ex_sealer 0x3001) ?enc = (0x3001, of_nat (length ?enc - 16), drop 16 ?enc)" "(0x3001::u32) \<noteq> 0"
    by (simp_all add: ex_os_def ex_sealer_def file_size_def file_read_close_def)
  from read_config_bad_seal [OF TrueI TrueI this] show ?thesis .
qed

end
