(* ===== verification/Pica_Extract.thy ===== *)
theory Pica_Extract
  imports Cbor_Model Pica_Read
begin

text \<open>
  Measured processes on the wire: \<open>extract_procinfo\<close>, \<open>pica_extract_pinfo\<close> and
  \<open>pica_reg_config\<close> of \<open>src/libpica_clnt.c\<close>, and the daemon's own
  \<open>mycbor_unpack_procchain\<close> (\<open>tpm2/libcbor.c\<close>).  The body is a CBOR array of
  byte strings, each the serialization of a map with ten fixed pairs followed
  by one pair per library.

  \<open>junk\<close> is what freshly allocated, uncleared memory holds.
\<close>

unbundle bit_operations_syntax

section \<open>One process\<close>

definition pair_value :: "(cbor \<times> cbor) list \<Rightarrow> nat \<Rightarrow> cbor option cres" where
  "pair_value ps k = cbind (cnth ps k) (\<lambda>kv. Inr (Some (snd kv)))"

definition pair_key :: "(cbor \<times> cbor) list \<Rightarrow> nat \<Rightarrow> cbor option cres" where
  "pair_key ps k = cbind (cnth ps k) (\<lambda>kv. Inr (Some (fst kv)))"

text \<open>The \<open>uint64_t\<close> of a pair cut to a 32-bit id.\<close>

definition pair_id :: "(cbor \<times> cbor) list \<Rightarrow> nat \<Rightarrow> u32 cres" where
  "pair_id ps k = cbind (pair_value ps k) (\<lambda>v. cbind (mycbor_get_int v) (\<lambda>n. Inr (ucast n)))"

definition pair_digest :: "bytes \<Rightarrow> (cbor \<times> cbor) list \<Rightarrow> nat \<Rightarrow> bytes cres" where
  "pair_digest old ps k =
     cbind (pair_value ps k) (\<lambda>v. cbind (mycbor_copy_bstring old v 32) (\<lambda>(rc, d). Inr d))"

definition extract_lib :: "bytes \<Rightarrow> (cbor \<times> cbor) list \<Rightarrow> nat \<Rightarrow> fdigest cres" where
  "extract_lib junk ps k =
     cbind (pair_key ps k) (\<lambda>key. cbind (mycbor_get_string key) (\<lambda>path.
     cbind (pair_digest junk ps k) (\<lambda>d. Inr \<lparr>fd_path = path, fd_digest = d\<rparr>)))"

definition extract_pairs :: "bytes \<Rightarrow> (cbor \<times> cbor) list \<Rightarrow> procinfo cres" where
  "extract_pairs junk ps =
     cbind (pair_id ps 0) (\<lambda>pid. cbind (pair_id ps 1) (\<lambda>ppid.
     cbind (pair_id ps 2) (\<lambda>ruid. cbind (pair_id ps 3) (\<lambda>rgid.
     cbind (pair_id ps 4) (\<lambda>euid. cbind (pair_id ps 5) (\<lambda>egid.
     cbind (pair_id ps 6) (\<lambda>suid. cbind (pair_id ps 7) (\<lambda>sgid.
     cbind (pair_value ps 8) (\<lambda>v. cbind (mycbor_get_string v) (\<lambda>path.
     cbind (pair_digest (replicate 32 0) ps 9) (\<lambda>digest.
     cbind (if length ps > 10
            then cbind (cmapM (extract_lib junk ps) [10..<length ps]) (\<lambda>ls. Inr (int (length ps) - 10, Some ls))
            else Inr (0, None)) (\<lambda>(cnt, libs).
     Inr \<lparr>pi_pid = pid, pi_ppid = ppid, pi_ruid = ruid, pi_rgid = rgid, pi_euid = euid, pi_egid = egid,
          pi_suid = suid, pi_sgid = sgid, pi_path = path, pi_digest = digest, pi_count = cnt,
          pi_libs = libs\<rparr>))))))))))))"

section \<open>The client\<close>

definition extract_item :: "cbor_lib \<Rightarrow> bytes \<Rightarrow> cbor \<Rightarrow> procinfo cres" where
  "extract_item cl junk item =
     cbind (unpack_sercbor cl (Some item)) (\<lambda>cmap. cbind (cbor_map_pairs cmap) (extract_pairs junk))"

text \<open>Number of entries and the array stored (\<open>Garbage\<close>: nothing stored).\<close>

definition extract_procinfo :: "cbor_lib \<Rightarrow> bytes \<Rightarrow> cbor option \<Rightarrow> (int \<times> procinfo list slot) cres" where
  "extract_procinfo cl junk carray =
     (case carray of None \<Rightarrow> Inr (0, Garbage)
      | Some _ \<Rightarrow>
          cbind (cbor_isa_array carray) (\<lambda>isarr.
          if \<not> isarr then Inr (0, Garbage)
          else cbind (cbor_array_items carray) (\<lambda>items.
            cbind (cmapM (extract_item cl junk) items) (\<lambda>ps. Inr (int (length items), Val ps)))))"

text \<open>The return value, and \<open>*o_pinfo\<close>, which is NULL on every error.\<close>

definition pica_extract_pinfo :: "cbor_lib \<Rightarrow> bytes \<Rightarrow> bytes \<Rightarrow> (int \<times> procinfo list option) cres" where
  "pica_extract_pinfo cl junk picabody =
     (case cl_load cl picabody of
        None \<Rightarrow> Inr (-1, None)
      | Some c \<Rightarrow>
          cbind (extract_procinfo cl junk (Some c)) (\<lambda>(entries, pinfo).
          if entries = 0 then Inr (-1, None)
          else cbind (rd pinfo) (\<lambda>ps. Inr (entries, Some ps))))"

text \<open>
  The test for 0 entries never succeeds: a failed extraction returns \<open>-1\<close>.  The
  call \<open>free_pinfo\<close> only releases memory.
\<close>

definition pica_reg_config ::
    "cbor_lib \<Rightarrow> bytes \<Rightarrow> addrs \<Rightarrow> 'w os \<Rightarrow> string \<Rightarrow> bytes \<Rightarrow> 'w \<Rightarrow> (int \<times> 'w) cres" where
  "pica_reg_config cl junk ad os path picabody w =
     cbind (pica_extract_pinfo cl junk picabody) (\<lambda>(entries, pinfo).
     if entries = 0 then Inr (-1, w)
     else cbind (reg_config ad os path (case pinfo of None \<Rightarrow> [] | Some ps \<Rightarrow> ps) entries w) (\<lambda>w. Inr (0, w)))"

section \<open>The daemon's copy\<close>

text \<open>
  Neither the result of \<open>cbor_load\<close> nor the kind of an item is checked before
  they are used; an entry that is no map stays zero.
\<close>

definition unpack_item :: "cbor_lib \<Rightarrow> bytes \<Rightarrow> cbor \<Rightarrow> procinfo cres" where
  "unpack_item cl junk item =
     cbind (cbor_bytestring (Some item)) (\<lambda>bstr.
     let cmap = cl_load cl bstr in
     cbind (cbor_isa_map cmap) (\<lambda>ismap.
     if ismap then cbind (cbor_map_pairs cmap) (extract_pairs junk) else Inr procinfo_zero))"

definition mycbor_unpack_procchain :: "cbor_lib \<Rightarrow> bytes \<Rightarrow> bytes \<Rightarrow> (nat \<times> procinfo list) cres" where
  "mycbor_unpack_procchain cl junk ser =
     cbind (cbor_array_items (cl_load cl ser)) (\<lambda>items.
     cbind (cmapM (unpack_item cl junk) items) (\<lambda>ps.
     Inr (length items, ps @ [procinfo_zero])))"

section \<open>The wire format of filled entries\<close>

definition lib_pair :: "fdigest \<Rightarrow> cbor \<times> cbor" where
  "lib_pair f = (CText True (to_bytes (the (fd_path f))), CBytes True (fd_digest f))"

definition id_pair :: "string \<Rightarrow> u32 \<Rightarrow> cbor \<times> cbor" where
  "id_pair key v = (CText True (to_bytes key), CUint 8 (ucast v))"

definition proc_pairs :: "procinfo \<Rightarrow> (cbor \<times> cbor) list" where
  "proc_pairs p =
     [id_pair ''pid'' (pi_pid p), id_pair ''ppid'' (pi_ppid p), id_pair ''ruid'' (pi_ruid p),
      id_pair ''rgid'' (pi_rgid p), id_pair ''euid'' (pi_euid p), id_pair ''egid'' (pi_egid p),
      id_pair ''suid'' (pi_suid p), id_pair ''sgid'' (pi_sgid p),
      (CText True (to_bytes ''path''), CText True (to_bytes (the (pi_path p)))),
      (CText True (to_bytes ''sha256''), CBytes True (pi_digest p))]
     @ map lib_pair (libs_of p)"

text \<open>Any map with these values in place is read back, whatever its keys are.\<close>

lemma pair_id_nth: "i < length ps \<Longrightarrow> snd (ps ! i) = CUint n (ucast (v::u32)) \<Longrightarrow> pair_id ps i = Inr v"
  by (simp add: pair_id_def pair_value_def)

lemma extract_lib_pair:
  assumes "k < length ps" "ps ! k = lib_pair f" "wf_fdigest f"
  shows "extract_lib junk ps k = Inr f"
  using assms wf_fdigestD [OF assms(3)]
  by (auto simp: extract_lib_def pair_key_def pair_digest_def pair_value_def lib_pair_def)

lemma extract_pairs_fixed:
  assumes len: "10 \<le> length ps" and wf: "wf_procinfo p"
    and ids: "snd (ps ! 0) = CUint n0 (ucast (pi_pid p))" "snd (ps ! 1) = CUint n1 (ucast (pi_ppid p))"
      "snd (ps ! 2) = CUint n2 (ucast (pi_ruid p))" "snd (ps ! 3) = CUint n3 (ucast (pi_rgid p))"
      "snd (ps ! 4) = CUint n4 (ucast (pi_euid p))" "snd (ps ! 5) = CUint n5 (ucast (pi_egid p))"
      "snd (ps ! 6) = CUint n6 (ucast (pi_suid p))" "snd (ps ! 7) = CUint n7 (ucast (pi_sgid p))"
    and path: "snd (ps ! 8) = CText True (to_bytes (the (pi_path p)))"
    and dig: "snd (ps ! 9) = CBytes True (pi_digest p)"
    and libs: "drop 10 ps = map lib_pair (libs_of p)"
  shows "extract_pairs junk ps = Inr p"
proof -
  obtain s where s: "pi_path p = Some s" "nul_free s" "length (pi_digest p) = 32"
    using wf by (rule wf_procinfo_path)
  have lib: "extract_lib junk ps k = Inr (libs_of p ! (k - 10))" if "k \<in> set [10..<length ps]" for k
  proof (rule extract_lib_pair)
    show "k < length ps" using that by simp
    have "ps ! k = drop 10 ps ! (k - 10)" using that by simp
    moreover have "k - 10 < length (libs_of p)" using that arg_cong [OF libs, of length] by auto
    ultimately show "ps ! k = lib_pair (libs_of p ! (k - 10))" "wf_fdigest (libs_of p ! (k - 10))"
      using libs wf_procinfo_libs(2) [OF wf] by simp_all
  qed
  have n: "length ps = 10 + length (libs_of p)" using arg_cong [OF libs, of length] len by simp
  have "cmapM (extract_lib junk ps) [10..<length ps] = Inr (map (\<lambda>k. libs_of p ! (k - 10)) [10..<length ps])"
    by (rule cmapM_Inr_map) (rule lib)
  also have "map (\<lambda>k. libs_of p ! (k - 10)) [10..<length ps] = libs_of p"
    using n by (intro nth_equalityI) simp_all
  finally have all: "cmapM (extract_lib junk ps) [10..<length ps] = Inr (libs_of p)" .
  have cnt: "pi_count p = int (length (libs_of p))" by (rule wf_procinfo_libs(1) [OF wf])
  have opt: "libs_of p \<noteq> [] \<Longrightarrow> pi_libs p = Some (libs_of p)" "libs_of p = [] \<Longrightarrow> pi_libs p = None"
    using wf by (auto simp: libs_of_def wf_procinfo_def split: option.splits)
  have id: "pair_id ps i = Inr v" if "snd (ps ! i) = CUint n (ucast v)" "i < 10" for i n and v :: u32
    by (rule pair_id_nth [OF _ that(1)]) (use len that(2) in simp)
  have "pair_id ps 0 = Inr (pi_pid p)" "pair_id ps 1 = Inr (pi_ppid p)" "pair_id ps 2 = Inr (pi_ruid p)"
    "pair_id ps 3 = Inr (pi_rgid p)" "pair_id ps 4 = Inr (pi_euid p)" "pair_id ps 5 = Inr (pi_egid p)"
    "pair_id ps 6 = Inr (pi_suid p)" "pair_id ps 7 = Inr (pi_sgid p)"
    by (rule id, rule ids, simp)+
  moreover have "pair_value ps 8 = Inr (Some (CText True (to_bytes s)))"
    "pair_digest d ps 9 = Inr (pi_digest p)" for d
    using len path dig s by (simp_all add: pair_value_def pair_digest_def)
  ultimately show ?thesis
    using all n cnt opt s(1,2) by (cases "libs_of p = []") (simp_all add: extract_pairs_def)
qed

lemma extract_proc_pairs:
  assumes "wf_procinfo p"
  shows "extract_pairs junk (proc_pairs p) = Inr p"
  by (rule extract_pairs_fixed [OF _ assms])
    (simp_all add: proc_pairs_def id_pair_def numeral_eq_Suc)

definition chain_item :: "cbor_lib \<Rightarrow> procinfo list \<Rightarrow> cbor" where
  "chain_item cl ps = CArr True (map (\<lambda>p. CBytes True (cl_ser cl (CMap True (proc_pairs p)))) ps)"

definition chain_faithful :: "cbor_lib \<Rightarrow> procinfo list \<Rightarrow> bool" where
  "chain_faithful cl ps \<longleftrightarrow> cbor_faithful cl (chain_item cl ps) \<and>
     (\<forall>p \<in> set ps. cbor_faithful cl (CMap True (proc_pairs p)))"

lemma extract_chain_items:
  assumes "\<forall>p \<in> set ps. cbor_faithful cl (CMap True (proc_pairs p)) \<and> wf_procinfo p"
  shows "cmapM (extract_item cl junk) (map (\<lambda>p. CBytes True (cl_ser cl (CMap True (proc_pairs p)))) ps) = Inr ps"
  using assms
  by (induction ps) (simp_all add: extract_item_def unpack_sercbor_ser extract_proc_pairs)

lemma unpack_chain_items:
  assumes "\<forall>p \<in> set ps. cbor_faithful cl (CMap True (proc_pairs p)) \<and> wf_procinfo p"
  shows "cmapM (unpack_item cl junk) (map (\<lambda>p. CBytes True (cl_ser cl (CMap True (proc_pairs p)))) ps) = Inr ps"
  using assms
  by (induction ps) (simp_all add: unpack_item_def cbor_faithful_def extract_proc_pairs Let_def)


section \<open>Decoding what was encoded\<close>

lemma extract_chain:
  assumes "chain_faithful cl ps" "ps \<noteq> []" "\<forall>p \<in> set ps. wf_procinfo p"
  shows "pica_extract_pinfo cl junk (cl_ser cl (chain_item cl ps)) = Inr (int (length ps), Some ps)"
proof -
  have "cl_load cl (cl_ser cl (chain_item cl ps)) = Some (chain_item cl ps)"
    using assms(1) by (simp add: chain_faithful_def cbor_faithful_def)
  moreover have "cmapM (extract_item cl junk) (map (\<lambda>p. CBytes True (cl_ser cl (CMap True (proc_pairs p)))) ps) = Inr ps"
    by (rule extract_chain_items) (use assms in \<open>simp add: chain_faithful_def\<close>)
  ultimately show ?thesis
    using assms(2) by (simp add: pica_extract_pinfo_def extract_procinfo_def chain_item_def)
qed


lemma unpack_sercbor_bytes:
  "unpack_sercbor cl (Some item) = Inr (Some m) \<Longrightarrow> \<exists>bs. item = CBytes True bs \<and> cl_load cl bs = Some m"
  by (cases item) (auto simp: unpack_sercbor_def cbor_access_defs split: bool.splits if_splits)

lemma cbor_map_pairs_Inr: "cbor_map_pairs it = Inr ps \<longleftrightarrow> (\<exists>d. it = Some (CMap d ps))"
  by (cases it) (auto simp: cbor_map_pairs_def split: cbor.splits)

lemma extract_item_unpack:
  assumes "extract_item cl junk item = Inr p"
  shows "unpack_item cl junk item = Inr p"
proof -
  from assms obtain d ps where "unpack_sercbor cl (Some item) = Inr (Some (CMap d ps))"
    and ps: "extract_pairs junk ps = Inr p"
    by (auto simp: extract_item_def cbind_eq_Inr cbor_map_pairs_Inr)
  from unpack_sercbor_bytes [OF this(1)] ps show ?thesis
    by (auto simp: unpack_item_def Let_def)
qed

lemma cmapM_extract_unpack:
  "cmapM (extract_item cl junk) items = Inr ps \<Longrightarrow> cmapM (unpack_item cl junk) items = Inr ps"
  by (induction items arbitrary: ps) (auto simp: cbind_eq_Inr extract_item_unpack)

text \<open>
  C19.  The client's decoder and the daemon's own \<open>mycbor_unpack_procchain\<close> agree
  on every body the client accepts; the daemon's array has one zeroed entry more.
\<close>

theorem extract_unpack_agree:
  assumes "pica_extract_pinfo cl junk body = Inr (n, Some ps)"
  shows "n = int (length ps) \<and> mycbor_unpack_procchain cl junk body = Inr (length ps, ps @ [procinfo_zero])"
proof -
  from assms obtain c where c: "cl_load cl body = Some c"
    by (cases "cl_load cl body") (simp_all add: pica_extract_pinfo_def)
  with assms have x: "extract_procinfo cl junk (Some c) = Inr (n, Val ps)" "n \<noteq> 0"
    by (auto simp: pica_extract_pinfo_def cbind_eq_Inr split: if_splits)
  then obtain d items where items: "c = CArr d items" "cmapM (extract_item cl junk) items = Inr ps" "n = int (length items)"
    by (cases c) (auto simp: extract_procinfo_def cbor_isa_array_def cbind_eq_Inr)
  then show ?thesis
    using c cmapM_extract_unpack [OF items(2)] cmapM_length [OF items(2)]
    by (simp add: mycbor_unpack_procchain_def)
qed

text \<open>
  A body that does not decode is meant to be refused with \<open>-1\<close>, but
  \<open>pica_reg_config\<close> tests the number of entries for 0 while the extraction
  reports \<open>-1\<close>: once the configuration file is open, its image is written
  through a NULL pointer; no run returns.
\<close>

theorem reg_undecodable_faults:
  assumes "cl_load cl body = None"
  shows "pica_reg_config cl junk ad os path body w = Inl Abort \<or>
     pica_reg_config cl junk ad os path body w = Inl NullDeref"
  using assms
  by (simp add: pica_reg_config_def pica_extract_pinfo_def reg_config_def conf_image_def case_prod_beta Let_def)

section \<open>A concrete body\<close>

definition ex_wire :: cbor_lib where
  "ex_wire = \<lparr>cl_load = (\<lambda>bs. case bs of
        [b] \<Rightarrow> if b = 0 then Some (CArr True [CBytes True [7], CBytes True [1]])
             else if b = 7 then Some (CMap True (proc_pairs (ex_conf ! 0)))
             else if b = 1 then Some (CMap True (proc_pairs (ex_conf ! 1))) else None
      | _ \<Rightarrow> None),
     cl_ser = (\<lambda>x. case x of CMap _ ps \<Rightarrow> (case snd (ps ! 0) of CUint _ v \<Rightarrow> [ucast v] | _ \<Rightarrow> [])
      | _ \<Rightarrow> [0])\<rparr>"

lemma ex_wire_faithful: "chain_faithful ex_wire ex_conf" "ex_conf \<noteq> []"
  by (simp_all add: chain_faithful_def cbor_faithful_def chain_item_def ex_wire_def ex_conf_def proc_pairs_def
      id_pair_def procinfo_zero_def)

lemmas ex_extract_wire = extract_chain [OF ex_wire_faithful ex_conf_wf(1)]


theorem extract_unpack_agree_witness:
  "mycbor_unpack_procchain ex_wire [] [0] = Inr (2, ex_conf @ [procinfo_zero])"
proof -
  have "cl_ser ex_wire (chain_item ex_wire ex_conf) = [0]" by (simp add: ex_wire_def chain_item_def)
  with ex_extract_wire [of "[]"] have "pica_extract_pinfo ex_wire [] [0] = Inr (int (length ex_conf), Some ex_conf)"
    by simp
  from extract_unpack_agree [OF this] show ?thesis by (simp add: ex_conf_def)
qed

theorem reg_undecodable_faults_witness:
  "pica_reg_config ex_wire [] ex_addrs (ex_os []) ''conf'' [9] () = Inl NullDeref"
proof -
  have "cl_load ex_wire [9] = None" by (simp add: ex_wire_def)
  from reg_undecodable_faults [OF this, of "[]" ex_addrs "ex_os []" "''conf''" "()"]
  show ?thesis
    by (simp add: pica_reg_config_def pica_extract_pinfo_def reg_config_def conf_image_def ex_os_def ex_wire_def
        file_open_def Let_def)
qed

end
