(* ===== verification/Procchain.thy ===== *)
theory Procchain
  imports Measure Pica_Extract
begin

text \<open>
  The daemon's measurement of a process chain: \<open>tpm2/libprocchain.c\<close>, which reads
  the proc files, and \<open>tpm2/libcbor.c\<close>, which measures a process and all its
  ancestors below process 1 and packs them as one CBOR array, root first.

  libcbor's constructors are modelled by their results: each may fail to
  allocate, and a definite map or array takes no more members than announced.
  \<open>mycbor_pack_procchain\<close> follows parent ids without a bound, so its loop has
  fuel; \<open>pack_procchain_ancestry\<close> gives the fuel that suffices.
\<close>

unbundle bit_operations_syntax

section \<open>Proc files\<close>

text \<open>The directive \<open>%d\<close>: an optional sign and decimal digits.\<close>

definition scan_int :: "string \<Rightarrow> (int \<times> string) option" where
  "scan_int s = (case skip_ws s of
     [] \<Rightarrow> None
   | c # cs \<Rightarrow>
       let (sgn, t) = (if c = CHR ''-'' then (-1, cs) else if c = CHR ''+'' then (1, cs) else (1, c # cs))
       in case t of [] \<Rightarrow> None
          | d # ds \<Rightarrow> if dec_val d = None then None
              else let (n, r) = scan_digits dec_val 10 0 t in Some (sgn * int n, r))"

definition scan_3ids :: "string \<Rightarrow> (u32 \<times> u32 \<times> u32) option" where
  "scan_3ids s =
     (case scan_int s of None \<Rightarrow> None | Some (a, s) \<Rightarrow>
     (case scan_int s of None \<Rightarrow> None | Some (b, s) \<Rightarrow>
     (case scan_int s of None \<Rightarrow> None | Some (c, s) \<Rightarrow> Some (word_of_int a, word_of_int b, word_of_int c))))"

record creds =
  cr_ppid :: u32
  cr_ruid :: u32
  cr_rgid :: u32
  cr_euid :: u32
  cr_egid :: u32
  cr_suid :: u32
  cr_sgid :: u32

definition creds_unset :: creds where
  "creds_unset = \<lparr>cr_ppid = -1, cr_ruid = -1, cr_rgid = -1, cr_euid = -1, cr_egid = -1, cr_suid = -1, cr_sgid = -1\<rparr>"

fun cred_lines :: "string list \<Rightarrow> nat \<Rightarrow> creds \<Rightarrow> creds" where
  "cred_lines [] pass c = c"
| "cred_lines (line # lines) pass c =
     (if \<not> pass < 3 then c
      else if strncmp_eq line ''PPid:'' 5 then
        cred_lines lines (pass + 1) (c\<lparr>cr_ppid := (case scan_int (drop 5 line) of None \<Rightarrow> -1 | Some (n, _) \<Rightarrow> word_of_int n)\<rparr>)
      else if strncmp_eq line ''Uid:'' 4 then
        cred_lines lines (pass + 1)
          (case scan_3ids (drop 4 line) of
             None \<Rightarrow> c\<lparr>cr_ruid := -1, cr_euid := -1, cr_suid := -1\<rparr>
           | Some (r, e, s) \<Rightarrow> c\<lparr>cr_ruid := r, cr_euid := e, cr_suid := s\<rparr>)
      else if strncmp_eq line ''Gid:'' 4 then
        cred_lines lines (pass + 1)
          (case scan_3ids (drop 4 line) of
             None \<Rightarrow> c\<lparr>cr_rgid := -1, cr_egid := -1, cr_sgid := -1\<rparr>
           | Some (r, e, s) \<Rightarrow> c\<lparr>cr_rgid := r, cr_egid := e, cr_sgid := s\<rparr>)
      else cred_lines lines pass c)"

text \<open>The return code and what is stored (\<open>Garbage\<close>: the outputs stay unset).\<close>

definition cred_pid :: "'w msys \<Rightarrow> int \<Rightarrow> 'w \<Rightarrow> int \<times> creds slot" where
  "cred_pid ms pid w =
     (case m_lines ms (''/proc/'' @ long_str pid @ ''/status'') w of
        None \<Rightarrow> (-1, Garbage)
      | Some lines \<Rightarrow> (0, Val (cred_lines lines 0 creds_unset)))"

definition get_cmdpath :: "'w msys \<Rightarrow> int \<Rightarrow> nat \<Rightarrow> 'w \<Rightarrow> int \<times> string option" where
  "get_cmdpath ms pid buflen w =
     (if buflen = 0 then (0, None)
      else case m_readlink ms (''/proc/'' @ long_str pid @ ''/exe'') w of
        None \<Rightarrow> (-1, None)
      | Some l \<Rightarrow> let buf = take (buflen - 1) l in (int (length buf), Some buf))"

text \<open>
  \<open>contents\<close> is what \<open>fread\<close> finds in the file; \<open>None\<close> when it cannot be opened.
  The buffer is returned up to its length.
\<close>

definition get_cmdline :: "(string \<Rightarrow> string option) \<Rightarrow> int \<Rightarrow> nat \<Rightarrow> int \<times> string option" where
  "get_cmdline contents pid buflen =
     (if buflen = 0 then (0, None)
      else case contents (''/proc/'' @ long_str pid @ ''/cmdline'') of
        None \<Rightarrow> (0, None)
      | Some s \<Rightarrow>
          let buf = take (buflen - 1) s in
          if buf = [] then (0, None)
          else
            let spaced = map (\<lambda>c. if c = NUL then CHR '' '' else c) buf
            in (int (length buf), Some (rev (dropWhile (\<lambda>c. c = CHR '' '') (rev spaced)))))"

definition get_comm :: "'w msys \<Rightarrow> int \<Rightarrow> nat \<Rightarrow> 'w \<Rightarrow> int \<times> string option" where
  "get_comm ms pid buflen w =
     (if buflen = 0 then (-1, None)
      else case m_lines ms (''/proc/'' @ long_str pid @ ''/comm'') w of
        None \<Rightarrow> (-1, None)
      | Some [] \<Rightarrow> (-1, None)
      | Some (line # _) \<Rightarrow>
          let buf = take (buflen - 1) line
          in (0, Some (if buf \<noteq> [] \<and> last buf = CHR 0x0A then butlast buf else buf)))"

section \<open>Map entries\<close>

text \<open>
  A map under construction: the size announced and the pairs added.  The
  results are 1 and the longer list, or 0 and the list as it was.
\<close>

definition cbor_map_add :: "nat \<Rightarrow> (cbor \<times> cbor) list \<Rightarrow> cbor \<times> cbor \<Rightarrow> int \<times> (cbor \<times> cbor) list" where
  "cbor_map_add cap ps kv = (if length ps < cap then (1, ps @ [kv]) else (0, ps))"

definition mycbor_add_map ::
    "'w os \<Rightarrow> nat \<Rightarrow> string \<Rightarrow> nat \<Rightarrow> cbor \<Rightarrow> (cbor \<times> cbor) list \<Rightarrow> 'w \<Rightarrow> int \<times> (cbor \<times> cbor) list \<times> 'w" where
  "mycbor_add_map os cap key sz cval ps w =
     (let (mem, w) = os_malloc os (of_nat (length key)) w in
      if \<not> mem then (0, ps, w)
      else let (mem, w) = os_malloc os (of_nat sz) w in
        if \<not> mem then (0, ps, w)
        else let (rc, ps) = cbor_map_add cap ps (CText True (to_bytes key), cval) in (rc, ps, w))"

definition mycbor_add_map_bstring ::
    "'w os \<Rightarrow> nat \<Rightarrow> string \<Rightarrow> bytes \<Rightarrow> (cbor \<times> cbor) list \<Rightarrow> 'w \<Rightarrow> int \<times> (cbor \<times> cbor) list \<times> 'w" where
  "mycbor_add_map_bstring os cap key val = mycbor_add_map os cap key (length val) (CBytes True val)"

definition mycbor_add_map_string ::
    "'w os \<Rightarrow> nat \<Rightarrow> string \<Rightarrow> string \<Rightarrow> (cbor \<times> cbor) list \<Rightarrow> 'w \<Rightarrow> int \<times> (cbor \<times> cbor) list \<times> 'w" where
  "mycbor_add_map_string os cap key val = mycbor_add_map os cap key (length val) (CText True (to_bytes val))"

definition mycbor_add_map_uint64 ::
    "'w os \<Rightarrow> nat \<Rightarrow> string \<Rightarrow> u64 \<Rightarrow> (cbor \<times> cbor) list \<Rightarrow> 'w \<Rightarrow> int \<times> (cbor \<times> cbor) list \<times> 'w" where
  "mycbor_add_map_uint64 os cap key val = mycbor_add_map os cap key 8 (CUint 8 val)"

section \<open>One process\<close>

text \<open>The 32 bytes of a digest buffer that are packed.\<close>

definition digest32 :: "bytes \<Rightarrow> bytes cres" where
  "digest32 d = (if length d < 32 then Inl Uninit else Inr (take 32 d))"

fun add_libs ::
    "'w os \<Rightarrow> nat \<Rightarrow> nat \<Rightarrow> path_entry list \<Rightarrow> (cbor \<times> cbor) list \<Rightarrow> 'w \<Rightarrow> ((cbor \<times> cbor) list \<times> 'w) cres" where
  "add_libs os cap 0 paths ps w = Inr (ps, w)"
| "add_libs os cap (Suc n) [] ps w = Inl NullDeref"
| "add_libs os cap (Suc n) (pa # paths) ps w =
     cbind (digest32 (pe_digest pa)) (\<lambda>d.
     let (rc, ps, w) = mycbor_add_map_bstring os cap (pe_path pa) d ps w in add_libs os cap n paths ps w)"

definition CMDPATH_SZ :: nat where "CMDPATH_SZ = 4097"

text \<open>
  Credentials that were never stored, a command path that was not read and a
  digest that was not computed are stack garbage; using them is the fault
  \<open>Uninit\<close>.  \<open>None\<close> is the NULL map.
\<close>

definition mycbor_sha256_binaries ::
    "'w msys \<Rightarrow> int \<Rightarrow> fp_htable \<Rightarrow> 'w \<Rightarrow> ((cbor \<times> cbor) list option \<times> creds slot \<times> fp_htable \<times> 'w) cres" where
  "mycbor_sha256_binaries ms pid tbl w =
     cbind (sha256_pid ms pid CMDPATH_SZ tbl w) (\<lambda>((rc, digest, cmdpath), tbl, w).
     let cred = snd (cred_pid ms pid w); os = m_os ms in
     cbind (sha256_libs ms pid [] tbl w) (\<lambda>(cnt, paths, tbl, w).
     let cap = nat (cnt + int PROCINFO_BASE_ENTRIES);
         (mem, w) = os_malloc os (of_nat cap) w
     in if \<not> mem then Inr (None, cred, tbl, w)
        else
          cbind (rd cred) (\<lambda>c.
          cbind (case cmdpath of None \<Rightarrow> Inl Uninit | Some s \<Rightarrow> Inr (c_str s)) (\<lambda>path.
          cbind (case digest of None \<Rightarrow> Inl Uninit | Some d \<Rightarrow> digest32 d) (\<lambda>dig.
          let (_, ps, w) = mycbor_add_map_uint64 os cap ''pid'' (word_of_int pid) [] w;
              (_, ps, w) = mycbor_add_map_uint64 os cap ''ppid'' (scast (cr_ppid c)) ps w;
              (_, ps, w) = mycbor_add_map_uint64 os cap ''ruid'' (ucast (cr_ruid c)) ps w;
              (_, ps, w) = mycbor_add_map_uint64 os cap ''rgid'' (ucast (cr_rgid c)) ps w;
              (_, ps, w) = mycbor_add_map_uint64 os cap ''euid'' (ucast (cr_euid c)) ps w;
              (_, ps, w) = mycbor_add_map_uint64 os cap ''egid'' (ucast (cr_egid c)) ps w;
              (_, ps, w) = mycbor_add_map_uint64 os cap ''suid'' (ucast (cr_suid c)) ps w;
              (_, ps, w) = mycbor_add_map_uint64 os cap ''sgid'' (ucast (cr_sgid c)) ps w;
              (_, ps, w) = mycbor_add_map_string os cap ''path'' path ps w;
              (_, ps, w) = mycbor_add_map_bstring os cap ''sha256'' dig ps w
          in cbind (add_libs os cap (nat cnt) paths ps w) (\<lambda>(ps, w). Inr (Some ps, cred, tbl, w)))))))"

text \<open>
  Serialization and the size stored: nothing when there is no map, NULL and 0
  when the buffer cannot be allocated.
\<close>

definition serialize_alloc :: "cbor_lib \<Rightarrow> 'w os \<Rightarrow> cbor \<Rightarrow> 'w \<Rightarrow> bytes option \<times> 'w" where
  "serialize_alloc cl os x w =
     (let (mem, w) = os_malloc os (of_nat (length (cl_ser cl x))) w in (if mem then Some (cl_ser cl x) else None, w))"

definition mycbor_sha256_binaries_serial ::
    "cbor_lib \<Rightarrow> 'w msys \<Rightarrow> int \<Rightarrow> fp_htable \<Rightarrow> 'w \<Rightarrow> (bytes option \<times> nat slot \<times> creds slot \<times> fp_htable \<times> 'w) cres" where
  "mycbor_sha256_binaries_serial cl ms pid tbl w =
     cbind (mycbor_sha256_binaries ms pid tbl w) (\<lambda>(m, cred, tbl, w).
     case m of
       None \<Rightarrow> Inr (None, Garbage, cred, tbl, w)
     | Some ps \<Rightarrow>
         let (ser, w) = serialize_alloc cl (m_os ms) (CMap True ps) w
         in Inr (ser, Val (case ser of None \<Rightarrow> 0 | Some s \<Rightarrow> length s), cred, tbl, w))"

section \<open>The chain\<close>

record tmplist =
  tl_ser :: "bytes option"
  tl_sz :: "nat slot"

text \<open>
  The measuring loop.  \<open>ppid\<close> is the variable the parent id is stored in; it
  keeps its value when the credentials cannot be read.
\<close>

fun measure_chain ::
    "nat \<Rightarrow> cbor_lib \<Rightarrow> 'w msys \<Rightarrow> int \<Rightarrow> int slot \<Rightarrow> tmplist list \<Rightarrow> fp_htable \<Rightarrow> 'w \<Rightarrow>
     (tmplist list \<times> fp_htable \<times> 'w) cres" where
  "measure_chain 0 cl ms pid ppid lst tbl w = Inl Diverges"
| "measure_chain (Suc n) cl ms pid ppid lst tbl w =
     cbind (mycbor_sha256_binaries_serial cl ms pid tbl w) (\<lambda>(ser, sz, cred, tbl, w).
     let lst = \<lparr>tl_ser = ser, tl_sz = sz\<rparr> # lst;
         ppid = (case cred of Garbage \<Rightarrow> ppid | Val c \<Rightarrow> Val (sint (cr_ppid c)))
     in cbind (rd ppid) (\<lambda>pid.
        if pid \<noteq> 1 then measure_chain n cl ms pid ppid lst tbl w else Inr (lst, tbl, w)))"

text \<open>\<open>None\<close>: building or pushing an item failed.\<close>

fun pack_items :: "'w os \<Rightarrow> nat \<Rightarrow> tmplist list \<Rightarrow> cbor list \<Rightarrow> 'w \<Rightarrow> (cbor list option \<times> 'w) cres" where
  "pack_items os cap [] items w = Inr (Some items, w)"
| "pack_items os cap (t # tls) items w =
     cbind (rd (tl_sz t)) (\<lambda>sz.
     let (mem, w) = os_malloc os (of_nat sz) w in
     if \<not> mem then Inr (None, w)
     else
       cbind (case tl_ser t of Some s \<Rightarrow> Inr s | None \<Rightarrow> if sz = 0 then Inr [] else Inl NullDeref) (\<lambda>s.
       if \<not> length items < cap then Inr (None, w)
       else pack_items os cap tls (items @ [CBytes True s]) w))"

definition mycbor_pack_procchain ::
    "nat \<Rightarrow> cbor_lib \<Rightarrow> 'w msys \<Rightarrow> int \<Rightarrow> fp_htable \<Rightarrow> 'w \<Rightarrow> (bytes option \<times> nat slot \<times> fp_htable \<times> 'w) cres" where
  "mycbor_pack_procchain fuel cl ms pid tbl w =
     cbind (measure_chain fuel cl ms pid Garbage [] tbl w) (\<lambda>(lst, tbl, w).
     let os = m_os ms; (mem, w) = os_malloc os (of_nat (length lst)) w in
     if \<not> mem then Inr (None, Garbage, tbl, w)
     else cbind (pack_items os (length lst) lst [] w) (\<lambda>(items, w).
       case items of
         None \<Rightarrow> Inr (None, Garbage, tbl, w)
       | Some items \<Rightarrow>
           let (ser, w) = serialize_alloc cl os (CArr True items) w
           in Inr (ser, Val (case ser of None \<Rightarrow> 0 | Some s \<Rightarrow> length s), tbl, w)))"

section \<open>When memory suffices\<close>

definition plenty :: "'w os \<Rightarrow> bool" where
  "plenty os \<longleftrightarrow> os_malloc os = (\<lambda>n w. (True, w))"

lemma add_map_ok:
  assumes "plenty os" "length ps < cap"
  shows "mycbor_add_map_bstring os cap key bs ps w = (1, ps @ [(CText True (to_bytes key), CBytes True bs)], w)"
    "mycbor_add_map_string os cap key s ps w = (1, ps @ [(CText True (to_bytes key), CText True (to_bytes s))], w)"
    "mycbor_add_map_uint64 os cap key v ps w = (1, ps @ [(CText True (to_bytes key), CUint 8 v)], w)"
  using assms
  by (simp_all add: mycbor_add_map_bstring_def mycbor_add_map_string_def mycbor_add_map_uint64_def
      mycbor_add_map_def cbor_map_add_def plenty_def)

lemma add_map_full:
  assumes "plenty os" "cap \<le> length ps"
  shows "mycbor_add_map_bstring os cap key bs ps w = (0, ps, w)"
  using assms by (simp add: mycbor_add_map_bstring_def mycbor_add_map_def cbor_map_add_def plenty_def)

definition path_lib :: "path_entry \<Rightarrow> fdigest" where
  "path_lib e = \<lparr>fd_path = Some (pe_path e), fd_digest = pe_digest e\<rparr>"

lemma add_libs_ok:
  assumes "plenty os" "\<forall>e \<in> set es. length (pe_digest e) = 32" "length ps + length es \<le> cap"
  shows "add_libs os cap (length es) es ps w = Inr (ps @ map (lib_pair \<circ> path_lib) es, w)"
  using assms(2,3)
proof (induction es arbitrary: ps)
  case (Cons e es)
  then show ?case
    by (simp add: digest32_def add_map_ok [OF assms(1)] lib_pair_def path_lib_def)
qed simp

text \<open>The entry that stands for what was measured of a process.\<close>

definition measured :: "int \<Rightarrow> creds \<Rightarrow> string \<Rightarrow> bytes \<Rightarrow> path_entry list \<Rightarrow> procinfo" where
  "measured pid c path d es =
     \<lparr>pi_pid = word_of_int pid, pi_ppid = cr_ppid c, pi_ruid = cr_ruid c, pi_rgid = cr_rgid c,
      pi_euid = cr_euid c, pi_egid = cr_egid c, pi_suid = cr_suid c, pi_sgid = cr_sgid c,
      pi_path = Some path, pi_digest = take 32 d, pi_count = int (length es),
      pi_libs = (if es = [] then None else Some (map path_lib es))\<rparr>"

lemma measured_simps [simp]:
  "libs_of (measured pid c path d es) = map path_lib es" "pi_pid (measured pid c path d es) = word_of_int pid"
  "pi_ppid (measured pid c path d es) = cr_ppid c" "pi_ruid (measured pid c path d es) = cr_ruid c"
  "pi_rgid (measured pid c path d es) = cr_rgid c" "pi_euid (measured pid c path d es) = cr_euid c"
  "pi_egid (measured pid c path d es) = cr_egid c" "pi_suid (measured pid c path d es) = cr_suid c"
  "pi_sgid (measured pid c path d es) = cr_sgid c" "pi_path (measured pid c path d es) = Some path"
  "pi_digest (measured pid c path d es) = take 32 d"
  by (simp_all add: measured_def libs_of_def)

lemma wf_measured:
  assumes "nul_free path" "32 \<le> length d" "\<forall>e \<in> set es. nul_free (pe_path e) \<and> length (pe_digest e) = 32"
  shows "wf_procinfo (measured pid c path d es)"
  using assms by (simp add: wf_procinfo_def measured_def wf_fdigest_def path_lib_def)

lemma pid_u64: "0 \<le> pid \<Longrightarrow> pid < 2 ^ 31 \<Longrightarrow> (word_of_int pid :: u64) = ucast (word_of_int pid :: u32)"
  by (simp add: ucast_eq uint_word_of_int)

lemma scast_nonneg_u32:
  assumes "0 \<le> sint (v::u32)"
  shows "(scast v :: u64) = ucast v"
proof -
  have top: "\<not> bit v 31" using assms bit_last_iff [of v] by simp
  have "bit v n \<Longrightarrow> n < 31" for n
    using top bit_imp_le_length [of v n] by (cases "n = 31") auto
  with top show ?thesis by (intro bit_word_eqI) (auto simp: bit_simps min_def not_le [symmetric] dest!: \<open>\<And>n. bit v n \<Longrightarrow> n < 31\<close>)
qed

section \<open>What the daemon packs of a process\<close>

lemma measured_pairs:
  assumes "plenty (m_os ms)"
    and exe: "sha256_pid ms pid CMDPATH_SZ tbl w = Inr ((rc, Some d, Some path), tbl1, w1)"
    and cred: "cred_pid ms pid w1 = (0, Val c)"
    and libs: "sha256_libs ms pid [] tbl1 w1 = Inr (int (length es), es, tbl2, w2)"
    and wf: "nul_free path" "32 \<le> length d" "\<forall>e \<in> set es. length (pe_digest e) = 32"
    and pid: "0 \<le> pid" "pid < 2 ^ 31" "0 \<le> sint (cr_ppid c)"
  shows "mycbor_sha256_binaries ms pid tbl w = Inr (Some (proc_pairs (measured pid c path d es)), Val c, tbl2, w2)"
proof -
  let ?cap = "length es + 10"
  have cap: "nat (int (length es) + int PROCINFO_BASE_ENTRIES) = ?cap"
    by (simp add: PROCINFO_BASE_ENTRIES_def nat_add_distrib)
  have mem: "os_malloc (m_os ms) n w = (True, w)" for n w
    using assms(1) by (simp add: plenty_def)
  note add = add_map_ok [OF assms(1)]
  show ?thesis
    using wf(1,2) add_libs_ok [OF assms(1) wf(3), of _ ?cap]
    by (simp add: mycbor_sha256_binaries_def exe cred libs cap mem digest32_def add Let_def proc_pairs_def
        id_pair_def pid_u64 [OF pid(1,2)] scast_nonneg_u32 [OF pid(3)])
qed

text \<open>
  When the executable, the credentials and the libraries of a process can be
  read, the map packed for it is the wire form of exactly what was measured:
  ids, path and digest of the executable, then every library with its digest.
\<close>

theorem binaries_measured:
  assumes "plenty (m_os ms)"
    and exe: "sha256_pid ms pid CMDPATH_SZ tbl w = Inr ((rc, Some d, Some path), tbl1, w1)"
    and cred: "cred_pid ms pid w1 = (0, Val c)"
    and libs: "sha256_libs ms pid [] tbl1 w1 = Inr (int (length es), es, tbl2, w2)"
    and wf: "nul_free path" "32 \<le> length d" "\<forall>e \<in> set es. length (pe_digest e) = 32"
    and pid: "0 \<le> pid" "pid < 2 ^ 31" "0 \<le> sint (cr_ppid c)"
  shows "mycbor_sha256_binaries ms pid tbl w = Inr (Some (proc_pairs (measured pid c path d es)), Val c, tbl2, w2)"
  using assms by (rule measured_pairs)

text \<open>
  When the mappings of a process cannot be read, \<open>sha256_libs\<close> gives \<open>-1\<close>
  and the map is created one pair too small: the digest of the executable is
  dropped, and the client that decodes the entry reads past the end of its pairs.
\<close>

theorem unreadable_maps_drop_digest:
  assumes "plenty (m_os ms)"
    and exe: "sha256_pid ms pid CMDPATH_SZ tbl w = Inr ((rc, Some d, Some path), tbl1, w1)"
    and cred: "cred_pid ms pid w1 = (0, Val c)"
    and libs: "sha256_libs ms pid [] tbl1 w1 = Inr (-1, es, tbl2, w2)"
    and wf: "nul_free path" "32 \<le> length d"
  shows "\<exists>ps. mycbor_sha256_binaries ms pid tbl w = Inr (Some ps, Val c, tbl2, w2) \<and> length ps = 9 \<and>
     (CText True (to_bytes ''sha256''), CBytes True (take 32 d)) \<notin> set ps \<and>
     extract_pairs junk ps = Inl OutOfBounds"
proof -
  have mem: "os_malloc (m_os ms) n w = (True, w)" for n w
    using assms(1) by (simp add: plenty_def)
  note add = add_map_ok [OF assms(1)] add_map_full [OF assms(1)]
  show ?thesis
    using wf by (simp add: mycbor_sha256_binaries_def exe cred libs mem digest32_def add Let_def
        PROCINFO_BASE_ENTRIES_def)
      (simp add: extract_pairs_def pair_id_def pair_value_def pair_digest_def numeral_eq_Suc)
qed

section \<open>Chains\<close>

inductive ancestry ::
    "'w msys \<Rightarrow> int \<Rightarrow> fp_htable \<Rightarrow> 'w \<Rightarrow> procinfo list \<Rightarrow> fp_htable \<Rightarrow> 'w \<Rightarrow> bool"
  for ms where
  root: "mycbor_sha256_binaries ms pid tbl w = Inr (Some (proc_pairs p), Val c, tbl', w') \<Longrightarrow>
    sint (cr_ppid c) = 1 \<Longrightarrow> ancestry ms pid tbl w [p] tbl' w'"
| child: "mycbor_sha256_binaries ms pid tbl w = Inr (Some (proc_pairs p), Val c, tbl', w') \<Longrightarrow>
    sint (cr_ppid c) \<noteq> 1 \<Longrightarrow> ancestry ms (sint (cr_ppid c)) tbl' w' ps tbl'' w'' \<Longrightarrow>
    ancestry ms pid tbl w (p # ps) tbl'' w''"

definition proc_tmp :: "cbor_lib \<Rightarrow> procinfo \<Rightarrow> tmplist" where
  "proc_tmp cl p = (let s = cl_ser cl (CMap True (proc_pairs p)) in \<lparr>tl_ser = Some s, tl_sz = Val (length s)\<rparr>)"

lemma measure_ancestry:
  assumes "ancestry ms pid tbl w ps tbl' w'" "plenty (m_os ms)" "length ps \<le> fuel"
  shows "measure_chain fuel cl ms pid ppid lst tbl w = Inr (rev (map (proc_tmp cl) ps) @ lst, tbl', w')"
proof -
  have ser: "serialize_alloc cl (m_os ms) x w = (Some (cl_ser cl x), w)" for x w
    using assms(2) by (simp add: serialize_alloc_def plenty_def)
  show ?thesis
    using assms(1,3)
  proof (induction arbitrary: fuel ppid lst)
    case (root pid tbl w p c tbl' w')
    then show ?case
      by (cases fuel) (simp_all add: mycbor_sha256_binaries_serial_def ser proc_tmp_def Let_def)
  next
    case (child pid tbl w p c tbl' w' ps tbl'' w'')
    then show ?case
      by (cases fuel) (simp_all add: mycbor_sha256_binaries_serial_def ser proc_tmp_def Let_def)
  qed
qed

lemma pack_items_ok:
  assumes "plenty os" "length items + length ps \<le> cap"
  shows "pack_items os cap (map (proc_tmp cl) ps) items w =
     Inr (Some (items @ map (\<lambda>p. CBytes True (cl_ser cl (CMap True (proc_pairs p)))) ps), w)"
  using assms(2)
proof (induction ps arbitrary: items)
  case (Cons p ps)
  then show ?case
    using assms(1) by (simp add: proc_tmp_def plenty_def Let_def)
qed simp

lemma pack_chain_item:
  assumes "ancestry ms pid tbl w ps tbl' w'" "plenty (m_os ms)" "length ps \<le> fuel"
  shows "mycbor_pack_procchain fuel cl ms pid tbl w =
     Inr (Some (cl_ser cl (chain_item cl (rev ps))), Val (length (cl_ser cl (chain_item cl (rev ps)))), tbl', w')"
  using measure_ancestry [OF assms, of cl Garbage "[]"]
    pack_items_ok [OF assms(2), of "[]" "rev ps" "length ps" cl] assms(2)
  by (simp add: mycbor_pack_procchain_def plenty_def serialize_alloc_def chain_item_def rev_map Let_def)

text \<open>
  C22.  \<open>mycbor_pack_procchain\<close> returns as soon as the ancestors up to the child of
  process 1 can be measured: one round of the loop for each, and the
  message is the array of their entries, root first.
\<close>

theorem pack_procchain_ancestry:
  assumes "ancestry ms pid tbl w ps tbl' w'" "plenty (m_os ms)" "length ps \<le> fuel"
  shows "mycbor_pack_procchain fuel cl ms pid tbl w =
     Inr (Some (cl_ser cl (chain_item cl (rev ps))), Val (length (cl_ser cl (chain_item cl (rev ps)))), tbl', w')"
  using assms by (rule pack_chain_item)

text \<open>
  C16.  Daemon and client fit together: what the daemon packs for a chain of
  measured processes, the client decodes as exactly these processes, root first.
\<close>

theorem pack_extract:
  assumes "ancestry ms pid tbl w ps tbl' w'" "plenty (m_os ms)" "length ps \<le> fuel"
    and "chain_faithful cl (rev ps)" "\<forall>p \<in> set ps. wf_procinfo p"
  shows "\<exists>body sz. mycbor_pack_procchain fuel cl ms pid tbl w = Inr (Some body, sz, tbl', w') \<and>
     pica_extract_pinfo cl junk body = Inr (int (length ps), Some (rev ps))"
proof -
  have "ps \<noteq> []" using assms(1) by (auto elim: ancestry.cases)
  then have "pica_extract_pinfo cl junk (cl_ser cl (chain_item cl (rev ps))) = Inr (int (length ps), Some (rev ps))"
    using extract_chain [OF assms(4)] assms(5) by simp
  then show ?thesis using pack_chain_item [OF assms(1-3), of cl] by blast
qed

section \<open>A daemon with one process below process 1\<close>

definition ex_daemon :: "'w msys" where
  "ex_daemon = (ex_msys 3)\<lparr>m_lines := (\<lambda>_ _. Some [''PPid: 1'', ''Uid: 5 6 7'', ''Gid: 8 9 8''])\<rparr>"

definition ex_creds :: creds where
  "ex_creds = \<lparr>cr_ppid = 1, cr_ruid = 5, cr_rgid = 8, cr_euid = 6, cr_egid = 9, cr_suid = 7, cr_sgid = 8\<rparr>"

lemma ex_daemon_plenty: "plenty (m_os ex_daemon)"
  by (simp add: plenty_def ex_daemon_def ex_msys_def ex_mos_def)

lemma ex_daemon_cred: "cred_pid ex_daemon pid w = (0, Val ex_creds)"
proof -
  have ids: "scan_int '' 1'' = Some (1, [])" "scan_3ids '' 5 6 7'' = Some (5, 6, 7)"
    "scan_3ids '' 8 9 8'' = Some (8, 9, 8)"
    by (simp_all add: scan_int_def scan_3ids_def skip_ws_def is_space_def dec_val_def)
  have key: "strncmp_eq ''PPid: 1'' ''PPid:'' 5" "\<not> strncmp_eq ''Uid: 5 6 7'' ''PPid:'' 5"
    "strncmp_eq ''Uid: 5 6 7'' ''Uid:'' 4" "\<not> strncmp_eq ''Gid: 8 9 8'' ''PPid:'' 5"
    "\<not> strncmp_eq ''Gid: 8 9 8'' ''Uid:'' 4" "strncmp_eq ''Gid: 8 9 8'' ''Gid:'' 4"
    by (simp_all add: numeral_eq_Suc)
  have "cred_lines [''PPid: 1'', ''Uid: 5 6 7'', ''Gid: 8 9 8''] 0 creds_unset = ex_creds"
    by (simp add: key ids creds_unset_def ex_creds_def)
  then show ?thesis
    by (simp add: cred_pid_def ex_daemon_def)
qed

definition ex_digest :: bytes where
  "ex_digest = replicate 31 7 @ [2]"

lemma ex_daemon_exe:
  "\<exists>tbl. sha256_pid ex_daemon 42 CMDPATH_SZ filepath_htable w = Inr ((0, Some ex_digest, Some ''/bin/sh''), tbl, w)"
proof -
  have find: "find_hashentry (m_murmur ex_daemon) filepath_htable p = Inr (0, 0, filepath_htable)" for p
    by (simp add: find_hashentry_def mhash_def ex_daemon_def ex_msys_def filepath_htable_def MTABLE_SZ_def fp_zero_def)
  have fresh: "fe_path ((filepath_htable ! 0) ! 0) = MNone"
    by (simp add: filepath_htable_def MTABLE_SZ_def fp_zero_def)
  have measure: "measure_file ex_daemon p w = (Some [1, 2], w)" for p
    by (simp add: measure_file_def ex_daemon_def ex_msys_def ex_mos_def ms_good_def Let_def)
  show ?thesis
    by (simp add: sha256_pid_def sha256_file_fresh [OF find fresh] measure Let_def)
      (simp add: ex_daemon_def ex_msys_def ex_digest_def CMDPATH_SZ_def)
qed

lemma ex_daemon_libs: "sha256_libs ex_daemon pid [] tbl w = Inr (int (length []), [], tbl, w)"
proof -
  have lines: "scan_maps ''PPid: 1'' = None" "scan_maps ''Uid: 5 6 7'' = None"
    "scan_maps ''Gid: 8 9 8'' = None"
    by (simp_all add: scan_maps_def scan_num_def skip_ws_def is_space_def hex_val_def)
  show ?thesis
    by (simp add: sha256_libs_def ex_daemon_def lines)
qed

theorem binaries_measured_witness:
  "\<exists>tbl. mycbor_sha256_binaries ex_daemon 42 filepath_htable () =
     Inr (Some (proc_pairs (measured 42 ex_creds ''/bin/sh'' ex_digest [])), Val ex_creds, tbl, ())"
proof -
  obtain tbl where exe: "sha256_pid ex_daemon 42 CMDPATH_SZ filepath_htable () =
      Inr ((0, Some ex_digest, Some ''/bin/sh''), tbl, ())"
    using ex_daemon_exe ..
  show ?thesis
    using binaries_measured [OF ex_daemon_plenty exe ex_daemon_cred ex_daemon_libs]
    by (simp add: ex_digest_def ex_creds_def)
qed

text \<open>The same daemon when the mappings cannot be opened.\<close>

definition ex_no_maps :: "unit msys" where
  "ex_no_maps = ex_daemon\<lparr>m_lines := (\<lambda>f w. if take 2 (rev f) = ''sp'' then None else m_lines ex_daemon f w)\<rparr>"

lemma sha256_pid_lines: "sha256_pid (ms\<lparr>m_lines := f\<rparr>) pid n tbl w = sha256_pid ms pid n tbl w"
proof -
  have sel: "m_os (ms\<lparr>m_lines := f\<rparr>) = m_os ms" "m_fstat (ms\<lparr>m_lines := f\<rparr>) = m_fstat ms"
    "m_readlink (ms\<lparr>m_lines := f\<rparr>) = m_readlink ms" "m_sha256 (ms\<lparr>m_lines := f\<rparr>) = m_sha256 ms"
    "m_md (ms\<lparr>m_lines := f\<rparr>) = m_md ms" "m_murmur (ms\<lparr>m_lines := f\<rparr>) = m_murmur ms"
    by simp_all
  show ?thesis
    unfolding sha256_pid_def sha256_file_def measure_file_def sel ..
qed

theorem unreadable_maps_drop_digest_witness:
  "\<exists>ps tbl. mycbor_sha256_binaries ex_no_maps 42 filepath_htable () = Inr (Some ps, Val ex_creds, tbl, ()) \<and>
     extract_pairs [] ps = Inl OutOfBounds"
proof -
  obtain tbl where "sha256_pid ex_daemon 42 CMDPATH_SZ filepath_htable () =
      Inr ((0, Some ex_digest, Some ''/bin/sh''), tbl, ())"
    using ex_daemon_exe ..
  then have exe: "sha256_pid ex_no_maps 42 CMDPATH_SZ filepath_htable () = Inr ((0, Some ex_digest, Some ''/bin/sh''), tbl, ())"
    by (simp add: ex_no_maps_def sha256_pid_lines)
  have cred: "cred_pid ex_no_maps 42 () = (0, Val ex_creds)"
    using ex_daemon_cred [of 42] by (simp add: cred_pid_def ex_no_maps_def)
  have libs: "sha256_libs ex_no_maps 42 [] tbl () = Inr (-1, [], tbl, ())"
    by (simp add: sha256_libs_def ex_no_maps_def)
  have mem: "plenty (m_os ex_no_maps)"
    using ex_daemon_plenty by (simp add: ex_no_maps_def)
  from unreadable_maps_drop_digest [OF mem exe cred libs, of "[]"] show ?thesis
    by (auto simp: ex_digest_def)
qed

definition ex_proc :: procinfo where
  "ex_proc = measured 42 ex_creds ''/bin/sh'' ex_digest []"

definition ex_wire1 :: cbor_lib where
  "ex_wire1 = \<lparr>cl_load = (\<lambda>bs. if bs = [0] then Some (CArr True [CBytes True [1]])
        else if bs = [1] then Some (CMap True (proc_pairs ex_proc)) else None),
     cl_ser = (\<lambda>x. case x of CMap _ _ \<Rightarrow> [1] | _ \<Rightarrow> [0])\<rparr>"

lemma ex_wire1_faithful: "chain_faithful ex_wire1 (rev [ex_proc])"
  by (simp add: chain_faithful_def cbor_faithful_def chain_item_def ex_wire1_def)

lemma ex_daemon_ancestry: "\<exists>tbl. ancestry ex_daemon 42 filepath_htable w [ex_proc] tbl w"
proof -
  obtain tbl where exe: "sha256_pid ex_daemon 42 CMDPATH_SZ filepath_htable w =
      Inr ((0, Some ex_digest, Some ''/bin/sh''), tbl, w)"
    using ex_daemon_exe ..
  have "mycbor_sha256_binaries ex_daemon 42 filepath_htable w = Inr (Some (proc_pairs ex_proc), Val ex_creds, tbl, w)"
    unfolding ex_proc_def
    by (rule measured_pairs [OF ex_daemon_plenty exe ex_daemon_cred ex_daemon_libs])
      (simp_all add: ex_digest_def ex_creds_def)
  from ancestry.root [OF this] show ?thesis by (auto simp: ex_creds_def)
qed

theorem pack_procchain_ancestry_witness:
  "\<exists>tbl. mycbor_pack_procchain 1 ex_wire1 ex_daemon 42 filepath_htable () = Inr (Some [0], Val 1, tbl, ())"
proof -
  obtain tbl where "ancestry ex_daemon 42 filepath_htable () [ex_proc] tbl ()"
    using ex_daemon_ancestry ..
  from pack_procchain_ancestry [OF this ex_daemon_plenty, of 1 ex_wire1] show ?thesis
    by (simp add: ex_wire1_def chain_item_def)
qed

theorem pack_extract_witness:
  "\<exists>body sz tbl. mycbor_pack_procchain 1 ex_wire1 ex_daemon 42 filepath_htable () = Inr (Some body, sz, tbl, ()) \<and>
     pica_extract_pinfo ex_wire1 [] body = Inr (1, Some [ex_proc])"
proof -
  obtain tbl where tbl: "ancestry ex_daemon 42 filepath_htable () [ex_proc] tbl ()"
    using ex_daemon_ancestry ..
  have "wf_procinfo ex_proc" unfolding ex_proc_def by (rule wf_measured) (simp_all add: ex_digest_def)
  then have "\<exists>body sz. mycbor_pack_procchain 1 ex_wire1 ex_daemon 42 filepath_htable () = Inr (Some body, sz, tbl, ()) \<and>
     pica_extract_pinfo ex_wire1 [] body = Inr (int (length [ex_proc]), Some (rev [ex_proc]))"
    by (intro pack_extract [OF tbl ex_daemon_plenty _ ex_wire1_faithful]) simp_all
  then show ?thesis by auto
qed

end
