(* ===== verification/Pica_Evidence.thy ===== *)
theory Pica_Evidence
  imports Cbor_Model Tpm_Common Pica_Types
begin

text \<open>
  Verification of the TPM 2.0 evidence in \<open>src/libpica_clnt.c\<close>: unpacking of
  the message of the attester daemon (\<open>extract_tpm2evidence\<close> and its bundle),
  the signature over the quote (\<open>tpm_ecdsa_to_der\<close>, \<open>verify_tpm2quote_sig\<close>),
  the quote itself (\<open>extract_tpm2attest\<close>, \<open>check_tpm2pcrs\<close>), the application
  hash (\<open>check_apphash\<close>) and their composition \<open>pica_verify_tpm2all\<close>.
\<close>

unbundle bit_operations_syntax

section \<open>The OpenSSL calls of signature verification\<close>

text \<open>
  \<open>bn_bin2bn\<close> gives NULL on failure; \<open>sig_set0\<close> returns 1 when the signature
  object has taken over the two numbers; \<open>i2d_len\<close> and \<open>i2d\<close> are the two calls
  of \<open>i2d_ECDSA_SIG\<close>.  \<open>vf_final\<close> sees the key, digest, padding, data and signature.
\<close>

record 'k evp =
  bn_bin2bn :: "bytes \<Rightarrow> nat option"
  sig_new :: bool
  sig_set0 :: int
  i2d_len :: "nat \<Rightarrow> nat \<Rightarrow> int"
  i2d :: "nat \<Rightarrow> nat \<Rightarrow> int \<times> bytes"
  vf_ctx :: bool
  vf_init :: "u16 \<Rightarrow> 'k option \<Rightarrow> int"
  vf_padding :: "int \<Rightarrow> int"
  vf_mgf1 :: "u16 \<Rightarrow> int"
  vf_update :: "bytes \<Rightarrow> int"
  vf_final :: "'k option \<Rightarrow> u16 \<Rightarrow> int \<Rightarrow> bytes \<Rightarrow> bytes \<Rightarrow> u32"

definition TPM2_ALG_SHA1 :: u16 where "TPM2_ALG_SHA1 = 0x0004"
definition TPM2_ALG_SHA256 :: u16 where "TPM2_ALG_SHA256 = 0x000B"
definition TPM2_ALG_SHA384 :: u16 where "TPM2_ALG_SHA384 = 0x000C"
definition TPM2_ALG_SHA512 :: u16 where "TPM2_ALG_SHA512 = 0x000D"

definition RSA_PKCS1_PADDING :: int where "RSA_PKCS1_PADDING = 1"
definition RSA_PKCS1_PSS_PADDING :: int where "RSA_PKCS1_PSS_PADDING = 6"

text \<open>
  The cleanup at the error label: the two numbers and the signature object are
  freed when they are not NULL, and freeing the object frees the numbers it
  has taken over.
\<close>

definition ecdsa_cleanup :: "nat option \<Rightarrow> nat option \<Rightarrow> bool \<Rightarrow> bool \<Rightarrow> unit cres" where
  "ecdsa_cleanup r s sig taken =
     (if sig \<and> taken \<and> (r \<noteq> None \<or> s \<noteq> None) then Inl DoubleFree else Inr ())"

text \<open>The return code, the new length and the bytes stored in \<open>der\<close>.\<close>

definition ecdsa_encode :: "'k evp \<Rightarrow> nat \<Rightarrow> nat \<Rightarrow> int \<Rightarrow> int \<times> int \<times> bytes" where
  "ecdsa_encode ev r s der_len =
     (let len = i2d_len ev r s in
      if len \<le> 0 then (-1, der_len, [])
      else if len > der_len then (-1, der_len, [])
      else let (n, bs) = i2d ev r s in
        if n \<noteq> len then (-1, der_len, bs) else (0, len, bs))"

definition tpm_ecdsa_to_der :: "'k evp \<Rightarrow> bytes \<Rightarrow> bytes \<Rightarrow> int \<Rightarrow> (int \<times> int \<times> bytes) cres" where
  "tpm_ecdsa_to_der ev r_buf s_buf der_len =
     (let fail = (-1, der_len, []) in
      case bn_bin2bn ev r_buf of
        None \<Rightarrow> cbind (ecdsa_cleanup None None False False) (\<lambda>_. Inr fail)
      | Some r \<Rightarrow>
          (case bn_bin2bn ev s_buf of
             None \<Rightarrow> cbind (ecdsa_cleanup (Some r) None False False) (\<lambda>_. Inr fail)
           | Some s \<Rightarrow>
               if \<not> sig_new ev then cbind (ecdsa_cleanup (Some r) (Some s) False False) (\<lambda>_. Inr fail)
               else if sig_set0 ev \<noteq> 1 then cbind (ecdsa_cleanup (Some r) (Some s) True False) (\<lambda>_. Inr fail)
               else cbind (ecdsa_cleanup (Some r) (Some s) True True) (\<lambda>_.
                    Inr (ecdsa_encode ev r s der_len))))"

section \<open>Signature over the quote\<close>

text \<open>Hash algorithm and signature bytes by the kind of signature; \<open>None\<close> is the error exit.\<close>

definition sig_parts :: "'k evp \<Rightarrow> signature \<Rightarrow> (u16 \<times> bytes) option cres" where
  "sig_parts ev sig =
     (case sig of
        SigRsaSsa h bs \<Rightarrow> Inr (Some (h, bs))
      | SigRsaPss h bs \<Rightarrow> Inr (Some (h, bs))
      | SigEcdsa h r s \<Rightarrow>
          cbind (tpm_ecdsa_to_der ev r s 1024) (\<lambda>(rc, der_len, der).
          Inr (if rc \<noteq> 0 then None else Some (h, take (nat der_len) der)))
      | SigOther _ \<Rightarrow> Inr None)"

definition known_hash :: "u16 \<Rightarrow> bool" where
  "known_hash h \<longleftrightarrow> h \<in> {TPM2_ALG_SHA1, TPM2_ALG_SHA256, TPM2_ALG_SHA384, TPM2_ALG_SHA512}"

definition sig_padding :: "signature \<Rightarrow> int" where
  "sig_padding sig = (case sig of SigRsaSsa _ _ \<Rightarrow> RSA_PKCS1_PADDING | SigRsaPss _ _ \<Rightarrow> RSA_PKCS1_PSS_PADDING
     | _ \<Rightarrow> 0)"

definition padding_ok :: "'k evp \<Rightarrow> signature \<Rightarrow> u16 \<Rightarrow> bool" where
  "padding_ok ev sig h =
     (case sig of
        SigRsaSsa _ _ \<Rightarrow> 0 < vf_padding ev RSA_PKCS1_PADDING
      | SigRsaPss _ _ \<Rightarrow> 0 < vf_padding ev RSA_PKCS1_PSS_PADDING \<and> 0 < vf_mgf1 ev h
      | _ \<Rightarrow> True)"

definition verify_tpm2quote_sig :: "'k evp \<Rightarrow> bytes \<Rightarrow> signature \<Rightarrow> 'k option \<Rightarrow> int cres" where
  "verify_tpm2quote_sig ev s_quoted sig ak_pubkey =
     cbind (sig_parts ev sig) (\<lambda>parts.
     case parts of
       None \<Rightarrow> Inr (-1)
     | Some (hash_alg, sig_data) \<Rightarrow>
         if \<not> known_hash hash_alg then Inr (-1)
         else if \<not> vf_ctx ev then Inr (-1)
         else if vf_init ev hash_alg ak_pubkey \<noteq> 1 then Inr (-1)
         else if \<not> padding_ok ev sig hash_alg then Inr (-1)
         else if vf_update ev s_quoted \<noteq> 1 then Inr (-1)
         else if vf_final ev ak_pubkey hash_alg (sig_padding sig) s_quoted sig_data = 1 then Inr 0
         else Inr (-1))"

section \<open>The quote\<close>

text \<open>
  \<open>rc\<close> holds the TSS2 code when the unmarshalling fails, and 0 when the
  structure is not a quote; neither is negative.
\<close>

definition extract_tpm2attest :: "tss \<Rightarrow> bytes \<Rightarrow> int \<times> attest slot" where
  "extract_tpm2attest ts s_quoted =
     (let (rc, at) = un_attest ts s_quoted in
      if rc \<noteq> 0 then (sint rc, Garbage)
      else if at_type at \<noteq> TPM2_ST_ATTEST_QUOTE then (0, Val at)
      else (0, Val at))"

definition check_tpm2pcrs :: "attest slot \<Rightarrow> attest slot \<Rightarrow> int cres" where
  "check_tpm2pcrs tpm_atst reg_atst =
     cbind (rd reg_atst) (\<lambda>reg. cbind (rd tpm_atst) (\<lambda>peer.
     comp_pcr_selection (at_pcrs reg) (at_pcrs peer)))"

section \<open>The evidence message\<close>

record evidence =
  ev_quote :: "bytes option"
  ev_apphash :: bbuf
  ev_sig :: "signature slot"
  ev_pica :: "bytes option"

definition evidence_init :: evidence where
  "evidence_init = \<lparr>ev_quote = None, ev_apphash = garbage32, ev_sig = Garbage, ev_pica = None\<rparr>"

text \<open>
  One pair of the bundle: \<open>None\<close> is the jump to the error exit, which returns
  0.  The key is read before its type is tested.
\<close>

definition bundle_pair :: "tss \<Rightarrow> int \<Rightarrow> evidence \<Rightarrow> cbor \<times> cbor \<Rightarrow> (int \<times> evidence) option cres" where
  "bundle_pair ts rc e kv =
     cbind (cbor_string (Some (fst kv))) (\<lambda>cp.
     cbind (cbor_isa_string (Some (fst kv))) (\<lambda>istr.
     if \<not> istr then Inr None
     else if key_matches ''quote'' cp then
       cbind (cbor_bytestring (Some (snd kv))) (\<lambda>q.
       Inr (Some (rc OR EXTRACT_TPM2_QUTE, e\<lparr>ev_quote := Some q\<rparr>)))
     else if key_matches ''sign'' cp then
       cbind (cbor_bytestring (Some (snd kv))) (\<lambda>body.
       let (trc, sig) = un_signature ts body
       in Inr (Some (rc OR EXTRACT_TPM2_SIGN, e\<lparr>ev_sig := if trc = 0 then Val sig else Garbage\<rparr>)))
     else if key_matches ''app-hash'' cp then
       cbind (cbor_bytestring (Some (snd kv))) (\<lambda>body.
       if length body > 32 then Inl OutOfBounds
       else Inr (Some (rc OR EXTRACT_TPM2_APHASH,
              e\<lparr>ev_apphash := map Val body @ drop (length body) (ev_apphash e)\<rparr>)))
     else Inr None))"

fun bundle_loop :: "tss \<Rightarrow> int \<Rightarrow> evidence \<Rightarrow> (cbor \<times> cbor) list \<Rightarrow> (int \<times> evidence) cres" where
  "bundle_loop ts rc e [] = Inr (rc, e)"
| "bundle_loop ts rc e (kv # kvs) =
     cbind (bundle_pair ts rc e kv) (\<lambda>r.
     case r of None \<Rightarrow> Inr (0, e) | Some (rc, e) \<Rightarrow> bundle_loop ts rc e kvs)"

definition extract_tpm2evidence_bundle ::
    "cbor_lib \<Rightarrow> tss \<Rightarrow> cbor option \<Rightarrow> evidence \<Rightarrow> (int \<times> evidence) cres" where
  "extract_tpm2evidence_bundle cl ts item e =
     (case item of None \<Rightarrow> Inr (0, e)
      | Some _ \<Rightarrow>
          cbind (unpack_sercbor cl item) (\<lambda>cmap.
          case cmap of None \<Rightarrow> Inr (0, e)
          | Some _ \<Rightarrow>
              cbind (cbor_isa_map cmap) (\<lambda>ismap.
              if \<not> ismap then Inr (0, e)
              else cbind (cbor_map_pairs cmap) (bundle_loop ts 0 e))))"

fun evidence_loop ::
    "cbor_lib \<Rightarrow> tss \<Rightarrow> int \<Rightarrow> evidence \<Rightarrow> (cbor \<times> cbor) list \<Rightarrow> (int \<times> evidence) cres" where
  "evidence_loop cl ts rc e [] = Inr (rc, e)"
| "evidence_loop cl ts rc e ((key, val) # kvs) =
     cbind (cbor_string (Some key)) (\<lambda>cp.
     cbind (cbor_isa_string (Some key)) (\<lambda>istr.
     if istr then
       if key_matches ''tpm2_quote'' cp then
         cbind (extract_tpm2evidence_bundle cl ts (Some val) e) (\<lambda>(brc, e).
         evidence_loop cl ts (rc OR brc) e kvs)
       else if key_matches ''pica'' cp then
         cbind (cbor_bytestring (Some val)) (\<lambda>bdy.
         evidence_loop cl ts rc (e\<lparr>ev_pica := Some bdy\<rparr>) kvs)
       else evidence_loop cl ts rc e kvs
     else evidence_loop cl ts rc e kvs))"

definition extract_tpm2evidence :: "cbor_lib \<Rightarrow> tss \<Rightarrow> bytes \<Rightarrow> (int \<times> evidence) cres" where
  "extract_tpm2evidence cl ts msg =
     (case cl_load cl msg of
        None \<Rightarrow> Inr (0, evidence_init)
      | Some cmap \<Rightarrow>
          cbind (cbor_isa_map (Some cmap)) (\<lambda>ismap.
          if \<not> ismap then Inr (0, evidence_init)
          else cbind (cbor_map_pairs (Some cmap)) (\<lambda>ps.
            if length ps \<noteq> 2 then Inr (0, evidence_init)
            else evidence_loop cl ts 0 evidence_init ps)))"

section \<open>The application hash\<close>

text \<open>
  \<open>picahash := H (H (picabody) || nonce)\<close> must equal both the extra data of
  the quote and the claimed hash.  Only a negative result of the hash function
  is taken for an error; a match, and an undetected failure with a match, set 0.
\<close>

definition check_apphash ::
    "(bytes \<Rightarrow> bytes) \<Rightarrow> mdsteps \<Rightarrow> bytes option \<Rightarrow> bytes \<Rightarrow> bbuf \<Rightarrow> bytes \<Rightarrow> int cres" where
  "check_apphash sha ms picabody nonce apphash udata =
     (let hash = sha (case picabody of None \<Rightarrow> [] | Some b \<Rightarrow> b) in
      cbind (hash_extend_sha256 sha ms hash nonce) (\<lambda>(rc, picahash).
      if rc < 0 then Inr rc
      else
        cbind (buf_get picahash 0 32) (\<lambda>ph.
        cbind (memcmp_eq ph udata 32) (\<lambda>eq_udata.
        if \<not> eq_udata then Inr rc
        else cbind (buf_get apphash 0 32) (\<lambda>ah. Inr (if ah = ph then 0 else rc))))))"

section \<open>The whole verification\<close>

record 'k crypto =
  cr_sha256 :: "bytes \<Rightarrow> bytes"
  cr_ms :: mdsteps
  cr_evp :: "'k evp"
  cr_pem :: "bytes \<Rightarrow> 'k option"

text \<open>
  The flags returned, and the PICA body stored for the caller (\<open>Garbage\<close> when
  the caller's variable is left as it was).
\<close>

definition pica_verify_tpm2all ::
    "cbor_lib \<Rightarrow> tss \<Rightarrow> 'k crypto \<Rightarrow> 'w fileops \<Rightarrow> bytes \<Rightarrow> bytes \<Rightarrow> bool \<Rightarrow> 'w \<Rightarrow>
     ((int \<times> bytes option slot) \<times> 'w) cres" where
  "pica_verify_tpm2all cl ts cr fo msg nonce want_body w =
     cbind (extract_tpm2evidence cl ts msg) (\<lambda>(rc, e).
     if \<not> IS_EXTRACT_TPM2_ALL rc then Inr ((rc, Garbage), w)
     else
       cbind (read_pubkey (cr_pem cr) fo ''ak_pub.pem'' None w) (\<lambda>((trc, ak_pubkey), w).
       if trc < 0 then Inr ((rc, Garbage), w)
       else
         cbind (deref (ev_quote e)) (\<lambda>quote. cbind (rd (ev_sig e)) (\<lambda>tpm_sig.
         cbind (verify_tpm2quote_sig (cr_evp cr) quote tpm_sig ak_pubkey) (\<lambda>trc.
         if trc < 0 then Inr ((rc, Garbage), w)
         else
           let rc = VERIFY_TPM2_FRESH; (trc, tpm_atst) = extract_tpm2attest ts quote in
           if trc < 0 then Inr ((rc, Garbage), w)
           else
             cbind (read_tpm2attest ts fo ''reg_quote.bin'' w) (\<lambda>((trc, reg_atst), w).
             if trc < 0 then Inr ((rc, Garbage), w)
             else
               cbind (check_tpm2pcrs tpm_atst reg_atst) (\<lambda>trc.
               if trc < 0 then Inr ((rc, Garbage), w)
               else
                 cbind (rd tpm_atst) (\<lambda>at.
                 cbind (check_apphash (cr_sha256 cr) (cr_ms cr) (ev_pica e) nonce (ev_apphash e) (at_extra at))
                   (\<lambda>trc.
                 Inr ((if trc = 0 then rc OR VERIFY_TPM2_QUOTE else rc,
                       if want_body then Val (ev_pica e) else Garbage), w))))))))))"

section \<open>Unpacking messages\<close>

lemma key_matches_self [simp]:
  "key_matches ''quote'' (to_bytes ''quote'')" "key_matches ''sign'' (to_bytes ''sign'')"
  "key_matches ''app-hash'' (to_bytes ''app-hash'')" "key_matches ''tpm2_quote'' (to_bytes ''tpm2_quote'')"
  "key_matches ''pica'' (to_bytes ''pica'')"
  by (simp_all only: key_matches_to_bytes strncmp_eq_refl)

lemma key_matches_other [simp]:
  "\<not> key_matches ''quote'' (to_bytes ''sign'')" "\<not> key_matches ''quote'' (to_bytes ''app-hash'')"
  "\<not> key_matches ''sign'' (to_bytes ''app-hash'')" "\<not> key_matches ''tpm2_quote'' (to_bytes ''pica'')"
  by (simp_all add: key_matches_to_bytes)

definition text_key :: "string \<Rightarrow> cbor" where
  "text_key s = CText True (to_bytes s)"

lemma cbor_text_key [simp]:
  "cbor_string (Some (text_key s)) = Inr (to_bytes s)" "cbor_isa_string (Some (text_key s)) = Inr True"
  by (simp_all add: text_key_def)

text \<open>A message as the daemon builds it, from the pairs of its quote bundle.\<close>

definition bundle_item :: "(cbor \<times> cbor) list \<Rightarrow> cbor" where
  "bundle_item kvs = CMap True kvs"

definition message_item :: "cbor_lib \<Rightarrow> (cbor \<times> cbor) list \<Rightarrow> bytes \<Rightarrow> cbor" where
  "message_item cl kvs body = CMap True
     [(text_key ''tpm2_quote'', CBytes True (cl_ser cl (bundle_item kvs))),
      (text_key ''pica'', CBytes True body)]"

definition message_faithful :: "cbor_lib \<Rightarrow> (cbor \<times> cbor) list \<Rightarrow> bytes \<Rightarrow> bool" where
  "message_faithful cl kvs body \<longleftrightarrow>
     cbor_faithful cl (bundle_item kvs) \<and> cbor_faithful cl (message_item cl kvs body)"

lemma extract_message:
  assumes "message_faithful cl kvs body" "bundle_loop ts 0 evidence_init kvs = Inr (rc, e)"
  shows "extract_tpm2evidence cl ts (cl_ser cl (message_item cl kvs body)) = Inr (rc, e\<lparr>ev_pica := Some body\<rparr>)"
proof -
  have "unpack_sercbor cl (Some (CBytes True (cl_ser cl (bundle_item kvs)))) = Inr (Some (CMap True kvs))"
    using unpack_sercbor_ser assms(1) by (simp add: message_faithful_def bundle_item_def)
  then have "extract_tpm2evidence_bundle cl ts (Some (CBytes True (cl_ser cl (bundle_item kvs)))) evidence_init
      = Inr (rc, e)"
    using assms(2) by (simp add: extract_tpm2evidence_bundle_def)
  moreover have "cl_load cl (cl_ser cl (message_item cl kvs body)) = Some (message_item cl kvs body)"
    using assms(1) by (simp add: message_faithful_def cbor_faithful_def)
  ultimately show ?thesis
    by (simp add: extract_tpm2evidence_def) (simp add: message_item_def)
qed

section \<open>The application hash is not checked\<close>

lemma buf_get_all: "length xs = n \<Longrightarrow> buf_get (map Val xs) 0 n = Inr xs"
  by (simp add: buf_get_Val)

lemma check_apphash_zero:
  assumes "ms = ms_good" "\<forall>x. length (sha x) = 32" "length nonce = 32" "length ah = 32" "32 \<le> length udata"
  shows "check_apphash sha ms body nonce (map Val ah) udata = Inr 0"
  using assms by (simp add: check_apphash_def hash_extend_good buf_get_all memcmp_eq_def Let_def)

text \<open>
  \<open>check_apphash\<close> means to compare the hash of the measured data and the
  nonce with the claimed hash and with the extra data of the quote.  When the
  digest calls succeed it returns 0, success, whatever these four are: the
  result variable already holds the 0 of \<open>hash_extend_sha256\<close>.
\<close>

theorem check_apphash_vacuous:
  assumes "\<forall>x. length (sha x) = 32" "length nonce = 32" "length ah = 32" "32 \<le> length udata"
  shows "check_apphash sha ms_good body nonce (map Val ah) udata = Inr 0"
  by (rule check_apphash_zero) (use assms in auto)

text \<open>The claimed hash, the nonce and the extra data all disagree.\<close>

definition ex_sha :: "bytes \<Rightarrow> bytes" where
  "ex_sha x = (of_nat (length x) + (case x of [] \<Rightarrow> 0 | b # _ \<Rightarrow> b)) # replicate 31 7"

theorem check_apphash_vacuous_witness:
  "check_apphash ex_sha ms_good (Some [1, 2]) (replicate 32 3) (map Val (replicate 32 4)) (replicate 64 5) = Inr 0"
  by (rule check_apphash_vacuous) (simp_all add: ex_sha_def)

text \<open>
  C18.  The nonce of the verifier has no influence: a message that carries a
  full application hash is judged alike for every two nonces, so a recorded
  message passes again in a later session.
\<close>

theorem nonce_never_checked:
  assumes "cr_ms cr = ms_good" "\<forall>x. length (cr_sha256 cr x) = 32"
    and "\<forall>bs. 32 \<le> length (at_extra (snd (un_attest ts bs)))"
    and "extract_tpm2evidence cl ts msg = Inr (rc, e)" "ev_apphash e = map Val ah" "length ah = 32"
    and "length nonce = 32" "length nonce' = 32"
  shows "pica_verify_tpm2all cl ts cr fo msg nonce want w = pica_verify_tpm2all cl ts cr fo msg nonce' want w"
proof -
  have vac: "check_apphash (cr_sha256 cr) (cr_ms cr) (ev_pica e) n (ev_apphash e) (at_extra at) = Inr 0"
    if "rd (snd (extract_tpm2attest ts q)) = Inr at" "length n = 32" for q at n
  proof -
    have "at = snd (un_attest ts q)" using that(1)
      by (auto simp: extract_tpm2attest_def Let_def split: prod.splits if_splits)
    then have "32 \<le> length (at_extra at)" using assms(3) by simp
    with that(2) show ?thesis
      unfolding assms(1,5) by (intro check_apphash_zero) (simp_all add: assms)
  qed
  show ?thesis
    unfolding pica_verify_tpm2all_def assms(4) cbind_Inr prod.case Let_def case_prod_beta
    by (intro if_cong cbind_cong refl) (simp add: vac assms(7,8))
qed

text \<open>A library that knows one message, and a system that has a key and a registered quote.\<close>

definition ex_cl :: "(cbor \<times> cbor) list \<Rightarrow> bytes \<Rightarrow> cbor_lib" where
  "ex_cl kvs body = \<lparr>
     cl_load = (\<lambda>bs. if bs = [2] then Some (bundle_item kvs)
        else if bs = [1] then Some (CMap True [(text_key ''tpm2_quote'', CBytes True [2]), (text_key ''pica'', CBytes True body)])
        else None),
     cl_ser = (\<lambda>x. if x = bundle_item kvs then [2] else [1])\<rparr>"

lemma ex_cl_faithful: "length kvs \<noteq> 2 \<Longrightarrow> message_faithful (ex_cl kvs body) kvs body"
  by (auto simp: message_faithful_def cbor_faithful_def ex_cl_def message_item_def bundle_item_def)

definition ex_attest :: attest where
  "ex_attest = \<lparr>at_type = TPM2_ST_ATTEST_QUOTE, at_extra = replicate 64 0,
     at_pcrs = \<lparr>pl_count = 1, pl_sel = [\<lparr>ps_hash = 11, ps_sizeof = 3, ps_select = [1, 2, 3, 0]\<rparr>]\<rparr>,
     at_pcr_digest = replicate 32 9\<rparr>"

definition ex_tss :: tss where
  "ex_tss = \<lparr>un_attest = (\<lambda>_. (0, ex_attest)), un_signature = (\<lambda>bs. (0, SigRsaSsa TPM2_ALG_SHA256 bs))\<rparr>"

text \<open>The signature check accepts exactly one signature byte string.\<close>

definition ex_crypto :: "bytes \<Rightarrow> unit crypto" where
  "ex_crypto good = \<lparr>cr_sha256 = ex_sha, cr_ms = ms_good,
     cr_evp = \<lparr>bn_bin2bn = (\<lambda>bs. Some (length bs)), sig_new = True, sig_set0 = 1, i2d_len = (\<lambda>_ _. 8),
       i2d = (\<lambda>_ _. (8, replicate 8 0)), vf_ctx = True, vf_init = (\<lambda>_ _. 1), vf_padding = (\<lambda>_. 1),
       vf_mgf1 = (\<lambda>_. 1), vf_update = (\<lambda>_. 1), vf_final = (\<lambda>_ _ _ _ sg. if sg = good then 1 else 0)\<rparr>,
     cr_pem = (\<lambda>_. Some ())\<rparr>"

definition ex_fileops :: "unit fileops" where
  "ex_fileops = \<lparr>fo_read_file = (\<lambda>_ _ w. ((Val 3, [0, 0, 0]), w)), fo_size = (\<lambda>_ w. ((Val 3, Val 3), w)),
     fo_read_close = (\<lambda>_ _ w. ((Val 3, [0, 0, 0]), w))\<rparr>"

definition ex_bundle :: "bytes \<Rightarrow> bytes \<Rightarrow> bytes \<Rightarrow> (cbor \<times> cbor) list" where
  "ex_bundle q sg h = [(text_key ''quote'', CBytes True q), (text_key ''sign'', CBytes True sg),
     (text_key ''app-hash'', CBytes True h)]"

lemmas ex_verify_defs = ex_cl_def ex_tss_def ex_attest_def ex_crypto_def ex_fileops_def

text \<open>The three pairs of a bundle.\<close>

lemma bundle_pair_quote:
  "bundle_pair ts rc e (text_key ''quote'', CBytes True q) =
     Inr (Some (rc OR EXTRACT_TPM2_QUTE, e\<lparr>ev_quote := Some q\<rparr>))"
  by (simp add: bundle_pair_def)

lemma bundle_pair_sign:
  "bundle_pair ts rc e (text_key ''sign'', CBytes True sg) =
     Inr (Some (rc OR EXTRACT_TPM2_SIGN,
       e\<lparr>ev_sig := if fst (un_signature ts sg) = 0 then Val (snd (un_signature ts sg)) else Garbage\<rparr>))"
  by (simp add: bundle_pair_def Let_def case_prod_beta)

lemma bundle_pair_apphash:
  "length h \<le> 32 \<Longrightarrow> bundle_pair ts rc e (text_key ''app-hash'', CBytes True h) =
     Inr (Some (rc OR EXTRACT_TPM2_APHASH, e\<lparr>ev_apphash := map Val h @ drop (length h) (ev_apphash e)\<rparr>))"
  by (simp add: bundle_pair_def)

lemmas bundle_pairs = bundle_pair_quote bundle_pair_sign bundle_pair_apphash

text \<open>What a full bundle leaves behind.\<close>

definition full_evidence :: "tss \<Rightarrow> bytes \<Rightarrow> bytes \<Rightarrow> bytes \<Rightarrow> evidence" where
  "full_evidence ts q sg h = \<lparr>ev_quote = Some q, ev_apphash = map Val h,
     ev_sig = (if fst (un_signature ts sg) = 0 then Val (snd (un_signature ts sg)) else Garbage), ev_pica = None\<rparr>"

definition EXTRACT_ALL :: int where
  "EXTRACT_ALL = EXTRACT_TPM2_QUTE OR EXTRACT_TPM2_SIGN OR EXTRACT_TPM2_APHASH"

lemma EXTRACT_ALL_val: "EXTRACT_ALL = 7" "IS_EXTRACT_TPM2_ALL 7"
  by (simp_all add: EXTRACT_ALL_def IS_EXTRACT_TPM2_ALL_def flag_simps)

lemma bundle_loop_full:
  "length h = 32 \<Longrightarrow> bundle_loop ts 0 evidence_init (ex_bundle q sg h) = Inr (7, full_evidence ts q sg h)"
  by (simp add: ex_bundle_def bundle_pairs evidence_init_def full_evidence_def flag_simps)

lemma ex_extract:
  "extract_tpm2evidence (ex_cl (ex_bundle q sg (replicate 32 7)) body) ex_tss [1]
     = Inr (EXTRACT_ALL, (full_evidence ex_tss q sg (replicate 32 7))\<lparr>ev_pica := Some body\<rparr>)"
proof -
  let ?b = "ex_bundle q sg (replicate 32 7)"
  have f: "message_faithful (ex_cl ?b body) ?b body" by (rule ex_cl_faithful) (simp add: ex_bundle_def)
  have "cl_ser (ex_cl ?b body) (message_item (ex_cl ?b body) ?b body) = [1]"
    by (simp add: ex_cl_def message_item_def bundle_item_def ex_bundle_def)
  then show ?thesis
    using extract_message [OF f, of ex_tss] bundle_loop_full [of "replicate 32 7" ex_tss q sg]
    by (simp add: EXTRACT_ALL_val)
qed

theorem nonce_never_checked_witness:
  "pica_verify_tpm2all (ex_cl (ex_bundle [5] [6] (replicate 32 7)) [8]) ex_tss (ex_crypto [6]) ex_fileops [1]
      (replicate 32 1) True () =
   pica_verify_tpm2all (ex_cl (ex_bundle [5] [6] (replicate 32 7)) [8]) ex_tss (ex_crypto [6]) ex_fileops [1]
      (replicate 32 2) True ()"
  by (rule nonce_never_checked [OF _ _ _ ex_extract, where ah = "replicate 32 7"])
    (simp_all add: ex_verify_defs ex_sha_def full_evidence_def)

section \<open>Failures are reported as verified flags\<close>

text \<open>
  A message without an application hash, with any quote and any
  signature, makes \<open>pica_verify_tpm2all\<close> return exactly
  \<open>VERIFY_TPM2_QUOTE | VERIFY_TPM2_FRESH\<close>, the result of a successful
  verification; no key is read and no signature is checked.
\<close>

theorem forged_without_apphash:
  assumes "message_faithful cl [(text_key ''quote'', CBytes True q), (text_key ''sign'', CBytes True sg)] body"
  shows "pica_verify_tpm2all cl ts cr fo
      (cl_ser cl (message_item cl [(text_key ''quote'', CBytes True q), (text_key ''sign'', CBytes True sg)] body))
      nonce want w
    = Inr ((VERIFY_TPM2_QUOTE OR VERIFY_TPM2_FRESH, Garbage), w)"
proof -
  have "\<exists>e. bundle_loop ts 0 evidence_init [(text_key ''quote'', CBytes True q), (text_key ''sign'', CBytes True sg)]
      = Inr (3, e)"
    by (simp add: bundle_pairs flag_simps)
  then obtain e where "bundle_loop ts 0 evidence_init
      [(text_key ''quote'', CBytes True q), (text_key ''sign'', CBytes True sg)] = Inr (3, e)" ..
  from extract_message [OF assms this] show ?thesis
    by (simp add: pica_verify_tpm2all_def IS_EXTRACT_TPM2_ALL_def flag_simps)
qed

theorem forged_without_apphash_witness:
  "\<exists>cl q sg. pica_verify_tpm2all cl ex_tss (ex_crypto [6]) ex_fileops
      (cl_ser cl (message_item cl [(text_key ''quote'', CBytes True q), (text_key ''sign'', CBytes True sg)] [8]))
      (replicate 32 1) True () = Inr ((VERIFY_TPM2_QUOTE OR VERIFY_TPM2_FRESH, Garbage), ())"
proof -
  let ?k = "[(text_key ''quote'', CBytes True [0::byte]), (text_key ''sign'', CBytes True [0])]"
  let ?cl = "\<lparr>cl_load = (\<lambda>bs. if bs = [2] then Some (bundle_item ?k)
      else Some (CMap True [(text_key ''tpm2_quote'', CBytes True [2]), (text_key ''pica'', CBytes True [8])])),
      cl_ser = (\<lambda>x. if x = bundle_item ?k then [2] else [1])\<rparr>"
  have "message_faithful ?cl ?k [8]"
    by (simp add: message_faithful_def cbor_faithful_def message_item_def bundle_item_def text_key_def to_bytes_def)
  from forged_without_apphash [OF this, of ex_tss "ex_crypto [6]" ex_fileops "replicate 32 1" True "()"]
  show ?thesis by blast
qed

text \<open>
  When the signature over the quote does not verify, the flags returned
  are the extraction bits, and read as verification flags these say that the
  quote, its freshness and the binaries are verified.
\<close>

theorem bad_signature_flags:
  assumes "extract_tpm2evidence cl ts msg = Inr (EXTRACT_ALL, e)" "ev_quote e = Some q" "ev_sig e = Val sig"
    and "read_pubkey (cr_pem cr) fo ''ak_pub.pem'' None w = Inr ((0, key), w1)"
    and "verify_tpm2quote_sig (cr_evp cr) q sig key = Inr (-1)"
  shows "pica_verify_tpm2all cl ts cr fo msg nonce want w =
     Inr ((VERIFY_TPM2_QUOTE OR VERIFY_TPM2_FRESH OR VERIFY_PICA_BINARIES, Garbage), w1)"
proof -
  have "VERIFY_TPM2_QUOTE OR VERIFY_TPM2_FRESH OR VERIFY_PICA_BINARIES = EXTRACT_ALL"
    by (simp add: EXTRACT_ALL_val flag_simps)
  then show ?thesis
    using assms EXTRACT_ALL_val by (simp add: pica_verify_tpm2all_def)
qed

lemma ex_read_pubkey: "read_pubkey (cr_pem (ex_crypto g)) ex_fileops f None () = Inr ((0, Some ()), ())"
  by (simp add: read_pubkey_def ex_fileops_def ex_crypto_def)

lemma ex_tss_simps [simp]:
  "un_attest ex_tss bs = (0, ex_attest)" "un_signature ex_tss bs = (0, SigRsaSsa TPM2_ALG_SHA256 bs)"
  by (simp_all add: ex_tss_def)

lemma ex_crypto_simps [simp]: "cr_ms (ex_crypto g) = ms_good" "cr_sha256 (ex_crypto g) = ex_sha"
  by (simp_all add: ex_crypto_def)

lemma ex_verify_sig:
  "verify_tpm2quote_sig (cr_evp (ex_crypto g)) q (SigRsaSsa TPM2_ALG_SHA256 sg) key = Inr (if sg = g then 0 else -1)"
  by (simp add: verify_tpm2quote_sig_def sig_parts_def known_hash_def padding_ok_def ex_crypto_def)

theorem bad_signature_flags_witness:
  "pica_verify_tpm2all (ex_cl (ex_bundle [5] [9] (replicate 32 7)) [8]) ex_tss (ex_crypto [6]) ex_fileops [1]
      (replicate 32 1) True ()
    = Inr ((VERIFY_TPM2_QUOTE OR VERIFY_TPM2_FRESH OR VERIFY_PICA_BINARIES, Garbage), ())"
proof (rule bad_signature_flags [OF ex_extract])
  show "verify_tpm2quote_sig (cr_evp (ex_crypto [6])) [5] (SigRsaSsa TPM2_ALG_SHA256 [9]) (Some ()) = Inr (-1)"
    by (simp add: ex_verify_sig)
  show "read_pubkey (cr_pem (ex_crypto [6])) ex_fileops ''ak_pub.pem'' None () = Inr ((0, Some ()), ())"
    by (rule ex_read_pubkey)
qed (simp_all add: full_evidence_def ex_tss_def)

section \<open>What a stored body guarantees\<close>

lemma comp_pcr_loop_result: "comp_pcr_loop as bs is = Inr t \<Longrightarrow> t = 0 \<or> t = -1"
  by (induction as bs "is" rule: comp_pcr_loop.induct) (auto simp: cbind_eq_Inr split: if_splits)

lemma check_tpm2pcrs_zero:
  "check_tpm2pcrs (Val at) reg = Inr t \<Longrightarrow> \<not> t < 0 \<Longrightarrow>
     \<exists>r. reg = Val r \<and> comp_pcr_selection (at_pcrs r) (at_pcrs at) = Inr 0"
  by (cases reg) (auto simp: check_tpm2pcrs_def comp_pcr_selection_def dest!: comp_pcr_loop_result split: if_splits)

lemma fresh_flags:
  "has_flags (VERIFY_TPM2_FRESH OR VERIFY_TPM2_QUOTE) VERIFY_TPM2_FRESH" "has_flags VERIFY_TPM2_FRESH VERIFY_TPM2_FRESH"
  by (simp_all add: has_flags_def flag_simps)

text \<open>A successful check has seen OpenSSL accept an RSA signature over the quote.\<close>

definition rsa_accepted :: "'k evp \<Rightarrow> 'k option \<Rightarrow> bytes \<Rightarrow> signature \<Rightarrow> bool" where
  "rsa_accepted ev key q sig \<longleftrightarrow>
     (case sig of
        SigRsaSsa h sg \<Rightarrow> known_hash h \<and> vf_final ev key h RSA_PKCS1_PADDING q sg = 1
      | SigRsaPss h sg \<Rightarrow> known_hash h \<and> vf_final ev key h RSA_PKCS1_PSS_PADDING q sg = 1
      | _ \<Rightarrow> False)"

lemma ecdsa_never_ok: "tpm_ecdsa_to_der ev r s n = Inr (rc, x) \<Longrightarrow> rc = -1"
  by (auto simp: tpm_ecdsa_to_der_def ecdsa_cleanup_def Let_def cbind_eq_Inr split: option.splits if_splits)

lemma verify_sig_accepted:
  assumes "verify_tpm2quote_sig ev q sig key = Inr t" "\<not> t < 0"
  shows "rsa_accepted ev key q sig"
  using assms
  by (cases sig)
    (auto simp: verify_tpm2quote_sig_def sig_parts_def rsa_accepted_def sig_padding_def cbind_eq_Inr
      dest: ecdsa_never_ok split: if_splits)

lemma full_message_verified:
  assumes msg: "extract_tpm2evidence cl ts msg = Inr (EXTRACT_ALL, e)" "ev_quote e = Some q" "ev_sig e = Val sig"
      "ev_apphash e = map Val ah" "length ah = 32" "ev_pica e = Some body"
    and key: "read_pubkey (cr_pem cr) fo ''ak_pub.pem'' None w = Inr ((0, key), w1)"
    and sig: "verify_tpm2quote_sig (cr_evp cr) q sig key = Inr 0"
    and att: "un_attest ts q = (0, at)" "32 \<le> length (at_extra at)"
    and reg: "read_tpm2attest ts fo ''reg_quote.bin'' w1 = Inr ((0, Val r), w2)"
    and pcrs: "pcr_wf (at_pcrs r)" "pcr_wf (at_pcrs at)" "pcr_view (at_pcrs r) = pcr_view (at_pcrs at)"
    and hash: "cr_ms cr = ms_good" "\<forall>x. length (cr_sha256 cr x) = 32" "length nonce = 32"
  shows "pica_verify_tpm2all cl ts cr fo msg nonce True w =
     Inr ((VERIFY_TPM2_FRESH OR VERIFY_TPM2_QUOTE, Val (Some body)), w2)"
proof -
  have "check_apphash (cr_sha256 cr) (cr_ms cr) (Some body) nonce (map Val ah) (at_extra at) = Inr 0"
    using msg(5) att(2) hash by (intro check_apphash_zero) simp_all
  moreover have "check_tpm2pcrs (Val at) (Val r) = Inr 0"
    using pcrs by (simp add: check_tpm2pcrs_def comp_pcr_selection_eq)
  ultimately show ?thesis
    using msg key sig att reg EXTRACT_ALL_val
    by (simp add: pica_verify_tpm2all_def extract_tpm2attest_def)
qed


lemma stored_body_signed:
  assumes "pica_verify_tpm2all cl ts cr fo msg nonce want w = Inr ((rc, Val body), w')"
  shows "\<exists>rc0 e q sig key trc w1 at reg.
     extract_tpm2evidence cl ts msg = Inr (rc0, e) \<and> ev_quote e = Some q \<and> ev_sig e = Val sig \<and> ev_pica e = body \<and>
     read_pubkey (cr_pem cr) fo ''ak_pub.pem'' None w = Inr ((trc, key), w1) \<and>
     rsa_accepted (cr_evp cr) key q sig \<and>
     snd (extract_tpm2attest ts q) = Val at \<and>
     (\<exists>trc2. read_tpm2attest ts fo ''reg_quote.bin'' w1 = Inr ((trc2, Val reg), w')) \<and>
     comp_pcr_selection (at_pcrs reg) (at_pcrs at) = Inr 0 \<and> has_flags rc VERIFY_TPM2_FRESH"
  using assms
  by (clarsimp simp: pica_verify_tpm2all_def cbind_eq_Inr Let_def case_prod_beta
      simp del: split_paired_Ex split: if_split_asm)
    (auto dest: verify_sig_accepted check_tpm2pcrs_zero simp: fresh_flags)

lemma verify_flags:
  assumes "pica_verify_tpm2all cl ts cr fo msg nonce want w = Inr ((rc, Val body), w')"
  shows "rc = VERIFY_TPM2_FRESH OR VERIFY_TPM2_QUOTE \<or> rc = VERIFY_TPM2_FRESH"
  using assms
  by (clarsimp simp: pica_verify_tpm2all_def cbind_eq_Inr Let_def case_prod_beta
      simp del: split_paired_Ex split: if_split_asm)

text \<open>
  C17.  \<open>pica_verify_tpm2all\<close> hands a measurement body to its caller only after
  OpenSSL has accepted an RSA signature by the key of \<open>ak_pub.pem\<close> over the
  quote of the message, and the PCRs the quote selects are those of the
  registered quote; the flags then contain \<open>VERIFY_TPM2_FRESH\<close>.
\<close>

theorem body_only_if_signed:
  assumes "pica_verify_tpm2all cl ts cr fo msg nonce want w = Inr ((rc, Val body), w')"
  shows "\<exists>rc0 e q sig key trc w1 at reg.
     extract_tpm2evidence cl ts msg = Inr (rc0, e) \<and> ev_quote e = Some q \<and> ev_sig e = Val sig \<and> ev_pica e = body \<and>
     read_pubkey (cr_pem cr) fo ''ak_pub.pem'' None w = Inr ((trc, key), w1) \<and>
     rsa_accepted (cr_evp cr) key q sig \<and>
     snd (extract_tpm2attest ts q) = Val at \<and>
     (\<exists>trc2. read_tpm2attest ts fo ''reg_quote.bin'' w1 = Inr ((trc2, Val reg), w')) \<and>
     comp_pcr_selection (at_pcrs reg) (at_pcrs at) = Inr 0 \<and> has_flags rc VERIFY_TPM2_FRESH"
  by (rule stored_body_signed) fact

theorem body_only_if_signed_witness:
  "pica_verify_tpm2all (ex_cl (ex_bundle [5] [6] (replicate 32 7)) [8]) ex_tss (ex_crypto [6]) ex_fileops [1]
       (replicate 32 1) True () = Inr ((VERIFY_TPM2_FRESH OR VERIFY_TPM2_QUOTE, Val (Some [8])), ()) \<and>
     rsa_accepted (cr_evp (ex_crypto [6])) (Some ()) [5] (SigRsaSsa TPM2_ALG_SHA256 [6])"
proof -
  have run: "pica_verify_tpm2all (ex_cl (ex_bundle [5] [6] (replicate 32 7)) [8]) ex_tss (ex_crypto [6]) ex_fileops [1]
      (replicate 32 1) True () = Inr ((VERIFY_TPM2_FRESH OR VERIFY_TPM2_QUOTE, Val (Some [8])), ())"
    by (rule full_message_verified [OF ex_extract, where sig = "SigRsaSsa TPM2_ALG_SHA256 [6]" and ah = "replicate 32 7"
          and q = "[5]" and key = "Some ()" and ?w1.0 = "()" and at = ex_attest and r = ex_attest])
      (simp_all add: ex_verify_sig ex_read_pubkey full_evidence_def ex_tss_def ex_attest_def ex_sha_def pcr_wf_def
        read_tpm2attest_def ex_fileops_def [THEN arg_cong [where f = fo_size]]
        ex_fileops_def [THEN arg_cong [where f = fo_read_close]])
  from body_only_if_signed [OF run]
  have "rsa_accepted (cr_evp (ex_crypto [6])) (Some ()) [5] (SigRsaSsa TPM2_ALG_SHA256 [6])"
    by (auto simp: ex_extract ex_read_pubkey full_evidence_def)
  with run show ?thesis by blast
qed

section \<open>ECDSA signatures\<close>

text \<open>
  No ECDSA signature can be verified: when both numbers of the signature
  convert and the signature object takes them over, as OpenSSL documents it
  does, the cleanup of \<open>tpm_ecdsa_to_der\<close> frees them a second time, whatever
  the key, the data and the signature are.
\<close>

theorem ecdsa_double_free:
  assumes "bn_bin2bn ev r \<noteq> None" "bn_bin2bn ev s \<noteq> None" "sig_new ev" "sig_set0 ev = 1"
  shows "verify_tpm2quote_sig ev q (SigEcdsa h r s) key = Inl DoubleFree"
  using assms
  by (auto simp: verify_tpm2quote_sig_def sig_parts_def tpm_ecdsa_to_der_def ecdsa_cleanup_def Let_def)

theorem ecdsa_double_free_witness:
  "verify_tpm2quote_sig (cr_evp (ex_crypto [6])) [5] (SigEcdsa TPM2_ALG_SHA256 [1, 2] [3]) (Some ()) = Inl DoubleFree"
  by (rule ecdsa_double_free) (simp_all add: ex_crypto_def)

section \<open>TSS2 error codes\<close>

text \<open>
  The error codes of the TSS2 libraries are below \<open>2 ^ 31\<close>.  As an \<open>int\<close> they
  are positive, so the callers' test for a negative result never sees them.
\<close>

lemma unmarshal_error_not_negative:
  assumes "fst (un_attest ts q) < 0x80000000"
  shows "\<not> fst (extract_tpm2attest ts q) < 0"
proof -
  let ?w = "fst (un_attest ts q)"
  have "unat ?w < 2 ^ 31" using assms by (simp add: word_less_nat_alt)
  then have "sint (word_of_nat (unat ?w) :: u32) = int (unat ?w)" by (rule sint_small_u32)
  then have "0 \<le> sint ?w" by simp
  then show ?thesis
    by (auto simp: extract_tpm2attest_def Let_def case_prod_beta)
qed

end
