(* ===== verification/Quote.thy ===== *)
theory Quote
  imports Pica_Evidence
begin

text \<open>
  Making and checking a TPM quote on the host (\<open>tpm2/libquote.c\<close>).  The ESYS calls
  of the TPM software stack are the record \<open>esys\<close>: each returns a TSS2 code,
  0 for success.
\<close>

unbundle bit_operations_syntax

section \<open>The stack\<close>

record tpm_public =
  pb_attrs :: u32
  pb_type :: u16
  pb_scheme :: u16
  pb_hash :: u16

record sig_scheme =
  ss_scheme :: u16
  ss_hash :: u16

record 'w esys =
  es_tcti :: "'w \<Rightarrow> u32 \<times> 'w"
  es_init :: "'w \<Rightarrow> u32 \<times> 'w"
  es_key :: "u32 \<Rightarrow> 'w \<Rightarrow> u32 \<times> 'w"
  es_set_auth :: "'w \<Rightarrow> u32 \<times> 'w"
  es_read_public :: "'w \<Rightarrow> (u32 \<times> tpm_public) \<times> 'w"
  es_quote :: "bytes \<Rightarrow> sig_scheme \<Rightarrow> pcr_list \<Rightarrow> 'w \<Rightarrow> (u32 \<times> bytes \<times> signature) \<times> 'w"
  es_marshal :: "signature \<Rightarrow> nat \<Rightarrow> u32 \<times> bytes"

definition TPM2_ALG_RSA :: u16 where "TPM2_ALG_RSA = 0x0001"
definition TPM2_ALG_NULL :: u16 where "TPM2_ALG_NULL = 0x0010"
definition TPM2_ALG_RSASSA :: u16 where "TPM2_ALG_RSASSA = 0x0014"
definition TPM2_ALG_RSAPSS :: u16 where "TPM2_ALG_RSAPSS = 0x0016"
definition TPM2_ALG_ECDSA :: u16 where "TPM2_ALG_ECDSA = 0x0018"
definition TPM2_ALG_ECC :: u16 where "TPM2_ALG_ECC = 0x0023"
definition TPMA_OBJECT_SIGN_ENCRYPT :: u32 where "TPMA_OBJECT_SIGN_ENCRYPT = 0x00040000"

section \<open>Signature scheme\<close>

text \<open>The scheme is \<open>None\<close> where the code leaves through \<open>out\<close> or \<open>err\<close> with \<open>-1\<close>.\<close>

definition scheme_for :: "u16 \<Rightarrow> u16 \<Rightarrow> u16 option" where
  "scheme_for key_type scheme =
     (if key_type = TPM2_ALG_RSA then
        if scheme = TPM2_ALG_NULL then Some TPM2_ALG_RSASSA
        else if scheme = TPM2_ALG_RSASSA \<or> scheme = TPM2_ALG_RSAPSS then Some scheme else None
      else if key_type = TPM2_ALG_ECC then
        if scheme = TPM2_ALG_NULL then Some TPM2_ALG_ECDSA
        else if scheme = TPM2_ALG_ECDSA then Some scheme else None
      else None)"

definition make_sig_scheme :: "'w esys \<Rightarrow> 'w \<Rightarrow> (int \<times> sig_scheme option) \<times> 'w" where
  "make_sig_scheme es w =
     (let ((rc, pb), w) = es_read_public es w in
      if rc \<noteq> 0 then ((-1, None), w)
      else if pb_attrs pb AND TPMA_OBJECT_SIGN_ENCRYPT = 0 then ((-1, None), w)
      else if pb_scheme pb \<noteq> TPM2_ALG_NULL \<and> pb_hash pb \<noteq> TPM2_ALG_NULL \<and> pb_hash pb \<noteq> TPM2_ALG_SHA256
      then ((-1, None), w)
      else case scheme_for (pb_type pb) (pb_scheme pb) of
         None \<Rightarrow> ((-1, None), w)
       | Some s \<Rightarrow> ((0, Some \<lparr>ss_scheme = s, ss_hash = TPM2_ALG_SHA256\<rparr>), w))"

section \<open>PCR selection\<close>

text \<open>The bitmap has \<open>TPM2_PCR_SELECT_MAX = 4\<close> bytes, of which three are announced.\<close>

fun pcr_select_loop :: "nat list \<Rightarrow> bytes \<Rightarrow> bytes cres" where
  "pcr_select_loop [] bm = Inr bm"
| "pcr_select_loop (pcr # pcrs) bm =
     cbind (cnth bm (pcr div 8)) (\<lambda>b. pcr_select_loop pcrs (bm[pcr div 8 := b OR push_bit (pcr mod 8) 1]))"

definition pcr_select :: "u16 \<Rightarrow> nat list \<Rightarrow> pcr_list cres" where
  "pcr_select alg pcrs =
     cbind (pcr_select_loop pcrs [0, 0, 0, 0]) (\<lambda>bm.
     Inr \<lparr>pl_count = 1, pl_sel = \<lparr>ps_hash = alg, ps_sizeof = 3, ps_select = bm\<rparr> #
       replicate 15 \<lparr>ps_hash = 0, ps_sizeof = 0, ps_select = [0, 0, 0, 0]\<rparr>\<rparr>)"

section \<open>The quote\<close>

record tpm2_quote =
  tq_type :: "int slot"
  tq_quote :: "bytes slot"
  tq_sign :: "bytes slot"

definition tpm2_quote_unset :: tpm2_quote where
  "tpm2_quote_unset = \<lparr>tq_type = Garbage, tq_quote = Garbage, tq_sign = Garbage\<rparr>"

definition MAX_QUOTESIZE :: nat where "MAX_QUOTESIZE = 256"
definition SIGNSIZE :: nat where "SIGNSIZE = 518"
definition QUOTE_TPM2 :: int where "QUOTE_TPM2 = 1"

text \<open>\<open>TPM2B_DATA\<close> holds at most the 66 bytes of a \<open>TPMT_HA\<close>.\<close>

definition QDATA_SZ :: nat where "QDATA_SZ = 66"

text \<open>
  \<open>err\<close> is 0 from the signature scheme on, so that a failure of the quote or of
  the marshalling is returned as success, with the fields not yet set left as
  they were.
\<close>

definition quote_into ::
    "'w esys \<Rightarrow> bytes \<Rightarrow> sig_scheme \<Rightarrow> pcr_list \<Rightarrow> tpm2_quote \<Rightarrow> 'w \<Rightarrow> (int \<times> tpm2_quote) \<times> 'w" where
  "quote_into es qdata scheme sel tq w =
     (let ((rc, quoted, sig), w) = es_quote es qdata scheme sel w in
      if rc \<noteq> 0 then ((0, tq), w)
      else if length quoted > MAX_QUOTESIZE then ((0, tq), w)
      else
        let tq = tq\<lparr>tq_type := Val QUOTE_TPM2, tq_quote := Val quoted\<rparr>; (rc, s) = es_marshal es sig SIGNSIZE
        in if rc \<noteq> 0 then ((0, tq), w) else ((0, tq\<lparr>tq_sign := Val s\<rparr>), w))"

definition make_tpm2_quote ::
    "'w esys \<Rightarrow> bytes \<Rightarrow> nat \<Rightarrow> u16 \<Rightarrow> nat list \<Rightarrow> u32 \<Rightarrow> tpm2_quote option \<Rightarrow> 'w \<Rightarrow>
     ((int \<times> tpm2_quote option) \<times> 'w) cres" where
  "make_tpm2_quote es udata usize alg pcrs handle t_quote w =
     (case t_quote of
        None \<Rightarrow> Inr ((-1, None), w)
      | Some tq \<Rightarrow>
          if usize > QDATA_SZ \<or> usize > length udata then Inl OutOfBounds
          else
            let qdata = take usize udata; (rc, w) = es_tcti es w in
            if rc \<noteq> 0 then Inr ((-1, Some tq), w)
            else
              let (rc, w) = es_init es w in
              if rc \<noteq> 0 then Inr ((-1, Some tq), w)
              else
                let (rc, w) = es_key es handle w in
                if rc \<noteq> 0 then Inr ((-1, Some tq), w)
                else
                  let (rc, w) = es_set_auth es w; ((err, scheme), w) = make_sig_scheme es w in
                  case scheme of
                    None \<Rightarrow> Inr ((err, Some tq), w)
                  | Some scheme \<Rightarrow>
                      cbind (pcr_select alg pcrs) (\<lambda>sel.
                      let ((err, tq), w) = quote_into es qdata scheme sel tq w in Inr ((err, Some tq), w)))"

section \<open>Checking a quote\<close>

definition unmarshal_sign :: "tss \<Rightarrow> bytes \<Rightarrow> bool \<Rightarrow> int \<times> signature slot" where
  "unmarshal_sign ts marshal_sign have_sig =
     (if \<not> have_sig then (-1, Garbage)
      else let (rc, sig) = un_signature ts marshal_sign in
        if rc \<noteq> 0 then (sint rc, Garbage) else (0, Val sig))"

definition verify_tpm2_quote :: "'k evp \<Rightarrow> bytes \<Rightarrow> signature \<Rightarrow> 'k option \<Rightarrow> int cres" where
  "verify_tpm2_quote ev s_quoted sig ak_pubkey =
     cbind (sig_parts ev sig) (\<lambda>parts.
     case parts of
       None \<Rightarrow> Inr (-1)
     | Some (hash_alg, sig_data) \<Rightarrow>
         if \<not> known_hash hash_alg then Inr (-1)
         else if \<not> vf_ctx ev then Inr (-1)
         else if vf_init ev hash_alg ak_pubkey \<noteq> 1 then Inr (-1)
         else if \<not> padding_ok ev sig hash_alg then Inr (-1)
         else if vf_update ev s_quoted \<noteq> 1 then Inr (-1)
         else if vf_final ev ak_pubkey hash_alg (sig_padding sig) s_quoted sig_data = 1 then Inr 0
         else Inr (-1))"

end
