(* ===== verification/Sock.thy ===== *)
theory Sock
  imports Prelude
begin

text \<open>
  Stream sockets (\<open>src/libsock.c\<close>, and the copy \<open>tpm2/libsock.c\<close> of the daemon):
  the loops that send and receive a whole buffer, and the functions that open
  a socket.

  The system calls are the record \<open>sockops\<close>.  Sizes are 64-bit words, so the
  \<open>-1\<close> of a failed call becomes the largest size, and the tests for a negative
  size never hold.  A loop that may not end has fuel.
\<close>

unbundle bit_operations_syntax

section \<open>System calls\<close>

text \<open>\<open>RData []\<close> is the end of the stream.\<close>

datatype recv_res = RErr | RData bytes

record 'w sockops =
  so_recv :: "int \<Rightarrow> nat \<Rightarrow> 'w \<Rightarrow> recv_res \<times> 'w"
  so_write :: "int \<Rightarrow> bytes \<Rightarrow> 'w \<Rightarrow> int \<times> 'w"
  so_socket :: "'w \<Rightarrow> int \<times> 'w"
  so_connect :: "int \<Rightarrow> string \<Rightarrow> 'w \<Rightarrow> int \<times> 'w"
  so_bind :: "int \<Rightarrow> string \<Rightarrow> 'w \<Rightarrow> int \<times> 'w"
  so_chmod :: "string \<Rightarrow> 'w \<Rightarrow> int \<times> 'w"
  so_listen :: "int \<Rightarrow> 'w \<Rightarrow> int \<times> 'w"
  so_accept :: "int \<Rightarrow> 'w \<Rightarrow> int \<times> 'w"
  so_peercred :: "int \<Rightarrow> 'w \<Rightarrow> int option"

section \<open>Whole buffers\<close>

definition recv_size :: "recv_res \<Rightarrow> u64" where
  "recv_size r = (case r of RErr \<Rightarrow> -1 | RData bs \<Rightarrow> of_nat (length bs))"

definition recv_bytes :: "recv_res \<Rightarrow> bytes" where
  "recv_bytes r = (case r of RErr \<Rightarrow> [] | RData bs \<Rightarrow> bs)"

text \<open>The return code, and the buffer after the call.\<close>

fun sock_recv_loop ::
    "nat \<Rightarrow> 'w sockops \<Rightarrow> int \<Rightarrow> u64 \<Rightarrow> u64 \<Rightarrow> bbuf \<Rightarrow> 'w \<Rightarrow> ((int \<times> bbuf) \<times> 'w) cres" where
  "sock_recv_loop 0 so sock len totsz buf w = Inl Diverges"
| "sock_recv_loop (Suc n) so sock len totsz buf w =
     (let (r, w) = so_recv so sock (unat (len - totsz)) w; sz = recv_size r in
      cbind (buf_put buf (unat totsz) (map Val (recv_bytes r))) (\<lambda>buf.
      if sz < 0 then Inr ((-2, buf), w)
      else if sz = 0 \<and> totsz = 0 then Inr ((-1, buf), w)
      else if totsz + sz < len then sock_recv_loop n so sock len (totsz + sz) buf w
      else Inr ((0, buf), w)))"

definition sock_recv :: "nat \<Rightarrow> 'w sockops \<Rightarrow> int \<Rightarrow> bbuf \<Rightarrow> 'w \<Rightarrow> ((int \<times> bbuf) \<times> 'w) cres" where
  "sock_recv fuel so sock buf w = sock_recv_loop fuel so sock (of_nat (length buf)) 0 buf w"

fun sock_send_loop :: "nat \<Rightarrow> 'w sockops \<Rightarrow> int \<Rightarrow> bytes \<Rightarrow> u64 \<Rightarrow> 'w \<Rightarrow> (int \<times> 'w) cres" where
  "sock_send_loop 0 so sock buf totsz w = Inl Diverges"
| "sock_send_loop (Suc n) so sock buf totsz w =
     (let (r, w) = so_write so sock (drop (unat totsz) buf) w; sz = word_of_int r :: u64 in
      if sz \<le> 0 then Inr (-1, w)
      else if totsz + sz < of_nat (length buf) then sock_send_loop n so sock buf (totsz + sz) w
      else Inr (0, w))"

definition sock_send :: "nat \<Rightarrow> 'w sockops \<Rightarrow> int \<Rightarrow> bytes \<Rightarrow> 'w \<Rightarrow> (int \<times> 'w) cres" where
  "sock_send fuel so sock buf w = sock_send_loop fuel so sock buf 0 w"

section \<open>Opening\<close>

definition SUN_PATH_SZ :: nat where "SUN_PATH_SZ = 108"

text \<open>
  The path is copied with the size of the destination, so that bytes behind a
  shorter path are read too; \<open>slack\<close> are those that belong to the object the
  path is in.  A path of exactly that size is stored without terminator.
\<close>

definition sun_path :: "string \<Rightarrow> string \<Rightarrow> string cres" where
  "sun_path slack path =
     (if length (path @ NUL # slack) < SUN_PATH_SZ then Inl OutOfBounds
      else Inr (take SUN_PATH_SZ (path @ NUL # slack)))"

definition sock_connect_daemon :: "'w sockops \<Rightarrow> string \<Rightarrow> string \<Rightarrow> 'w \<Rightarrow> (int \<times> 'w) cres" where
  "sock_connect_daemon so slack path w =
     (if length path > SUN_PATH_SZ then Inr (-1, w)
      else
        let (sock, w) = so_socket so w in
        if sock < 0 then Inr (-1, w)
        else cbind (sun_path slack path) (\<lambda>p.
          let (rc, w) = so_connect so sock p w in Inr (if rc < 0 then -1 else sock, w)))"

definition sock_listen :: "'w sockops \<Rightarrow> string \<Rightarrow> string \<Rightarrow> 'w \<Rightarrow> (int \<times> 'w) cres" where
  "sock_listen so slack path w =
     (if length path > SUN_PATH_SZ then Inr (-1, w)
      else
        let (sock, w) = so_socket so w in
        if sock < 0 then Inr (-1, w)
        else cbind (sun_path slack path) (\<lambda>p.
          let (rc, w) = so_bind so sock p w in
          if rc < 0 then Inr (-1, w)
          else
            let (rc, w) = so_chmod so path w in
            if rc < 0 then Inr (-1, w)
            else
              let (rc, w) = so_listen so sock w in
              if rc < 0 then Inl Abort else Inr (sock, w)))"

definition sock_client_pid :: "'w sockops \<Rightarrow> int \<Rightarrow> 'w \<Rightarrow> int" where
  "sock_client_pid so sock w = (case so_peercred so sock w of None \<Rightarrow> -1 | Some pid \<Rightarrow> pid)"

section \<open>Stream sockets\<close>

text \<open>
  What the loops rely on: a receive hands out a non-empty prefix of what is
  unread, and nothing at the end of the stream; a write takes a non-empty
  prefix.  Neither touches anything else.
\<close>

lemma less_of_nat_u64: "a < b \<Longrightarrow> b < 2 ^ 64 \<Longrightarrow> (of_nat a :: u64) < of_nat b"
  by (simp add: word_less_nat_alt unat_of_nat)

locale stream_socket =
  fixes so :: "'w sockops"
    and unread :: "'w \<Rightarrow> bytes"
    and sent :: "'w \<Rightarrow> bytes"
    and other :: "'w \<Rightarrow> 'o"
  assumes recv_data: "unread w \<noteq> [] \<Longrightarrow> 0 < n \<Longrightarrow> \<exists>bs w'. so_recv so sock n w = (RData bs, w') \<and> bs \<noteq> [] \<and>
      length bs \<le> n \<and> unread w = bs @ unread w' \<and> sent w' = sent w \<and> other w' = other w"
    and recv_eof: "unread w = [] \<Longrightarrow> so_recv so sock n w = (RData [], w)"
    and write_data: "bs \<noteq> [] \<Longrightarrow> \<exists>k w'. so_write so sock bs w = (int k, w') \<and> 0 < k \<and> k \<le> length bs \<and>
      sent w' = sent w @ take k bs \<and> unread w' = unread w \<and> other w' = other w"
begin

lemma recv_loop:
  assumes "rest \<noteq> []" "length got + length rest < 2 ^ 64" "length rest \<le> length (unread w)" "length rest \<le> n"
  shows "\<exists>w'. sock_recv_loop n so sock (of_nat (length got + length rest)) (of_nat (length got)) (map Val got @ rest) w =
       Inr ((0, map Val (got @ take (length rest) (unread w))), w') \<and>
     unread w' = drop (length rest) (unread w) \<and> sent w' = sent w \<and> other w' = other w"
  using assms
proof (induction n arbitrary: got rest w)
  case (Suc n)
  have ne: "unread w \<noteq> []" using Suc.prems(1,3) by auto
  have diff: "unat (of_nat (length got + length rest) - of_nat (length got) :: u64) = length rest"
    using Suc.prems(2) by simp
  from Suc.prems(1) have "0 < length rest" by simp
  from recv_data [OF ne this, of sock] obtain bs w1 where r: "so_recv so sock (length rest) w = (RData bs, w1)" "bs \<noteq> []"
    "length bs \<le> length rest" "unread w = bs @ unread w1" "sent w1 = sent w" "other w1 = other w"
    by blast
  have put: "buf_put (map Val got @ rest) (length got) (map Val bs) = Inr (map Val (got @ bs) @ drop (length bs) rest)"
    using r(3) by (simp add: buf_put_def)
  have tot: "unat (of_nat (length got) :: u64) = length got" using Suc.prems(2) by simp
  have sz: "recv_size (RData bs) \<noteq> 0" "of_nat (length got) + recv_size (RData bs) = (of_nat (length (got @ bs)) :: u64)"
    using r(2,3) Suc.prems(2) by (simp_all add: recv_size_def word_of_nat_eq_0_iff unat_eq_0 flip: unat_eq_0)
  show ?case
  proof (cases "length bs = length rest")
    case True
    then have "\<not> (of_nat (length (got @ bs)) :: u64) < of_nat (length got + length rest)" by simp
    then show ?thesis
      using True r sz put tot diff by (simp add: recv_bytes_def Let_def)
  next
    case False
    then have lt: "length bs < length rest" using r(3) by simp
    then have less: "(of_nat (length (got @ bs)) :: u64) < of_nat (length got + length rest)"
      using Suc.prems(2) by (intro less_of_nat_u64) simp_all
    have "\<exists>w'. sock_recv_loop n so sock (of_nat (length (got @ bs) + length (drop (length bs) rest)))
        (of_nat (length (got @ bs))) (map Val (got @ bs) @ drop (length bs) rest) w1 =
        Inr ((0, map Val ((got @ bs) @ take (length (drop (length bs) rest)) (unread w1))), w') \<and>
      unread w' = drop (length (drop (length bs) rest)) (unread w1) \<and> sent w' = sent w1 \<and> other w' = other w1"
    proof (rule Suc.IH)
      show "drop (length bs) rest \<noteq> []" using lt by simp
      show "length (got @ bs) + length (drop (length bs) rest) < 2 ^ 64" using Suc.prems(2) r(3) by simp
      show "length (drop (length bs) rest) \<le> length (unread w1)" using Suc.prems(3) r(4) by simp
      have "0 < length bs" using r(2) by simp
      then show "length (drop (length bs) rest) \<le> n" using Suc.prems(4) unfolding length_drop by linarith
    qed
    moreover have "length (got @ bs) + length (drop (length bs) rest) = length got + length rest" using r(3) by simp
    ultimately show ?thesis
      using r(1,3-6) sz less put tot diff by (auto simp: recv_bytes_def Let_def)
  qed
qed simp

lemma recv_exact:
  assumes "buf \<noteq> []" "length buf < 2 ^ 64" "length buf \<le> length (unread w)" "length buf \<le> n"
  shows "\<exists>w'. sock_recv n so sock buf w = Inr ((0, map Val (take (length buf) (unread w))), w') \<and>
     unread w' = drop (length buf) (unread w) \<and> sent w' = sent w \<and> other w' = other w"
  using recv_loop [of buf "[]" w n sock] assms by (simp add: sock_recv_def)

lemma recv_closed:
  assumes "unread w = []" "0 < n"
  shows "sock_recv n so sock buf w = Inr ((-1, buf), w)"
proof -
  obtain m where "n = Suc m" using assms(2) by (cases n) auto
  then show ?thesis
    using recv_eof [OF assms(1)] by (simp add: sock_recv_def Let_def recv_bytes_def recv_size_def buf_put_def)
qed

text \<open>The end of the stream inside a message is met again and again.\<close>

lemma recv_stuck:
  assumes "unread w = []" "0 < (t :: u64)" "t < len" "unat t \<le> length buf"
  shows "sock_recv_loop n so sock len t buf w = Inl Diverges"
  using assms
proof (induction n)
  case (Suc n)
  then have "t \<noteq> 0" by auto
  then show ?case
    using Suc recv_eof [OF Suc.prems(1)]
    by (simp add: Let_def recv_bytes_def recv_size_def buf_put_def)
qed simp

lemma recv_loop_truncated:
  assumes "length got + length rest < 2 ^ 64" "got \<noteq> [] \<or> unread w \<noteq> []" "length (unread w) < length rest"
  shows "sock_recv_loop n so sock (of_nat (length got + length rest)) (of_nat (length got)) (map Val got @ rest) w = Inl Diverges"
  using assms
proof (induction n arbitrary: got rest w)
  case (Suc n)
  show ?case
  proof (cases "unread w = []")
    case True
    with Suc.prems(2) have "0 < length got" by simp
    moreover have "0 < length rest" using Suc.prems(3) by (rule le_less_trans [OF le0])
    ultimately have "0 < (of_nat (length got) :: u64)" "(of_nat (length got) :: u64) < of_nat (length got + length rest)"
      using less_of_nat_u64 [of 0 "length got"] less_of_nat_u64 [of "length got" "length got + length rest"] Suc.prems(1)
      by simp_all
    with True Suc.prems(1) show ?thesis by (intro recv_stuck) simp_all
  next
    case False
    have "0 < length rest" using Suc.prems(3) by (rule le_less_trans [OF le0])
    from recv_data [OF False this, of sock] obtain bs w1 where r: "so_recv so sock (length rest) w = (RData bs, w1)" "bs \<noteq> []"
      "length bs \<le> length rest" "unread w = bs @ unread w1"
      by blast
    have lt: "length bs < length rest" using r(4) Suc.prems(3) by simp
    have put: "buf_put (map Val got @ rest) (length got) (map Val bs) = Inr (map Val (got @ bs) @ drop (length bs) rest)"
      using r(3) by (simp add: buf_put_def)
    have tot: "unat (of_nat (length got) :: u64) = length got"
      "unat (of_nat (length got + length rest) - of_nat (length got) :: u64) = length rest"
      using Suc.prems(1) by simp_all
    have sz: "recv_size (RData bs) \<noteq> 0" "of_nat (length got) + recv_size (RData bs) = (of_nat (length (got @ bs)) :: u64)"
      using r(2,3) Suc.prems(1) by (simp_all add: recv_size_def word_of_nat_eq_0_iff unat_eq_0 flip: unat_eq_0)
    have less: "(of_nat (length (got @ bs)) :: u64) < of_nat (length got + length rest)"
      using lt Suc.prems(1) by (intro less_of_nat_u64) simp_all
    have "sock_recv_loop n so sock (of_nat (length (got @ bs) + length (drop (length bs) rest))) (of_nat (length (got @ bs)))
        (map Val (got @ bs) @ drop (length bs) rest) w1 = Inl Diverges"
      using Suc.prems(1,3) r lt by (intro Suc.IH) simp_all
    moreover have "length (got @ bs) + length (drop (length bs) rest) = length got + length rest" using r(3) by simp
    ultimately show ?thesis
      using r(1) sz less put tot by (simp add: recv_bytes_def Let_def)
  qed
qed simp

lemma recv_truncated:
  assumes "unread w \<noteq> []" "length (unread w) < length buf" "length buf < 2 ^ 64"
  shows "sock_recv n so sock buf w = Inl Diverges"
  using recv_loop_truncated [of "[]" buf w n sock] assms by (simp add: sock_recv_def)

lemma send_loop:
  assumes "t < length buf" "length buf < 2 ^ 63" "length buf - t \<le> n"
  shows "\<exists>w'. sock_send_loop n so sock buf (of_nat t) w = Inr (0, w') \<and> sent w' = sent w @ drop t buf \<and>
     unread w' = unread w \<and> other w' = other w"
  using assms
proof (induction n arbitrary: t w)
  case (Suc n)
  have ne: "drop t buf \<noteq> []" using Suc.prems(1) by simp
  from write_data [OF ne, of sock w] obtain k w1 where r: "so_write so sock (drop t buf) w = (int k, w1)" "0 < k"
    "k \<le> length (drop t buf)" "sent w1 = sent w @ take k (drop t buf)" "unread w1 = unread w" "other w1 = other w"
    by blast
  have t: "unat (of_nat t :: u64) = t" using Suc.prems(1,2) by simp
  have "unat (of_nat k :: u64) = k" using r(3) Suc.prems(2) by simp
  with r(2) have sz: "(of_nat k :: u64) \<noteq> 0" by (auto simp: unat_eq_0)
  have sum: "of_nat t + of_nat k = (of_nat (t + k) :: u64)" by simp
  show ?case
  proof (cases "t + k = length buf")
    case True
    then have "take k (drop t buf) = drop t buf" by simp
    with True show ?thesis using r t sz sum by (simp add: Let_def flip: True)
  next
    case False
    then have lt: "t + k < length buf" using r(3) Suc.prems(1) unfolding length_drop by linarith
    then have less: "(of_nat (t + k) :: u64) < of_nat (length buf)" using Suc.prems(2) by (intro less_of_nat_u64) simp_all
    have "length buf - (t + k) \<le> n" using Suc.prems(3) r(2) by simp
    from Suc.IH [OF lt Suc.prems(2) this, of w1] obtain w' where
      "sock_send_loop n so sock buf (of_nat (t + k)) w1 = Inr (0, w')" "sent w' = sent w1 @ drop (t + k) buf"
      "unread w' = unread w1" "other w' = other w1" by blast
    moreover have "take k (drop t buf) @ drop (t + k) buf = drop t buf" using append_take_drop_id [of k "drop t buf"] by (simp add: add.commute)
    ultimately show ?thesis using r t sz less by (simp add: Let_def)
  qed
qed simp

lemma send_exact:
  assumes "buf \<noteq> []" "length buf < 2 ^ 63" "length buf \<le> n"
  shows "\<exists>w'. sock_send n so sock buf w = Inr (0, w') \<and> sent w' = sent w @ buf \<and> unread w' = unread w \<and> other w' = other w"
  using send_loop [of 0 buf n sock w] assms by (simp add: sock_send_def)

end

section \<open>A network of waiting clients\<close>

text \<open>
  The environment the daemon's theorems speak of: the connection in use, with
  what its peer sent in arbitrary pieces, the connections not yet accepted,
  what was sent on earlier ones, and the rest of the host.
\<close>

record conn =
  cn_in :: "bytes list"
  cn_out :: bytes
  cn_pid :: int

record 'h net =
  nt_con :: conn
  nt_pending :: "conn list"
  nt_past :: "bytes list"
  nt_host :: 'h

definition conn_recv :: "nat \<Rightarrow> conn \<Rightarrow> recv_res \<times> conn" where
  "conn_recv n c =
     (case dropWhile (\<lambda>b. b = []) (cn_in c) of
        [] \<Rightarrow> (RData [], c)
      | b # bs \<Rightarrow> (RData (take n b), c\<lparr>cn_in := drop n b # bs\<rparr>))"

definition net_accept :: "'h net \<Rightarrow> int \<times> 'h net" where
  "net_accept w =
     (case nt_pending w of
        [] \<Rightarrow> (-1, w)
      | c # cs \<Rightarrow> (4, w\<lparr>nt_con := c, nt_pending := cs, nt_past := nt_past w @ [cn_out (nt_con w)]\<rparr>))"

definition net_ops :: "'h net sockops" where
  "net_ops = \<lparr>
     so_recv = (\<lambda>_ n w. let (r, c) = conn_recv n (nt_con w) in (r, w\<lparr>nt_con := c\<rparr>)),
     so_write = (\<lambda>_ bs w. (int (length bs), w\<lparr>nt_con := (nt_con w)\<lparr>cn_out := cn_out (nt_con w) @ bs\<rparr>\<rparr>)),
     so_socket = (\<lambda>w. (3, w)), so_connect = (\<lambda>_ _ w. (0, w)), so_bind = (\<lambda>_ _ w. (0, w)),
     so_chmod = (\<lambda>_ w. (0, w)), so_listen = (\<lambda>_ w. (0, w)), so_accept = (\<lambda>_ w. net_accept w),
     so_peercred = (\<lambda>_ w. Some (cn_pid (nt_con w)))\<rparr>"

definition net_unread :: "'h net \<Rightarrow> bytes" where
  "net_unread w = concat (cn_in (nt_con w))"

definition net_sent :: "'h net \<Rightarrow> bytes" where
  "net_sent w = cn_out (nt_con w)"

definition net_other :: "'h net \<Rightarrow> int \<times> conn list \<times> bytes list \<times> 'h" where
  "net_other w = (cn_pid (nt_con w), nt_pending w, nt_past w, nt_host w)"

lemmas net_defs = net_unread_def net_sent_def net_other_def

lemma concat_dropWhile_empty: "concat (dropWhile (\<lambda>b. b = []) bs) = concat bs"
  by (induction bs) auto

lemma conn_recv_data:
  assumes "concat (cn_in c) \<noteq> []" "0 < n"
  shows "\<exists>bs c'. conn_recv n c = (RData bs, c') \<and> bs \<noteq> [] \<and> length bs \<le> n \<and> concat (cn_in c) = bs @ concat (cn_in c') \<and>
     cn_out c' = cn_out c \<and> cn_pid c' = cn_pid c"
proof (cases "dropWhile (\<lambda>b. b = []) (cn_in c)")
  case Nil
  then show ?thesis using assms(1) concat_dropWhile_empty [of "cn_in c"] by simp
next
  case (Cons b bs)
  then have "b \<noteq> []" by (metis (full_types) hd_dropWhile list.distinct(1) list.sel(1))
  then show ?thesis
    using Cons assms(2) concat_dropWhile_empty [of "cn_in c", symmetric] by (simp add: conn_recv_def)
qed

lemma conn_recv_eof: "concat (cn_in c) = [] \<Longrightarrow> conn_recv n c = (RData [], c)"
proof -
  assume "concat (cn_in c) = []"
  then have "dropWhile (\<lambda>b. b = []) (cn_in c) = []" by (simp add: dropWhile_eq_Nil_conv)
  then show "conn_recv n c = (RData [], c)" unfolding conn_recv_def by (simp only: list.case)
qed

interpretation nt: stream_socket net_ops net_unread net_sent net_other
proof
  fix w :: "'h net" and n :: nat and sock :: int and bs :: bytes
  show "net_unread w \<noteq> [] \<Longrightarrow> 0 < n \<Longrightarrow> \<exists>bs w'. so_recv net_ops sock n w = (RData bs, w') \<and> bs \<noteq> [] \<and> length bs \<le> n \<and>
      net_unread w = bs @ net_unread w' \<and> net_sent w' = net_sent w \<and> net_other w' = net_other w"
    using conn_recv_data [of "nt_con w" n] by (auto simp: net_ops_def net_defs)
  show "net_unread w = [] \<Longrightarrow> so_recv net_ops sock n w = (RData [], w)"
    using conn_recv_eof [of "nt_con w" n] by (simp add: net_ops_def net_defs)
  show "bs \<noteq> [] \<Longrightarrow> \<exists>k w'. so_write net_ops sock bs w = (int k, w') \<and> 0 < k \<and> k \<le> length bs \<and>
      net_sent w' = net_sent w @ take k bs \<and> net_unread w' = net_unread w \<and> net_other w' = net_other w"
    by (rule exI [of _ "length bs"]) (auto simp: net_ops_def net_defs)
qed

lemma connect_net: "length path \<le> 108 \<Longrightarrow> 108 \<le> length (path @ NUL # slack) \<Longrightarrow> sock_connect_daemon net_ops slack path w = Inr (3, w)"
  by (simp add: sock_connect_daemon_def net_ops_def sun_path_def SUN_PATH_SZ_def)

section \<open>Properties\<close>

text \<open>
  C30.  \<open>sock_recv\<close> on a stream: however the bytes arrive, a buffer that can be
  filled is filled with exactly the next bytes; a closed stream gives \<open>-1\<close>; and
  a stream that ends inside the buffer is polled for ever.
\<close>

theorem sock_recv_stream:
  assumes "buf \<noteq> []" "length buf < 2 ^ 64" "length buf \<le> n"
  shows "(length buf \<le> length (net_unread w) \<longrightarrow>
       (\<exists>w'. sock_recv n net_ops sock buf w = Inr ((0, map Val (take (length buf) (net_unread w))), w') \<and>
          net_unread w' = drop (length buf) (net_unread w) \<and> net_sent w' = net_sent w \<and> net_other w' = net_other w)) \<and>
     (net_unread w = [] \<longrightarrow> sock_recv n net_ops sock buf w = Inr ((-1, buf), w)) \<and>
     (net_unread w \<noteq> [] \<and> length (net_unread w) < length buf \<longrightarrow> (\<forall>k. sock_recv k net_ops sock buf w = Inl Diverges))"
proof (intro conjI impI allI)
  assume "length buf \<le> length (net_unread w)"
  then show "\<exists>w'. sock_recv n net_ops sock buf w = Inr ((0, map Val (take (length buf) (net_unread w))), w') \<and>
      net_unread w' = drop (length buf) (net_unread w) \<and> net_sent w' = net_sent w \<and> net_other w' = net_other w"
    using assms by (intro nt.recv_exact)
next
  assume "net_unread w = []"
  moreover have "0 < n" using assms(1,3) by (cases n) auto
  ultimately show "sock_recv n net_ops sock buf w = Inr ((-1, buf), w)" by (rule nt.recv_closed)
next
  fix k
  assume "net_unread w \<noteq> [] \<and> length (net_unread w) < length buf"
  then show "sock_recv k net_ops sock buf w = Inl Diverges" using assms(2) by (intro nt.recv_truncated) auto
qed

text \<open>
  A receive that fails at the first call is reported as success, with the
  buffer as it was.
\<close>

theorem sock_recv_error_success:
  assumes "so_recv so sock (length buf) w = (RErr, w1)" "length buf < 2 ^ 64"
  shows "sock_recv (Suc n) so sock buf w = Inr ((0, buf), w1)"
proof -
  have "\<not> (-1 :: u64) < of_nat (length buf)" by (simp add: not_less)
  then show ?thesis using assms by (simp add: sock_recv_def recv_bytes_def recv_size_def buf_put_def)
qed

definition ex_net :: "bytes list \<Rightarrow> unit net" where
  "ex_net bss = \<lparr>nt_con = \<lparr>cn_in = bss, cn_out = [], cn_pid = 7\<rparr>, nt_pending = [], nt_past = [], nt_host = ()\<rparr>"

theorem sock_recv_stream_witness:
  "(\<exists>w'. sock_recv 3 net_ops 4 [Garbage, Garbage, Garbage] (ex_net [[1], [], [2, 3, 4]]) = Inr ((0, [Val 1, Val 2, Val 3]), w')) \<and>
   sock_recv 3 net_ops 4 [Garbage, Garbage, Garbage] (ex_net [[1], []]) = Inl Diverges \<and>
   sock_recv 3 net_ops 4 [Garbage] (ex_net []) = Inr ((-1, [Garbage]), ex_net [])"
proof -
  let ?b = "[Garbage, Garbage, Garbage] :: bbuf"
  have u: "net_unread (ex_net [[1], [], [2, 3, 4]]) = [1, 2, 3, 4]" "net_unread (ex_net [[1], []]) = [1]" "net_unread (ex_net []) = []"
    by (simp_all add: ex_net_def net_unread_def)
  have b: "?b \<noteq> []" "length ?b < 2 ^ 64" "length ?b \<le> 3" "[Garbage] \<noteq> ([] :: bbuf)" "length ([Garbage] :: bbuf) < 2 ^ 64"
    "length ([Garbage] :: bbuf) \<le> 3" by simp_all
  show ?thesis
    using sock_recv_stream [OF b(1-3), of "ex_net [[1], [], [2, 3, 4]]" 4] sock_recv_stream [OF b(1-3), of "ex_net [[1], []]" 4]
      sock_recv_stream [OF b(4-6), of "ex_net []" 4]
    by (auto simp: u)
qed

definition err_ops :: "unit net sockops" where
  "err_ops = net_ops\<lparr>so_recv := \<lambda>_ _ w. (RErr, w)\<rparr>"

theorem sock_recv_error_success_witness:
  "sock_recv (Suc 0) err_ops 4 [Garbage] (ex_net []) = Inr ((0, [Garbage]), ex_net [])"
  by (rule sock_recv_error_success) (simp_all add: err_ops_def)

end
