(* ===== verification/Pem_Base64.thy ===== *)
theory Pem_Base64
  imports Prelude
begin

text \<open>
  From a PEM public key to its DER bytes: \<open>b64revtb\<close>, \<open>raw_base64_decode\<close>,
  \<open>PEM_strip\<close> and \<open>PEM2DER\<close> of \<open>src/libintel.c\<close>.

  The decoder is never told how large its output buffer is; \<open>cap\<close> is that size,
  and a store behind it is the fault \<open>OutOfBounds\<close>.
\<close>

unbundle bit_operations_syntax

section \<open>Base 64\<close>

text \<open>The table by ranges of its index.\<close>

definition b64revtb :: "byte \<Rightarrow> int" where
  "b64revtb c =
     (if c = 0 then -3 else if c = 0x2B then 62 else if c = 0x2F then 63
      else if 0x30 \<le> c \<and> c \<le> 0x39 then uint c + 4
      else if c = 0x3D then -2
      else if 0x41 \<le> c \<and> c \<le> 0x5A then uint c - 65
      else if 0x61 \<le> c \<and> c \<le> 0x7A then uint c - 71
      else -1)"

text \<open>The bytes of \<open>buf\<close> stored at the output pointer.\<close>

definition b64_store :: "nat \<Rightarrow> bytes \<Rightarrow> bytes \<Rightarrow> bytes cres" where
  "b64_store cap out bs = (if length out + length bs \<le> cap then Inr (out @ bs) else Inl OutOfBounds)"

text \<open>
  One round for the character at position \<open>pos\<close>; the last argument is the input
  from there on.  The result is the byte count returned, \<open>*err\<close> and the output.
\<close>

fun b64_loop ::
    "bool \<Rightarrow> nat \<Rightarrow> nat \<Rightarrow> byte \<Rightarrow> byte \<Rightarrow> byte \<Rightarrow> nat \<Rightarrow> bytes \<Rightarrow> bytes \<Rightarrow> (nat \<times> int \<times> bytes) cres" where
  "b64_loop strict cap pos b0 b1 b2 result out [] = Inl OutOfBounds"
| "b64_loop strict cap pos b0 b1 b2 result out (c # p) =
     (let x = b64revtb c; v = word_of_int x in
      if x = -3 then Inr (result, if pos mod 4 \<noteq> 0 then 1 else 0, out)
      else if x = -2 then
        (if pos mod 4 < 2 then Inr (result, 1, out)
         else if pos mod 4 = 2 then
           (case p of
              [] \<Rightarrow> Inl OutOfBounds
            | d # _ \<Rightarrow> if d \<noteq> 0x3D then Inr (result, 1, out)
                else cbind (b64_store cap out [b0]) (\<lambda>out. Inr (result + 1, 0, out)))
         else cbind (b64_store cap out [b0, b1]) (\<lambda>out. Inr (result + 2, 0, out)))
      else if x = -1 then
        (if strict then Inr (result, 2, out) else b64_loop strict cap (pos + 1) b0 b1 b2 result out p)
      else if pos mod 4 = 0 then b64_loop strict cap (pos + 1) (push_bit 2 v) b1 b2 result out p
      else if pos mod 4 = 1 then
        b64_loop strict cap (pos + 1) (b0 OR drop_bit 4 v) (push_bit 4 v) b2 result out p
      else if pos mod 4 = 2 then
        b64_loop strict cap (pos + 1) b0 (b1 OR drop_bit 2 v) (push_bit 6 v) result out p
      else
        cbind (b64_store cap out [b0, b1, b2 OR v]) (\<lambda>out.
        b64_loop strict cap (pos + 1) b0 b1 (b2 OR v) (result + 3) out p))"

definition raw_base64_decode :: "nat \<Rightarrow> bytes \<Rightarrow> bool \<Rightarrow> (nat \<times> int \<times> bytes) cres" where
  "raw_base64_decode cap inp strict = b64_loop strict cap 0 0 0 0 0 [] inp"

section \<open>PEM\<close>

definition is_nl :: "byte \<Rightarrow> bool" where
  "is_nl c \<longleftrightarrow> c = 0x0A \<or> c = 0x0D"

text \<open>The index the first loop stops at: that of the first line end, or the length.\<close>

definition first_nl :: "bytes \<Rightarrow> nat" where
  "first_nl pem = length (takeWhile (\<lambda>c. \<not> is_nl c) pem)"

text \<open>The second loop, from index \<open>i\<close> down; \<open>-1\<close> when there is no line end.\<close>

function last_nl :: "bytes \<Rightarrow> int \<Rightarrow> int" where
  "last_nl pem i = (if i < 0 then i else if is_nl (pem ! nat i) then i else last_nl pem (i - 1))"
  by pat_completeness auto

termination
  by (relation "measure (\<lambda>(pem, i). nat (i + 1))") auto

declare last_nl.simps [simp del]

definition PEM_strip :: "bytes \<Rightarrow> bytes" where
  "PEM_strip pem =
     (let real_begin = first_nl pem + 1; real_end = last_nl pem (int (length pem) - 5)
      in filter (\<lambda>c. \<not> is_nl c) (drop real_begin (take (nat real_end) pem)))"

text \<open>
  The return code, and length and bytes stored for the caller; \<open>mem\<close> says
  whether the allocation succeeds.  The stripped text is followed by the zeros
  of its buffer, which is as long as the PEM text.
\<close>

definition PEM2DER :: "bool \<Rightarrow> nat \<Rightarrow> bytes option \<Rightarrow> (int \<times> nat option \<times> bytes) cres" where
  "PEM2DER mem cap pem_pub =
     (case pem_pub of
        None \<Rightarrow> Inr (1, None, [])
      | Some pem \<Rightarrow>
          if pem = [] then Inr (1, None, [])
          else if \<not> mem then Inr (1, None, [])
          else
            let s = PEM_strip pem
            in if length s \<le> 0 then Inr (-1, None, [])
               else cbind (raw_base64_decode cap (s @ replicate (length pem - length s) 0) False) (\<lambda>(tlen, rc, der).
                 Inr (rc, if rc = 0 then Some tlen else None, der)))"

section \<open>The encoding\<close>

text \<open>Base 64 of RFC 4648, the reference the decoder is compared with.\<close>

definition b64_char :: "byte \<Rightarrow> byte" where
  "b64_char s = (if s < 26 then s + 65 else if s < 52 then s + 71 else if s < 62 then s - 4
     else if s = 62 then 0x2B else 0x2F)"

fun b64_encode :: "bytes \<Rightarrow> bytes" where
  "b64_encode [] = []"
| "b64_encode [a] = [b64_char (drop_bit 2 a), b64_char (push_bit 4 (take_bit 2 a)), 0x3D, 0x3D]"
| "b64_encode [a, b] = [b64_char (drop_bit 2 a), b64_char (push_bit 4 (take_bit 2 a) OR drop_bit 4 b),
     b64_char (push_bit 2 (take_bit 4 b)), 0x3D]"
| "b64_encode (a # b # c # bs) = [b64_char (drop_bit 2 a), b64_char (push_bit 4 (take_bit 2 a) OR drop_bit 4 b),
     b64_char (push_bit 2 (take_bit 4 b) OR drop_bit 6 c), b64_char (take_bit 6 c)] @ b64_encode bs"

lemma b64revtb_char: "s < 64 \<Longrightarrow> b64revtb (b64_char s) = uint s"
proof -
  have all: "\<forall>n \<in> set [0..<64]. b64revtb (b64_char (word_of_nat n)) = int n"
    by (simp add: upt_rec b64revtb_def b64_char_def)
  assume "s < 64"
  then have "unat s \<in> set [0..<64]" by (simp add: word_less_nat_alt)
  with all have "b64revtb (b64_char (word_of_nat (unat s))) = int (unat s)" by blast
  then show ?thesis by simp
qed

section \<open>Decoding what was encoded\<close>

lemma b64_loop_char:
  assumes "s < 64"
  shows "b64_loop strict cap pos b0 b1 b2 r out (b64_char s # p) =
     (if pos mod 4 = 0 then b64_loop strict cap (pos + 1) (push_bit 2 s) b1 b2 r out p
      else if pos mod 4 = 1 then b64_loop strict cap (pos + 1) (b0 OR drop_bit 4 s) (push_bit 4 s) b2 r out p
      else if pos mod 4 = 2 then b64_loop strict cap (pos + 1) b0 (b1 OR drop_bit 2 s) (push_bit 6 s) r out p
      else cbind (b64_store cap out [b0, b1, b2 OR s]) (\<lambda>out.
        b64_loop strict cap (pos + 1) b0 b1 (b2 OR s) (r + 3) out p))"
proof -
  have x: "b64revtb (b64_char s) = uint s" by (rule b64revtb_char [OF assms])
  have "0 \<le> uint s" by simp
  then have "uint s \<noteq> -3" "uint s \<noteq> -2" "uint s \<noteq> -1" by linarith+
  then show ?thesis by (simp add: x)
qed

lemma byte_eqI:
  fixes x y :: byte
  assumes "bit x 0 = bit y 0" "bit x 1 = bit y 1" "bit x 2 = bit y 2" "bit x 3 = bit y 3"
    "bit x 4 = bit y 4" "bit x 5 = bit y 5" "bit x 6 = bit y 6" "bit x 7 = bit y 7"
  shows "x = y"
proof (rule bit_word_eqI)
  fix n assume "n < LENGTH(8)"
  then have "n = 0 \<or> n = 1 \<or> n = 2 \<or> n = 3 \<or> n = 4 \<or> n = 5 \<or> n = 6 \<or> n = 7" by simp linarith
  then show "bit x n = bit y n" using assms by (elim disjE) simp_all
qed

lemma byte_high: "8 \<le> n \<Longrightarrow> \<not> bit (a :: byte) n"
  using bit_imp_le_length [of a n] by auto

lemma sextet_less:
  fixes a b :: byte
  shows "drop_bit 2 a < 64" "take_bit 6 a < 64" "push_bit 4 (take_bit 2 a) < 64"
    "push_bit 4 (take_bit 2 a) OR drop_bit 4 b < 64" "push_bit 2 (take_bit 4 a) < 64"
    "push_bit 2 (take_bit 4 a) OR drop_bit 6 b < 64"
proof -
  have less: "x < 64" if "take_bit 6 x = x" for x :: byte
  proof -
    have "x = x mod 64" using that by (simp add: take_bit_eq_mod)
    also have "x mod 64 < 64" by (rule word_mod_less_divisor) simp
    finally show ?thesis .
  qed
  show "drop_bit 2 a < 64" "take_bit 6 a < 64" "push_bit 4 (take_bit 2 a) < 64"
    "push_bit 4 (take_bit 2 a) OR drop_bit 4 b < 64" "push_bit 2 (take_bit 4 a) < 64"
    "push_bit 2 (take_bit 4 a) OR drop_bit 6 b < 64"
    by (rule less, rule byte_eqI, simp_all add: bit_simps byte_high)+
qed

lemma sextets_join:
  fixes a b c :: byte
  shows "push_bit 2 (drop_bit 2 a) OR drop_bit 4 (push_bit 4 (take_bit 2 a) OR drop_bit 4 b) = a"
    "push_bit 2 (drop_bit 2 a) OR drop_bit 4 (push_bit 4 (take_bit 2 a)) = a"
    "push_bit 4 (push_bit 4 (take_bit 2 a) OR drop_bit 4 b) OR drop_bit 2 (push_bit 2 (take_bit 4 b) OR drop_bit 6 c) = b"
    "push_bit 4 (push_bit 4 (take_bit 2 a) OR drop_bit 4 b) OR drop_bit 2 (push_bit 2 (take_bit 4 b)) = b"
    "push_bit 6 (push_bit 2 (take_bit 4 b) OR drop_bit 6 c) OR take_bit 6 c = c"
  by (rule byte_eqI, simp_all del: push_bit_or drop_bit_or take_bit_or add: bit_simps byte_high)+

lemma b64_loop_stop:
  "b64_loop strict cap pos b0 b1 b2 r out (0 # p) = Inr (r, if pos mod 4 \<noteq> 0 then 1 else 0, out)"
  by (simp add: b64revtb_def)

lemma b64_loop_pad1:
  "pos mod 4 = 3 \<Longrightarrow> b64_loop strict cap pos b0 b1 b2 r out (0x3D # p) =
     cbind (b64_store cap out [b0, b1]) (\<lambda>out. Inr (r + 2, 0, out))"
  by (simp add: b64revtb_def)

lemma b64_loop_pad2:
  "pos mod 4 = 2 \<Longrightarrow> b64_loop strict cap pos b0 b1 b2 r out (0x3D # 0x3D # p) =
     cbind (b64_store cap out [b0]) (\<lambda>out. Inr (r + 1, 0, out))"
  by (simp add: b64revtb_def)

lemma mod4_suc: "pos mod 4 = k \<Longrightarrow> k < 3 \<Longrightarrow> Suc pos mod 4 = Suc k" for pos :: nat
  by (simp add: mod_Suc)

lemma b64_loop_encode:
  assumes "pos mod 4 = 0" "length out \<le> cap"
  shows "b64_loop strict cap pos b0 b1 b2 r out (b64_encode bs @ 0 # rest) =
     (if length out + length bs \<le> cap then Inr (r + length bs, 0, out @ bs) else Inl OutOfBounds)"
  using assms
proof (induction bs arbitrary: pos b0 b1 b2 r out rule: b64_encode.induct)
  case 1
  then show ?case by (simp add: b64_loop_stop del: b64_loop.simps)
next
  case (2 a)
  note pos = 2(1) mod4_suc [OF 2(1)] mod4_suc [OF mod4_suc [OF 2(1)]]
  show ?case
    using 2(2) pos
    by (simp add: b64_loop_char sextet_less b64_loop_pad2 b64_store_def sextets_join del: b64_loop.simps push_bit_or drop_bit_or)
next
  case (3 a b)
  note pos = 3(1) mod4_suc [OF 3(1)] mod4_suc [OF mod4_suc [OF 3(1)]] mod4_suc [OF mod4_suc [OF mod4_suc [OF 3(1)]]]
  show ?case
    using 3(2) pos
    by (simp add: b64_loop_char sextet_less b64_loop_pad1 b64_store_def sextets_join del: b64_loop.simps push_bit_or drop_bit_or)
next
  case (4 a b c bs)
  note pos = 4(2) mod4_suc [OF 4(2)] mod4_suc [OF mod4_suc [OF 4(2)]] mod4_suc [OF mod4_suc [OF mod4_suc [OF 4(2)]]]
  have pos4: "Suc (Suc (Suc (Suc pos))) mod 4 = 0" using 4(2) by (simp add: mod_Suc)
  have step: "b64_loop strict cap pos b0 b1 b2 r out (b64_encode (a # b # c # bs) @ 0 # rest) =
      cbind (b64_store cap out [a, b, c]) (\<lambda>out.
        b64_loop strict cap (Suc (Suc (Suc (Suc pos)))) a b c (r + 3) out (b64_encode bs @ 0 # rest))"
    using pos
    by (simp add: b64_loop_char sextet_less sextets_join del: b64_loop.simps push_bit_or drop_bit_or)
  show ?case
  proof (cases "length out + 3 \<le> cap")
    case True
    then show ?thesis using 4(1) [OF pos4, of "out @ [a, b, c]" a b c "r + 3"] step
      by (simp add: b64_store_def del: b64_loop.simps)
  next
    case False
    then show ?thesis using step by (simp add: b64_store_def del: b64_loop.simps b64_encode.simps)
  qed
qed

section \<open>A PEM file\<close>

definition nl_free :: "bytes \<Rightarrow> bool" where
  "nl_free bs \<longleftrightarrow> (\<forall>c \<in> set bs. \<not> is_nl c)"

definition pem_body :: "bytes list \<Rightarrow> bytes" where
  "pem_body ls = concat (map (\<lambda>l. 0x0A # l) ls)"

text \<open>A header line, the lines of the body and a footer line.\<close>

definition pem_file :: "bytes \<Rightarrow> bytes list \<Rightarrow> bytes \<Rightarrow> bytes" where
  "pem_file h ls f = h @ pem_body ls @ 0x0A # f @ [0x0A]"

lemma is_nl_lf [simp]: "is_nl 0x0A" "\<not> is_nl 0x3D"
  by (simp_all add: is_nl_def)

lemma b64_char_no_nl: "s < 64 \<Longrightarrow> \<not> is_nl (b64_char s)"
proof -
  assume "s < 64"
  then have "b64revtb (b64_char s) = uint s" by (rule b64revtb_char)
  moreover have "0 \<le> uint s" by simp
  ultimately have "b64revtb (b64_char s) \<noteq> -1" by linarith
  then show "\<not> is_nl (b64_char s)" by (auto simp: is_nl_def b64revtb_def)
qed

lemma b64_encode_nl_free: "nl_free (b64_encode bs)"
  by (induction bs rule: b64_encode.induct) (auto simp: nl_free_def b64_char_no_nl sextet_less)

lemma last_nl_at:
  assumes "is_nl (pem ! k)" "int k \<le> i" "\<And>j. k < j \<Longrightarrow> int j \<le> i \<Longrightarrow> \<not> is_nl (pem ! j)"
  shows "last_nl pem i = int k"
  using assms(2,3)
proof (induction "nat (i - int k)" arbitrary: i)
  case 0
  then have "i = int k" by simp
  then show ?case using assms(1) by (simp add: last_nl.simps)
next
  case (Suc n)
  then have "k < nat i" "int (nat i) \<le> i" by simp_all
  then have "\<not> is_nl (pem ! nat i)" by (rule Suc.prems(2))
  moreover have "last_nl pem (i - 1) = int k"
    by (rule Suc.hyps(1)) (use Suc.hyps(2) Suc.prems in auto)
  ultimately show ?case using Suc.prems(1) by (simp add: last_nl.simps [of pem i])
qed

lemma filter_pem_body: "\<forall>l \<in> set ls. nl_free l \<Longrightarrow> filter (\<lambda>c. \<not> is_nl c) (pem_body ls) = concat ls"
  by (induction ls) (simp_all add: pem_body_def nl_free_def)

lemma PEM_strip_file:
  assumes "nl_free h" "nl_free f" "3 \<le> length f" "\<forall>l \<in> set ls. nl_free l" "ls \<noteq> []"
  shows "PEM_strip (pem_file h ls f) = concat ls"
proof -
  let ?pem = "pem_file h ls f" and ?pre = "h @ pem_body ls"
  obtain b where body: "pem_body ls = 0x0A # b"
    using assms(5) by (cases ls) (simp_all add: pem_body_def)
  have first: "first_nl ?pem = length h"
  proof -
    have "takeWhile (\<lambda>c. \<not> is_nl c) ?pem = h"
      unfolding pem_file_def by (subst body, subst takeWhile_append2) (use assms(1) in \<open>auto simp: nl_free_def\<close>)
    then show ?thesis by (simp add: first_nl_def)
  qed
  have len: "int (length ?pem) - 5 = int (length ?pre) + int (length f) - 3"
    by (simp add: pem_file_def)
  have "last_nl ?pem (int (length ?pem) - 5) = int (length ?pre)"
  proof (rule last_nl_at)
    show "is_nl (?pem ! length ?pre)" by (simp add: pem_file_def nth_append)
    show "int (length ?pre) \<le> int (length ?pem) - 5" using len assms(3) by linarith
    fix j assume j: "length ?pre < j" "int j \<le> int (length ?pem) - 5"
    then have "j = length ?pre + Suc (j - length ?pre - 1)" by linarith
    then obtain k where k: "j = length ?pre + Suc k" ..
    then have "k < length f" using j(2) len by linarith
    moreover have "?pem ! j = (f @ [0x0A]) ! k"
      unfolding k pem_file_def append_assoc [symmetric] by (simp add: nth_append)
    ultimately show "\<not> is_nl (?pem ! j)" using assms(2) by (simp add: nth_append nl_free_def)
  qed
  then have "PEM_strip ?pem = filter (\<lambda>c. \<not> is_nl c) (drop (length h + 1) ?pre)"
    by (simp add: PEM_strip_def first) (simp add: pem_file_def)
  also have "\<dots> = filter (\<lambda>c. \<not> is_nl c) (pem_body ls)"
    by (simp add: body)
  finally show ?thesis using filter_pem_body [OF assms(4)] by simp
qed

lemma PEM2DER_file:
  assumes "nl_free h" "nl_free f" "3 \<le> length f" "concat ls = b64_encode der" "der \<noteq> []"
  shows "PEM2DER True cap (Some (pem_file h ls f)) =
     (if length der \<le> cap then Inr (0, Some (length der), der) else Inl OutOfBounds)"
proof -
  have ne: "b64_encode der \<noteq> []" using assms(5) by (cases der rule: b64_encode.cases) simp_all
  then have ls: "ls \<noteq> []" using assms(4) by auto
  have "nl_free (concat ls)" using b64_encode_nl_free by (simp add: assms(4))
  then have nf: "\<forall>l \<in> set ls. nl_free l" by (auto simp: nl_free_def)
  note strip = PEM_strip_file [OF assms(1-3) nf ls, unfolded assms(4)]
  have "length (b64_encode der) \<le> length (pem_body ls)"
    unfolding assms(4) [symmetric] by (induction ls) (simp_all add: pem_body_def)
  then have "length (b64_encode der) < length (pem_file h ls f)" by (simp add: pem_file_def)
  then obtain k where k: "length (pem_file h ls f) - length (b64_encode der) = Suc k"
    by (metis zero_less_diff gr0_implies_Suc)
  have "raw_base64_decode cap (b64_encode der @ 0 # replicate k 0) False =
      (if length der \<le> cap then Inr (length der, 0, der) else Inl OutOfBounds)"
    using b64_loop_encode [of 0 "[]" cap] by (simp add: raw_base64_decode_def)
  then show ?thesis
    using ne k by (simp add: PEM2DER_def strip pem_file_def [of h ls f, symmetric]) (simp add: pem_file_def)
qed

definition PUB_KEY_MAX_SIZE :: nat where "PUB_KEY_MAX_SIZE = 626"

text \<open>
  C29.  \<open>PEM2DER\<close> inverts the PEM encoding: for a header, the base 64 text of a key
  broken into lines anywhere, and a footer, the bytes stored are the key and
  their count is its length, as long as the key fits the output buffer.
\<close>

theorem PEM2DER_roundtrip:
  assumes "nl_free h" "nl_free f" "3 \<le> length f" "concat ls = b64_encode der" "der \<noteq> []" "length der \<le> cap"
  shows "PEM2DER True cap (Some (pem_file h ls f)) = Inr (0, Some (length der), der)"
  using PEM2DER_file [OF assms(1-5), of cap] assms(6) by simp

text \<open>
  \<open>PEM2DER\<close> has no bound on what it stores: the PEM text of any key longer
  than the \<open>PUB_KEY_MAX_SIZE\<close> bytes of its callers' buffers makes it write
  behind the buffer.
\<close>

theorem PEM2DER_overflow:
  assumes "nl_free h" "nl_free f" "3 \<le> length f" "concat ls = b64_encode der" "PUB_KEY_MAX_SIZE < length der"
  shows "PEM2DER True PUB_KEY_MAX_SIZE (Some (pem_file h ls f)) = Inl OutOfBounds"
proof -
  have "der \<noteq> []" using assms(5) by auto
  from PEM2DER_file [OF assms(1-4) this, of PUB_KEY_MAX_SIZE] assms(5) show ?thesis by simp
qed

theorem PEM2DER_roundtrip_witness:
  "PEM2DER True PUB_KEY_MAX_SIZE (Some (pem_file [0x2D] [take 4 (b64_encode [1, 2, 3, 4]), drop 4 (b64_encode [1, 2, 3, 4])]
     [0x2D, 0x2D, 0x2D])) = Inr (0, Some 4, [1, 2, 3, 4])"
proof -
  have nf: "nl_free [0x2D]" "nl_free [0x2D, 0x2D, 0x2D]" "3 \<le> length [0x2D, 0x2D, 0x2D :: byte]"
    by (simp_all add: nl_free_def is_nl_def)
  have cat: "concat [take 4 (b64_encode bs), drop 4 (b64_encode bs)] = b64_encode bs" for bs
    by (simp only: concat.simps append_Nil2 append_take_drop_id)
  show ?thesis
    using PEM2DER_roundtrip [OF nf cat [of "[1, 2, 3, 4]"], of PUB_KEY_MAX_SIZE]
    by (simp add: PUB_KEY_MAX_SIZE_def del: b64_encode.simps)
qed

theorem PEM2DER_overflow_witness:
  "PEM2DER True PUB_KEY_MAX_SIZE (Some (pem_file [0x2D] [b64_encode (replicate 627 7)] [0x2D, 0x2D, 0x2D]))
     = Inl OutOfBounds"
  by (rule PEM2DER_overflow [where der = "replicate 627 7"])
    (simp_all add: nl_free_def is_nl_def PUB_KEY_MAX_SIZE_def)

end
