(* ===== verification/Sgx_Evidence.thy ===== *)
theory Sgx_Evidence
  imports Pem_Base64 Cbor_Model
begin

text \<open>
  SGX attestation evidence (\<open>src/libintel.c\<close>): how claims and evidence are made,
  and how \<open>extract_cbor_evidence_and_compare_hash\<close> and \<open>verify_SGX_evidence\<close> check
  what a peer sent.

  The record \<open>sgxenv\<close> holds libcbor, the hash functions (\<open>None\<close>: NULL), whether
  an allocation of a given size succeeds, and whether a decoding error is one of
  memory.  Offsets of the report data are those of the packed quote structs.
\<close>

unbundle bit_operations_syntax

datatype sgx_status =
    SGX_SUCCESS
  | SGX_ERROR_UNEXPECTED
  | SGX_ERROR_OUT_OF_MEMORY
  | SGX_ERROR_OUT_OF_EPC
  | SGX_ERROR_INVALID_SIGNATURE
  | SGX_ERROR_TLS_X509_INVALID_EXTENSION

record sgxenv =
  sg_cl :: cbor_lib
  sg_memerr :: "bytes \<Rightarrow> bool"
  sg_malloc :: "nat \<Rightarrow> bool"
  sg_sha256 :: "bytes \<Rightarrow> bytes option"
  sg_sha384 :: "bytes \<Rightarrow> bytes option"
  sg_sha512 :: "bytes \<Rightarrow> bytes option"

definition RAW_QUOTE_MAX_SIZE :: nat where "RAW_QUOTE_MAX_SIZE = 8192"
definition QUOTE_MIN_SIZE :: nat where "QUOTE_MIN_SIZE = 1020"
definition MAXSIZE_SER_TPM2_QUOTE :: nat where "MAXSIZE_SER_TPM2_QUOTE = 1000"
definition TEE_QUOTE_CBOR_TAG :: u64 where "TEE_QUOTE_CBOR_TAG = 60000"
definition TEE_TPM2_QUOTE_TAG :: u64 where "TEE_TPM2_QUOTE_TAG = 60004"

section \<open>Making claims and evidence\<close>

text \<open>
  \<open>cmem n\<close> says whether the \<open>n\<close>-th allocation of the function succeeds.  The
  result is the hash of the DER form of the key, \<open>None\<close> on an error.
\<close>

definition cbor_bstr_from_pk_sha :: "sgxenv \<Rightarrow> bytes \<Rightarrow> (nat \<Rightarrow> bool) \<Rightarrow> cbor option cres" where
  "cbor_bstr_from_pk_sha env pub_key cmem =
     cbind (PEM2DER (sg_malloc env (length pub_key)) PUB_KEY_MAX_SIZE (Some pub_key)) (\<lambda>(rc, n, der).
     if rc \<noteq> 0 then Inr None
     else case sg_sha256 env (take (case n of None \<Rightarrow> 0 | Some n \<Rightarrow> n) der) of
        None \<Rightarrow> Inr None
      | Some h \<Rightarrow>
          if \<not> cmem 0 then Inr None
          else if \<not> cmem 1 then Inr None
          else Inr (Some (CBytes True h)))"

definition make_cbor_pkhash_entry :: "sgxenv \<Rightarrow> bytes \<Rightarrow> (nat \<Rightarrow> bool) \<Rightarrow> bytes option cres" where
  "make_cbor_pkhash_entry env pub_key cmem =
     (if \<not> cmem 2 then Inr None
      else if \<not> cmem 3 then Inr None
      else cbind (cbor_bstr_from_pk_sha env pub_key cmem) (\<lambda>h.
        case h of None \<Rightarrow> Inr None
        | Some hash \<Rightarrow>
            if \<not> cmem 4 then Inr None
            else Inr (Some (cl_ser (sg_cl env) (CArr True [CUint 1 1, hash])))))"

definition make_cbor_sgx_claims :: "sgxenv \<Rightarrow> bytes \<Rightarrow> (nat \<Rightarrow> bool) \<Rightarrow> (int \<times> bytes option) cres" where
  "make_cbor_sgx_claims env pubkey cmem =
     (if \<not> cmem 5 then Inr (-1, None)
      else if \<not> cmem 6 then Inr (-1, None)
      else cbind (make_cbor_pkhash_entry env pubkey cmem) (\<lambda>e.
        case e of None \<Rightarrow> Inr (-1, None)
        | Some entry \<Rightarrow>
            if \<not> cmem 7 then Inr (-1, None)
            else if \<not> cmem 8 then Inr (-1, None)
            else Inr (0, Some (cl_ser (sg_cl env) (CMap True [(CText True (to_bytes ''pubkey-hash''), CBytes True entry)])))))"

text \<open>
  A tag that cannot be allocated is released through its NULL pointer.  The
  serialized evidence is NULL when its buffer cannot be allocated.
\<close>

definition make_cbor_sgx_evidence ::
    "sgxenv \<Rightarrow> bytes \<Rightarrow> bytes \<Rightarrow> u64 \<Rightarrow> (nat \<Rightarrow> bool) \<Rightarrow> (int \<times> bytes option) cres" where
  "make_cbor_sgx_evidence env quote claim ctype cmem =
     (if \<not> cmem 0 then Inr (-1, None)
      else if \<not> cmem 1 then Inr (-1, None)
      else if \<not> cmem 2 then Inr (-1, None)
      else if \<not> cmem 3 then Inl NullDeref
      else Inr (0, if cmem 4 then Some (cl_ser (sg_cl env) (CTag ctype (CArr True [CBytes True quote, CBytes True claim])))
                   else None))"

section \<open>The report data of a quote\<close>

definition quote_hash_eq :: "bytes \<Rightarrow> nat \<Rightarrow> bytes option \<Rightarrow> nat \<Rightarrow> sgx_status cres" where
  "quote_hash_eq quote off sha n =
     (case sha of None \<Rightarrow> Inr SGX_ERROR_UNEXPECTED
      | Some h \<Rightarrow> cbind (memcmp_eq (drop off quote) h n) (\<lambda>eq.
          Inr (if eq then SGX_SUCCESS else SGX_ERROR_INVALID_SIGNATURE)))"

definition quote_type :: "bytes \<Rightarrow> u32" where
  "quote_type quote = le_word (take 4 (drop 4 quote))"

definition sgx_tls_compare_quote_hash :: "sgxenv \<Rightarrow> bytes option \<Rightarrow> bytes \<Rightarrow> sgx_status cres" where
  "sgx_tls_compare_quote_hash env p_quote in_buf =
     (case p_quote of None \<Rightarrow> Inr SGX_ERROR_UNEXPECTED
      | Some quote \<Rightarrow>
          if length quote < 8 then Inl OutOfBounds
          else if \<not> sg_malloc env 64 then Inr SGX_ERROR_OUT_OF_MEMORY
          else if quote_type quote = 0x81 then
            let version = le_word (take 2 quote) :: 16 word;
                off = (if version = 5 then 574 else 568)
            in quote_hash_eq quote off (sg_sha384 env in_buf) 48
          else if quote_type quote = 0 then quote_hash_eq quote 368 (sg_sha256 env in_buf) 32
          else Inr SGX_ERROR_UNEXPECTED)"

section \<open>The hash of the public key\<close>

definition cbor_array_is_definite :: "cbor option \<Rightarrow> bool cres" where
  "cbor_array_is_definite it = cbind (deref it) (\<lambda>x. case x of CArr d _ \<Rightarrow> Inr d | _ \<Rightarrow> Inl LibContract)"

definition definite_bstr :: "cbor \<Rightarrow> bytes option" where
  "definite_bstr x = (case x of CBytes True bs \<Rightarrow> Some bs | _ \<Rightarrow> None)"

definition hash_for :: "sgxenv \<Rightarrow> u64 \<Rightarrow> (nat \<times> (bytes \<Rightarrow> bytes option)) option" where
  "hash_for env alg =
     (if alg = 1 then Some (32, sg_sha256 env)
      else if alg = 7 then Some (48, sg_sha384 env)
      else if alg = 8 then Some (64, sg_sha512 env) else None)"

definition compare_cert_pubkey_against_cbor_claim_hash ::
    "sgxenv \<Rightarrow> bytes \<Rightarrow> cbor option \<Rightarrow> sgx_status cres" where
  "compare_cert_pubkey_against_cbor_claim_hash env pem cbor_hash_entry =
     cbind (PEM2DER (sg_malloc env (length pem)) PUB_KEY_MAX_SIZE (Some pem)) (\<lambda>(rc, n, der).
     if rc \<noteq> 0 then Inr SGX_ERROR_UNEXPECTED
     else
       cbind (cbor_isa_array cbor_hash_entry) (\<lambda>isarr.
       if \<not> isarr then Inr SGX_ERROR_TLS_X509_INVALID_EXTENSION
       else
         cbind (cbor_array_is_definite cbor_hash_entry) (\<lambda>isdef.
         cbind (cbor_array_items cbor_hash_entry) (\<lambda>items.
         if \<not> isdef \<or> length items \<noteq> 2 then Inr SGX_ERROR_TLS_X509_INVALID_EXTENSION
         else
           cbind (cbor_isa_uint (Some (items ! 0))) (\<lambda>isint.
           if \<not> isint then Inr SGX_ERROR_TLS_X509_INVALID_EXTENSION
           else case definite_bstr (items ! 1) of
              None \<Rightarrow> Inr SGX_ERROR_TLS_X509_INVALID_EXTENSION
            | Some hash_value \<Rightarrow>
                cbind (cbor_get_int (Some (items ! 0))) (\<lambda>alg.
                case hash_for env alg of
                  None \<Rightarrow> Inr SGX_ERROR_TLS_X509_INVALID_EXTENSION
                | Some (sha_size, sha) \<Rightarrow>
                    if length hash_value \<noteq> sha_size then Inr SGX_ERROR_TLS_X509_INVALID_EXTENSION
                    else case sha (take (case n of None \<Rightarrow> 0 | Some n \<Rightarrow> n) der) of
                       None \<Rightarrow> Inr SGX_ERROR_UNEXPECTED
                     | Some h \<Rightarrow> cbind (memcmp_eq hash_value h sha_size) (\<lambda>eq.
                         Inr (if eq then SGX_SUCCESS else SGX_ERROR_INVALID_SIGNATURE))))))))"

section \<open>Extracting quote and claims\<close>

text \<open>
  What the caller's variables hold.  \<open>so_ser\<close> are the first \<open>so_sersz\<close> bytes of
  \<open>out_sertpm2\<close>; a buffer that was never stored to is \<open>Garbage\<close>.
\<close>

record sgx_out =
  so_quote :: "bytes slot"
  so_ser :: "bytes slot"
  so_sersz :: nat
  so_nonce :: "bytes slot"
  so_ctype :: "u64 slot"

definition sgx_out_init :: sgx_out where
  "sgx_out_init = \<lparr>so_quote = Garbage, so_ser = Garbage, so_sersz = 0, so_nonce = Garbage, so_ctype = Garbage\<rparr>"

definition load_error :: "sgxenv \<Rightarrow> bytes \<Rightarrow> sgx_status \<Rightarrow> sgx_status \<Rightarrow> sgx_status" where
  "load_error env bs memerr other = (if sg_memerr env bs then memerr else other)"

definition pubkey_claim :: "sgxenv \<Rightarrow> bytes \<Rightarrow> cbor \<Rightarrow> sgx_status cres" where
  "pubkey_claim env pem val =
     (case definite_bstr val of
        None \<Rightarrow> Inr SGX_ERROR_TLS_X509_INVALID_EXTENSION
      | Some buf \<Rightarrow>
          if buf = [] then Inr SGX_ERROR_TLS_X509_INVALID_EXTENSION
          else case cl_load (sg_cl env) buf of
             None \<Rightarrow> Inr (load_error env buf SGX_ERROR_OUT_OF_EPC SGX_ERROR_TLS_X509_INVALID_EXTENSION)
           | Some entry \<Rightarrow> compare_cert_pubkey_against_cbor_claim_hash env pem (Some entry))"

text \<open>
  The loop over the claims.  The values of \<open>tpm2-quote\<close> and \<open>nonce\<close> are taken as
  byte strings unchecked.
\<close>

fun claims_loop ::
    "sgxenv \<Rightarrow> bytes \<Rightarrow> (cbor \<times> cbor) list \<Rightarrow> sgx_out \<Rightarrow> (sgx_status \<times> sgx_out) cres" where
  "claims_loop env pem [] st = Inr (SGX_SUCCESS, st)"
| "claims_loop env pem ((key, val) # kvs) st =
     (case key of
        CText True k \<Rightarrow>
          if k = [] then Inr (SGX_ERROR_TLS_X509_INVALID_EXTENSION, st)
          else if key_matches ''pubkey-hash'' k then
            cbind (pubkey_claim env pem val) (\<lambda>ret.
            if ret \<noteq> SGX_SUCCESS then Inr (ret, st) else claims_loop env pem kvs st)
          else if key_matches ''tpm2-quote'' k then
            cbind (cbor_bytestring (Some val)) (\<lambda>buf.
            if length buf \<le> MAXSIZE_SER_TPM2_QUOTE
            then claims_loop env pem kvs (st\<lparr>so_sersz := length buf, so_ser := Val buf\<rparr>)
            else claims_loop env pem kvs (st\<lparr>so_sersz := 0\<rparr>))
          else if key_matches ''nonce'' k then
            cbind (cbor_bytestring (Some val)) (\<lambda>buf.
            if length buf \<noteq> 32 then claims_loop env pem kvs st
            else claims_loop env pem kvs (st\<lparr>so_nonce := Val buf\<rparr>))
          else claims_loop env pem kvs st
      | _ \<Rightarrow> Inr (SGX_ERROR_TLS_X509_INVALID_EXTENSION, st))"

definition check_claims ::
    "sgxenv \<Rightarrow> bytes \<Rightarrow> bytes \<Rightarrow> bytes \<Rightarrow> sgx_out \<Rightarrow> (sgx_status \<times> sgx_out) cres" where
  "check_claims env pem quote claims st =
     cbind (sgx_tls_compare_quote_hash env (Some quote) claims) (\<lambda>ret.
     if ret \<noteq> SGX_SUCCESS then Inr (ret, st)
     else case cl_load (sg_cl env) claims of
        None \<Rightarrow> Inr (load_error env claims SGX_ERROR_OUT_OF_MEMORY SGX_ERROR_TLS_X509_INVALID_EXTENSION, st)
      | Some (CMap True kvs) \<Rightarrow>
          if length kvs < 1 then Inr (SGX_ERROR_TLS_X509_INVALID_EXTENSION, st)
          else
            cbind (claims_loop env pem kvs st) (\<lambda>(ret, st).
            if ret \<noteq> SGX_SUCCESS then Inr (ret, st)
            else if length quote > RAW_QUOTE_MAX_SIZE then Inl OutOfBounds
            else Inr (SGX_SUCCESS, st\<lparr>so_quote := Val quote\<rparr>))
      | Some _ \<Rightarrow> Inr (SGX_ERROR_TLS_X509_INVALID_EXTENSION, st))"

text \<open>
  \<open>out_quote\<close> is the caller's buffer of \<open>RAW_QUOTE_MAX_SIZE\<close> bytes; a longer quote is
  copied behind it.
\<close>

definition extract_cbor_evidence_and_compare_hash ::
    "sgxenv \<Rightarrow> bytes \<Rightarrow> bytes \<Rightarrow> (sgx_status \<times> sgx_out) cres" where
  "extract_cbor_evidence_and_compare_hash env evidence pem =
     (let st = sgx_out_init; bad = SGX_ERROR_TLS_X509_INVALID_EXTENSION in
      if evidence = [] then Inr (SGX_ERROR_UNEXPECTED, st)
      else case cl_load (sg_cl env) evidence of
         None \<Rightarrow> Inr (load_error env evidence SGX_ERROR_OUT_OF_MEMORY SGX_ERROR_UNEXPECTED, st)
       | Some (CTag tag item) \<Rightarrow>
           let st = st\<lparr>so_ctype := Val tag\<rparr> in
           if tag \<noteq> TEE_QUOTE_CBOR_TAG \<and> tag \<noteq> TEE_TPM2_QUOTE_TAG then Inr (bad, st)
           else (case item of
              CArr True [q, c] \<Rightarrow>
                (case definite_bstr q of
                   None \<Rightarrow> Inr (bad, st)
                 | Some quote \<Rightarrow>
                     if quote = [] then Inr (bad, st)
                     else if length quote < QUOTE_MIN_SIZE then Inr (bad, st)
                     else if \<not> sg_malloc env (length quote) then Inr (SGX_ERROR_OUT_OF_MEMORY, st)
                     else case definite_bstr c of
                        None \<Rightarrow> Inr (bad, st)
                      | Some claims \<Rightarrow>
                          if claims = [] then Inr (bad, st) else check_claims env pem quote claims st)
            | _ \<Rightarrow> Inr (bad, st))
       | Some _ \<Rightarrow> Inr (bad, st))"

section \<open>Verification\<close>

definition VERIFIED_QUOTE :: int where "VERIFIED_QUOTE = 1"
definition VERIFIED_EVIDENCE :: int where "VERIFIED_EVIDENCE = 2"

datatype qv_result =
    SGX_QL_QV_RESULT_OK
  | SGX_QL_QV_RESULT_OUT_OF_DATE
  | SGX_QL_QV_RESULT_INVALID_SIGNATURE
  | SGX_QL_QV_RESULT_REVOKED
  | SGX_QL_QV_RESULT_UNSPECIFIED
  | SGX_QL_QV_RESULT_OTHER nat

text \<open>
  The calls out of the enclave: status of the call and \<open>quote3_error_t\<close> (0 is
  success) with the size of the supplemental data, status of the random
  generator, the result the quote verification stores (\<open>Garbage\<close>: none), and the
  two results of \<open>ocall_verify_tpm2_quote\<close>.
\<close>

record 'w qve =
  qe_supp_size :: "'w \<Rightarrow> (int \<times> int \<times> nat) \<times> 'w"
  qe_read_rand :: "'w \<Rightarrow> int \<times> 'w"
  qe_verify_quote :: "bytes \<Rightarrow> 'w \<Rightarrow> qv_result slot \<times> 'w"
  qe_verify_tpm2 :: "bytes \<Rightarrow> bytes \<Rightarrow> 'w \<Rightarrow> (int \<times> int) \<times> 'w"

definition qv_fatal :: "qv_result \<Rightarrow> bool" where
  "qv_fatal r \<longleftrightarrow> r = SGX_QL_QV_RESULT_INVALID_SIGNATURE \<or> r = SGX_QL_QV_RESULT_REVOKED \<or>
     r = SGX_QL_QV_RESULT_UNSPECIFIED"

definition verify_SGX_quote :: "bytes \<Rightarrow> bytes \<Rightarrow> bytes \<Rightarrow> int" where
  "verify_SGX_quote oct pem nonce = VERIFIED_QUOTE"

definition check_nonce_and_tpm2 :: "'w qve \<Rightarrow> sgx_out \<Rightarrow> bytes \<Rightarrow> 'w \<Rightarrow> (int \<times> 'w) cres" where
  "check_nonce_and_tpm2 qe st nonce w =
     cbind (rd (so_nonce st)) (\<lambda>out_nonce.
     cbind (memcmp_eq nonce out_nonce 32) (\<lambda>eq.
     if \<not> eq then Inr (0, w)
     else
       cbind (rd (so_ctype st)) (\<lambda>ctype.
       if ctype = TEE_TPM2_QUOTE_TAG then
         cbind (if so_sersz st = 0 then Inr [] else rd (so_ser st)) (\<lambda>ser.
         let ((rc, orc), w) = qe_verify_tpm2 qe (take (so_sersz st) ser) nonce w in
         if rc \<noteq> 0 \<or> orc < 0 then Inr (0, w) else Inr (VERIFIED_EVIDENCE, w))
       else Inr (VERIFIED_EVIDENCE, w))))"

text \<open>The status of the call that verifies the quote is not looked at, only \<open>qv_result\<close>.\<close>

definition verify_SGX_evidence ::
    "sgxenv \<Rightarrow> 'w qve \<Rightarrow> bytes \<Rightarrow> bytes \<Rightarrow> bytes \<Rightarrow> 'w \<Rightarrow> (int \<times> 'w) cres" where
  "verify_SGX_evidence env qe evi pem nonce w =
     (if \<not> sg_malloc env RAW_QUOTE_MAX_SIZE then Inr (0, w)
      else
        cbind (extract_cbor_evidence_and_compare_hash env evi pem) (\<lambda>(rc, st).
        if rc \<noteq> SGX_SUCCESS then Inr (0, w)
        else
          let ((rc, qrc, supsz), w) = qe_supp_size qe w in
          if rc \<noteq> 0 then Inr (0, w)
          else if qrc \<noteq> 0 then Inr (0, w)
          else if \<not> sg_malloc env supsz then Inr (0, w)
          else
            let (rc, w) = qe_read_rand qe w in
            if rc \<noteq> 0 then Inr (0, w)
            else
              cbind (rd (so_quote st)) (\<lambda>quote.
              let (qv, w) = qe_verify_quote qe quote w in
              cbind (rd qv) (\<lambda>res.
              if qv_fatal res then Inr (0, w)
              else check_nonce_and_tpm2 qe st nonce w))))"

section \<open>What an accepted evidence contains\<close>

definition claim_ok :: "sgxenv \<Rightarrow> bytes \<Rightarrow> cbor \<times> cbor \<Rightarrow> bool" where
  "claim_ok env pem kv \<longleftrightarrow> (\<exists>k. fst kv = CText True k \<and> k \<noteq> [] \<and>
     (key_matches ''pubkey-hash'' k \<longrightarrow> pubkey_claim env pem (snd kv) = Inr SGX_SUCCESS))"

definition nonce_claim :: "bytes \<Rightarrow> cbor \<times> cbor \<Rightarrow> bool" where
  "nonce_claim n kv \<longleftrightarrow> (\<exists>k. kv = (CText True k, CBytes True n) \<and> key_matches ''nonce'' k) \<and> length n = 32"

lemma cbor_bytestring_Inr: "cbor_bytestring (Some x) = Inr bs \<longleftrightarrow> x = CBytes True bs"
  by (cases x) (auto simp: cbor_bytestring_def split: bool.splits)

lemma claims_loop_step:
  assumes "claims_loop env pem (kv # kvs) st = Inr (SGX_SUCCESS, st')"
  shows "claim_ok env pem kv \<and> (\<exists>st1. claims_loop env pem kvs st1 = Inr (SGX_SUCCESS, st') \<and>
     so_ctype st1 = so_ctype st \<and>
     (so_nonce st1 = so_nonce st \<or> (\<exists>n. nonce_claim n kv \<and> so_nonce st1 = Val n)))"
proof -
  obtain key val where kv: "kv = (key, val)" by (cases kv)
  have "\<exists>k. key = CText True k" using assms by (cases key) (auto simp: kv split: bool.splits)
  then obtain k where k: "key = CText True k" ..
  have ne: "k \<noteq> []" using assms by (auto simp: kv k)
  consider (pub) "key_matches ''pubkey-hash'' k"
    | (tpm) "\<not> key_matches ''pubkey-hash'' k" "key_matches ''tpm2-quote'' k"
    | (nonce) "\<not> key_matches ''pubkey-hash'' k" "\<not> key_matches ''tpm2-quote'' k" "key_matches ''nonce'' k"
    | (other) "\<not> key_matches ''pubkey-hash'' k" "\<not> key_matches ''tpm2-quote'' k" "\<not> key_matches ''nonce'' k"
    by blast
  then show ?thesis
  proof cases
    case pub
    then show ?thesis using assms ne by (auto simp: kv k claim_ok_def cbind_eq_Inr split: if_splits)
  next
    case tpm
    then have ok: "claim_ok env pem kv" using ne by (simp add: claim_ok_def kv k)
    from assms tpm ne obtain buf where buf: "cbor_bytestring (Some val) = Inr buf"
      "(if length buf \<le> MAXSIZE_SER_TPM2_QUOTE
        then claims_loop env pem kvs (st\<lparr>so_sersz := length buf, so_ser := Val buf\<rparr>)
        else claims_loop env pem kvs (st\<lparr>so_sersz := 0\<rparr>)) = Inr (SGX_SUCCESS, st')"
      by (auto simp: kv k cbind_eq_Inr)
    show ?thesis
    proof (cases "length buf \<le> MAXSIZE_SER_TPM2_QUOTE")
      case True
      with ok buf(2) show ?thesis
        by (intro conjI exI [of _ "st\<lparr>so_sersz := length buf, so_ser := Val buf\<rparr>"]) simp_all
    next
      case False
      with ok buf(2) show ?thesis by (intro conjI exI [of _ "st\<lparr>so_sersz := 0\<rparr>"]) simp_all
    qed
  next
    case nonce
    then have ok: "claim_ok env pem kv" using ne by (simp add: claim_ok_def kv k)
    from assms nonce ne obtain buf where buf: "cbor_bytestring (Some val) = Inr buf"
      "(if length buf \<noteq> 32 then claims_loop env pem kvs st
        else claims_loop env pem kvs (st\<lparr>so_nonce := Val buf\<rparr>)) = Inr (SGX_SUCCESS, st')"
      by (auto simp: kv k cbind_eq_Inr)
    show ?thesis
    proof (cases "length buf \<noteq> 32")
      case True
      with ok buf(2) show ?thesis by (intro conjI exI [of _ st]) simp_all
    next
      case False
      then have "nonce_claim buf kv"
        using nonce(3) buf(1) by (simp add: nonce_claim_def kv k cbor_bytestring_Inr)
      with False ok buf(2) show ?thesis by (intro conjI exI [of _ "st\<lparr>so_nonce := Val buf\<rparr>"]) auto
    qed
  next
    case other
    then show ?thesis using assms ne by (auto simp: claim_ok_def kv k)
  qed
qed

lemma claims_loop_ok:
  assumes "claims_loop env pem kvs st = Inr (SGX_SUCCESS, st')"
  shows "list_all (claim_ok env pem) kvs \<and> so_ctype st' = so_ctype st \<and>
     (so_nonce st' = so_nonce st \<or> (\<exists>kv \<in> set kvs. \<exists>n. nonce_claim n kv \<and> so_nonce st' = Val n))"
  using assms
proof (induction kvs arbitrary: st)
  case (Cons kv kvs)
  from claims_loop_step [OF Cons.prems] obtain st1 where st1: "claim_ok env pem kv"
    "claims_loop env pem kvs st1 = Inr (SGX_SUCCESS, st')" "so_ctype st1 = so_ctype st"
    "so_nonce st1 = so_nonce st \<or> (\<exists>n. nonce_claim n kv \<and> so_nonce st1 = Val n)" by blast
  from Cons.IH [OF st1(2)] st1 show ?case by auto
qed simp

text \<open>The parts of an evidence item.\<close>

definition evidence_parts :: "sgxenv \<Rightarrow> bytes \<Rightarrow> u64 \<Rightarrow> bytes \<Rightarrow> bytes \<Rightarrow> (cbor \<times> cbor) list \<Rightarrow> bool" where
  "evidence_parts env evi tag quote claims kvs \<longleftrightarrow>
     cl_load (sg_cl env) evi = Some (CTag tag (CArr True [CBytes True quote, CBytes True claims])) \<and>
     (tag = TEE_QUOTE_CBOR_TAG \<or> tag = TEE_TPM2_QUOTE_TAG) \<and> QUOTE_MIN_SIZE \<le> length quote \<and>
     length quote \<le> RAW_QUOTE_MAX_SIZE \<and> cl_load (sg_cl env) claims = Some (CMap True kvs) \<and> kvs \<noteq> []"

lemma definite_bstr_Some [simp]: "definite_bstr x = Some bs \<longleftrightarrow> x = CBytes True bs"
  by (cases x) (auto simp: definite_bstr_def split: bool.splits)

lemma definite_bstr_CBytes [simp]: "definite_bstr (CBytes True bs) = Some bs"
  by simp

lemma extract_ok:
  assumes "extract_cbor_evidence_and_compare_hash env evi pem = Inr (SGX_SUCCESS, st)"
  shows "\<exists>tag quote claims kvs st1. evidence_parts env evi tag quote claims kvs \<and>
     sgx_tls_compare_quote_hash env (Some quote) claims = Inr SGX_SUCCESS \<and>
     claims_loop env pem kvs (sgx_out_init\<lparr>so_ctype := Val tag\<rparr>) = Inr (SGX_SUCCESS, st1) \<and>
     st = st1\<lparr>so_quote := Val quote\<rparr>"
proof -
  have ne: "load_error env bs SGX_ERROR_OUT_OF_MEMORY x \<noteq> SGX_SUCCESS" if "x \<noteq> SGX_SUCCESS" for bs x
    using that by (simp add: load_error_def)
  from assms obtain tag item where load: "cl_load (sg_cl env) evi = Some (CTag tag item)"
    by (auto simp: extract_cbor_evidence_and_compare_hash_def Let_def ne split: if_splits option.splits cbor.splits)
  note run = assms [unfolded extract_cbor_evidence_and_compare_hash_def load Let_def]
  from run obtain q c where item: "item = CArr True [q, c]"
    by (auto split: if_splits cbor.splits bool.splits list.splits)
  from run obtain quote where q: "q = CBytes True quote"
    by (auto simp: item split: if_splits option.splits)
  from run obtain claims where c: "c = CBytes True claims"
    by (auto simp: item q split: if_splits option.splits)
  have tag: "tag = TEE_QUOTE_CBOR_TAG \<or> tag = TEE_TPM2_QUOTE_TAG" "QUOTE_MIN_SIZE \<le> length quote"
    and chk: "check_claims env pem quote claims (sgx_out_init\<lparr>so_ctype := Val tag\<rparr>) = Inr (SGX_SUCCESS, st)"
    using run by (auto simp: item q c split: if_splits)
  then have hash: "sgx_tls_compare_quote_hash env (Some quote) claims = Inr SGX_SUCCESS"
    by (auto simp: check_claims_def cbind_eq_Inr split: if_splits)
  note chk = chk [unfolded check_claims_def hash cbind_Inr]
  from chk obtain kvs where kvs: "cl_load (sg_cl env) claims = Some (CMap True kvs)"
    by (auto simp: ne split: option.splits cbor.splits bool.splits if_splits)
  with chk show ?thesis
    using load tag hash
    by (auto simp: evidence_parts_def item q c cbind_eq_Inr not_less split: if_splits intro!: exI [of _ kvs])
qed

lemma verify_ok:
  assumes "verify_SGX_evidence env qe evi pem nonce w = Inr (VERIFIED_EVIDENCE, w')"
  shows "\<exists>st quote res w1 w2 w3. extract_cbor_evidence_and_compare_hash env evi pem = Inr (SGX_SUCCESS, st) \<and>
     so_quote st = Val quote \<and> qe_verify_quote qe quote w1 = (Val res, w2) \<and> \<not> qv_fatal res \<and>
     check_nonce_and_tpm2 qe st nonce w3 = Inr (VERIFIED_EVIDENCE, w')"
  using assms
  by (auto simp: verify_SGX_evidence_def cbind_eq_Inr Let_def case_prod_beta VERIFIED_EVIDENCE_def
      split: if_split_asm) (metis prod.collapse)

lemma check_nonce_ok:
  assumes "check_nonce_and_tpm2 qe st nonce w = Inr (VERIFIED_EVIDENCE, w')" "length nonce = 32"
  shows "\<exists>n. so_nonce st = Val n \<and> take 32 n = nonce"
  using assms by (auto simp: check_nonce_and_tpm2_def cbind_eq_Inr memcmp_eq_Inr VERIFIED_EVIDENCE_def split: if_split_asm)

lemma evidence_accepted:
  assumes "verify_SGX_evidence env qe evi pem nonce w = Inr (VERIFIED_EVIDENCE, w')" "length nonce = 32"
  shows "\<exists>tag quote claims kvs. evidence_parts env evi tag quote claims kvs \<and>
     sgx_tls_compare_quote_hash env (Some quote) claims = Inr SGX_SUCCESS \<and>
     list_all (claim_ok env pem) kvs \<and> list_ex (nonce_claim nonce) kvs \<and>
     (\<exists>res w1 w2. qe_verify_quote qe quote w1 = (Val res, w2) \<and> \<not> qv_fatal res)"
proof -
  from verify_ok [OF assms(1)] obtain st quote' res w1 w2 w3 where
    ext: "extract_cbor_evidence_and_compare_hash env evi pem = Inr (SGX_SUCCESS, st)"
    and q: "so_quote st = Val quote'" "qe_verify_quote qe quote' w1 = (Val res, w2)" "\<not> qv_fatal res"
    and chk: "check_nonce_and_tpm2 qe st nonce w3 = Inr (VERIFIED_EVIDENCE, w')" by blast
  from extract_ok [OF ext] obtain tag quote claims kvs st1 where
    parts: "evidence_parts env evi tag quote claims kvs"
      "sgx_tls_compare_quote_hash env (Some quote) claims = Inr SGX_SUCCESS"
    and loop: "claims_loop env pem kvs (sgx_out_init\<lparr>so_ctype := Val tag\<rparr>) = Inr (SGX_SUCCESS, st1)"
    and st: "st = st1\<lparr>so_quote := Val quote\<rparr>" by blast
  from check_nonce_ok [OF chk assms(2)] obtain n where n: "so_nonce st1 = Val n" "take 32 n = nonce"
    by (auto simp: st)
  note ok = claims_loop_ok [OF loop]
  with n obtain kv where "kv \<in> set kvs" "nonce_claim n kv" by (auto simp: sgx_out_init_def)
  moreover have "n = nonce" using n(2) calculation(2) by (simp add: nonce_claim_def)
  ultimately have "list_ex (nonce_claim nonce) kvs" by (auto simp: list_ex_iff)
  moreover have "quote' = quote" using q(1) st by simp
  ultimately show ?thesis using parts conjunct1 [OF ok] q(2,3) by blast
qed


lemma claims_loop_other_key:
  assumes "list_all (\<lambda>kv. \<forall>k. fst kv = CText True k \<longrightarrow> \<not> key_matches ''pubkey-hash'' k) kvs"
  shows "claims_loop env pem kvs st = claims_loop env pem' kvs st"
  using assms
proof (induction kvs arbitrary: st)
  case (Cons kv kvs)
  obtain key val where kv: "kv = (key, val)" by (cases kv)
  show ?case
  proof (cases "\<exists>k. key = CText True k")
    case True
    then obtain k where k: "key = CText True k" ..
    with Cons.prems have "\<not> key_matches ''pubkey-hash'' k" "list_all (\<lambda>kv. \<forall>k. fst kv = CText True k \<longrightarrow> \<not> key_matches ''pubkey-hash'' k) kvs"
      by (simp_all add: kv)
    with Cons.IH show ?thesis by (simp add: kv k cong: if_cong)
  next
    case False
    then have "claims_loop env p (kv # kvs) st = Inr (SGX_ERROR_TLS_X509_INVALID_EXTENSION, st)" for p
      by (cases key) (auto simp: kv split: bool.splits)
    then show ?thesis by simp
  qed
qed simp

text \<open>
  The binding to the peer's key is optional: claims without a
  \<open>pubkey-hash\<close> give the same verdict for any two public keys.
\<close>

theorem pubkey_hash_optional:
  assumes "cl_load (sg_cl env) evi = Some (CTag tag (CArr True [q, CBytes True claims]))"
    and "cl_load (sg_cl env) claims = Some (CMap True kvs)"
    and "list_all (\<lambda>kv. \<forall>k. fst kv = CText True k \<longrightarrow> \<not> key_matches ''pubkey-hash'' k) kvs"
  shows "verify_SGX_evidence env qe evi pem nonce w = verify_SGX_evidence env qe evi pem' nonce w"
proof -
  have "check_claims env pem quote claims st = check_claims env pem' quote claims st" for quote st
    using claims_loop_other_key [OF assms(3), of env pem _ pem'] by (simp add: check_claims_def assms(2) cong: if_cong)
  then have "extract_cbor_evidence_and_compare_hash env evi pem = extract_cbor_evidence_and_compare_hash env evi pem'"
    by (simp add: extract_cbor_evidence_and_compare_hash_def assms(1) Let_def cong: if_cong option.case_cong)
  then show ?thesis by (simp add: verify_SGX_evidence_def)
qed

lemma verify_values:
  assumes "verify_SGX_evidence env qe evi pem nonce w = Inr (rc, w')"
  shows "rc = 0 \<or> rc = VERIFIED_EVIDENCE"
  using assms
  by (auto simp: verify_SGX_evidence_def check_nonce_and_tpm2_def cbind_eq_Inr Let_def case_prod_beta split: if_split_asm)

section \<open>Evidence made by the enclave\<close>

definition own_entry :: "sgxenv \<Rightarrow> bytes \<Rightarrow> cbor" where
  "own_entry env h = CArr True [CUint 1 1, CBytes True h]"

definition own_claims :: "sgxenv \<Rightarrow> bytes \<Rightarrow> cbor" where
  "own_claims env h = CMap True [(CText True (to_bytes ''pubkey-hash''), CBytes True (cl_ser (sg_cl env) (own_entry env h)))]"

definition own_evidence :: "sgxenv \<Rightarrow> u64 \<Rightarrow> bytes \<Rightarrow> bytes \<Rightarrow> cbor" where
  "own_evidence env tag quote claims = CTag tag (CArr True [CBytes True quote, CBytes True claims])"

lemma key_pubkey: "key_matches ''pubkey-hash'' (to_bytes ''pubkey-hash'')"
  using strncmp_eq_refl [of "''pubkey-hash''"] by (simp add: key_matches_to_bytes)

lemma make_claims_ok:
  assumes "PEM2DER (sg_malloc env (length pem)) PUB_KEY_MAX_SIZE (Some pem) = Inr (0, Some (length der), der)"
    and "sg_sha256 env der = Some h" "cmem = (\<lambda>_. True)"
  shows "make_cbor_sgx_claims env pem cmem = Inr (0, Some (cl_ser (sg_cl env) (own_claims env h)))"
  using assms
  by (simp add: make_cbor_sgx_claims_def make_cbor_pkhash_entry_def cbor_bstr_from_pk_sha_def own_claims_def own_entry_def)

lemma pubkey_claim_own:
  assumes "PEM2DER (sg_malloc env (length pem)) PUB_KEY_MAX_SIZE (Some pem) = Inr (0, Some (length der), der)"
    and "sg_sha256 env der = Some h" "length h = 32"
    and "cbor_faithful (sg_cl env) (own_entry env h)" "cl_ser (sg_cl env) (own_entry env h) \<noteq> []"
  shows "pubkey_claim env pem (CBytes True (cl_ser (sg_cl env) (own_entry env h))) = Inr SGX_SUCCESS"
proof -
  have "cl_load (sg_cl env) (cl_ser (sg_cl env) (own_entry env h)) = Some (own_entry env h)"
    using assms(4) by (simp add: cbor_faithful_def)
  moreover have "compare_cert_pubkey_against_cbor_claim_hash env pem (Some (own_entry env h)) = Inr SGX_SUCCESS"
    using assms(1-3)
    by (simp add: compare_cert_pubkey_against_cbor_claim_hash_def own_entry_def cbor_array_is_definite_def
        hash_for_def)
  ultimately show ?thesis using assms(5) by (simp add: pubkey_claim_def)
qed

definition own_faithful :: "sgxenv \<Rightarrow> u64 \<Rightarrow> bytes \<Rightarrow> bytes \<Rightarrow> bool" where
  "own_faithful env tag h quote \<longleftrightarrow>
     (let ser = cl_ser (sg_cl env); claims = ser (own_claims env h) in
      cbor_faithful (sg_cl env) (own_entry env h) \<and> cbor_faithful (sg_cl env) (own_claims env h) \<and>
      cbor_faithful (sg_cl env) (own_evidence env tag quote claims) \<and>
      ser (own_entry env h) \<noteq> [] \<and> claims \<noteq> [] \<and> ser (own_evidence env tag quote claims) \<noteq> [])"

lemma own_claims_loop:
  assumes "pubkey_claim env pem (CBytes True (cl_ser (sg_cl env) (own_entry env h))) = Inr SGX_SUCCESS"
  shows "claims_loop env pem [(CText True (to_bytes ''pubkey-hash''), CBytes True (cl_ser (sg_cl env) (own_entry env h)))] st
     = Inr (SGX_SUCCESS, st)"
proof -
  have "to_bytes ''pubkey-hash'' \<noteq> []" by (simp add: to_bytes_def)
  then show ?thesis using assms key_pubkey by simp
qed

lemma extract_run:
  assumes load: "cl_load (sg_cl env) evi = Some (CTag tag (CArr True [CBytes True quote, CBytes True claims]))"
      "cl_load (sg_cl env) claims = Some (CMap True kvs)"
    and ne: "evi \<noteq> []" "claims \<noteq> []" "kvs \<noteq> []"
    and tag: "tag = TEE_QUOTE_CBOR_TAG \<or> tag = TEE_TPM2_QUOTE_TAG"
    and quote: "QUOTE_MIN_SIZE \<le> length quote" "length quote \<le> RAW_QUOTE_MAX_SIZE" "sg_malloc env (length quote)"
    and bound: "sgx_tls_compare_quote_hash env (Some quote) claims = Inr SGX_SUCCESS"
    and loop: "claims_loop env pem kvs (sgx_out_init\<lparr>so_ctype := Val tag\<rparr>) = Inr (SGX_SUCCESS, st)"
  shows "extract_cbor_evidence_and_compare_hash env evi pem = Inr (SGX_SUCCESS, st\<lparr>so_quote := Val quote\<rparr>)"
proof -
  have q: "quote \<noteq> []" using quote(1) by (auto simp: QUOTE_MIN_SIZE_def)
  have "check_claims env pem quote claims (sgx_out_init\<lparr>so_ctype := Val tag\<rparr>) = Inr (SGX_SUCCESS, st\<lparr>so_quote := Val quote\<rparr>)"
    using quote(2) ne(3) by (simp add: check_claims_def bound load(2) loop)
  then show ?thesis
    using tag quote(1,3) ne q by (simp add: extract_cbor_evidence_and_compare_hash_def load(1) Let_def)
qed

lemma extract_own:
  assumes faith: "own_faithful env tag h quote" and tag: "tag = TEE_QUOTE_CBOR_TAG \<or> tag = TEE_TPM2_QUOTE_TAG"
    and quote: "QUOTE_MIN_SIZE \<le> length quote" "length quote \<le> RAW_QUOTE_MAX_SIZE" "sg_malloc env (length quote)"
    and key: "pubkey_claim env pem (CBytes True (cl_ser (sg_cl env) (own_entry env h))) = Inr SGX_SUCCESS"
    and bound: "sgx_tls_compare_quote_hash env (Some quote) (cl_ser (sg_cl env) (own_claims env h)) = Inr SGX_SUCCESS"
  shows "extract_cbor_evidence_and_compare_hash env
       (cl_ser (sg_cl env) (own_evidence env tag quote (cl_ser (sg_cl env) (own_claims env h)))) pem =
     Inr (SGX_SUCCESS, sgx_out_init\<lparr>so_ctype := Val tag, so_quote := Val quote\<rparr>)"
  using faith
  by (intro extract_run [OF _ _ _ _ _ tag quote bound own_claims_loop [OF key]])
    (simp_all add: own_faithful_def cbor_faithful_def own_evidence_def own_claims_def Let_def)


text \<open>The calls out of the enclave go through, and the verification of the quote is not fatal.\<close>

definition qe_accepts :: "'w qve \<Rightarrow> nat \<Rightarrow> bytes \<Rightarrow> bool" where
  "qe_accepts qe n quote \<longleftrightarrow> qe_supp_size qe = (\<lambda>w. ((0, 0, n), w)) \<and> qe_read_rand qe = (\<lambda>w. (0, w)) \<and>
     (\<exists>res. \<not> qv_fatal res \<and> qe_verify_quote qe quote = (\<lambda>w. (Val res, w)))"

lemma verify_run:
  assumes "extract_cbor_evidence_and_compare_hash env evi pem = Inr (SGX_SUCCESS, st)" "so_quote st = Val quote"
    and "qe_accepts qe n quote" "sg_malloc env RAW_QUOTE_MAX_SIZE" "sg_malloc env n"
    and "so_nonce st = Val nonce" "length nonce = 32" "so_ctype st = Val TEE_TPM2_QUOTE_TAG"
    and "so_ser st = Val ser" "so_sersz st = length ser"
    and "qe_verify_tpm2 qe ser nonce w = ((0, orc), w')" "0 \<le> orc"
  shows "verify_SGX_evidence env qe evi pem nonce w = Inr (VERIFIED_EVIDENCE, w')"
  using assms
  by (auto simp: verify_SGX_evidence_def qe_accepts_def check_nonce_and_tpm2_def)

section \<open>A concrete peer\<close>

definition ex_pem :: bytes where
  "ex_pem = pem_file [0x2D] [b64_encode [1, 2, 3]] [0x2D, 0x2D, 0x2D]"

definition ex_quote :: bytes where
  "ex_quote = replicate 1020 0"

definition ex_env :: "(cbor \<times> cbor) list \<Rightarrow> sgxenv" where
  "ex_env kvs = \<lparr>sg_cl = \<lparr>cl_load = (\<lambda>bs.
        if bs = [1] then Some (CTag 60000 (CArr True [CBytes True ex_quote, CBytes True [2]]))
        else if bs = [2] then Some (CMap True kvs)
        else if bs = [3] then Some (CArr True [CUint 1 1, CBytes True (replicate 32 0)]) else None),
      cl_ser = (\<lambda>x. case x of CTag _ _ \<Rightarrow> [1] | CMap _ _ \<Rightarrow> [2] | _ \<Rightarrow> [3])\<rparr>,
    sg_memerr = (\<lambda>_. False), sg_malloc = (\<lambda>_. True), sg_sha256 = (\<lambda>_. Some (replicate 32 0)),
    sg_sha384 = (\<lambda>_. Some (replicate 48 0)), sg_sha512 = (\<lambda>_. Some (replicate 64 0))\<rparr>"

definition ex_key_claim :: "cbor \<times> cbor" where
  "ex_key_claim = (CText True (to_bytes ''pubkey-hash''), CBytes True [3])"

definition ex_nonce_claim :: "cbor \<times> cbor" where
  "ex_nonce_claim = (CText True (to_bytes ''nonce''), CBytes True (replicate 32 5))"

definition ex_qe :: "unit qve" where
  "ex_qe = \<lparr>qe_supp_size = (\<lambda>w. ((0, 0, 16), w)), qe_read_rand = (\<lambda>w. (0, w)),
     qe_verify_quote = (\<lambda>_ w. (Val SGX_QL_QV_RESULT_OK, w)), qe_verify_tpm2 = (\<lambda>_ _ w. ((0, 0), w))\<rparr>"

lemma ex_pem_der: "PEM2DER (sg_malloc (ex_env kvs) n) PUB_KEY_MAX_SIZE (Some ex_pem) = Inr (0, Some (length [1, 2, 3 :: byte]), [1, 2, 3])"
proof -
  have "PEM2DER True PUB_KEY_MAX_SIZE (Some (pem_file [0x2D] [b64_encode [1, 2, 3]] [0x2D, 0x2D, 0x2D])) =
      (if length [1, 2, 3 :: byte] \<le> PUB_KEY_MAX_SIZE then Inr (0, Some (length [1, 2, 3 :: byte]), [1, 2, 3]) else Inl OutOfBounds)"
    by (rule PEM2DER_file) (simp_all add: nl_free_def is_nl_def)
  then show ?thesis by (simp add: ex_env_def ex_pem_def PUB_KEY_MAX_SIZE_def)
qed

lemma ex_quote_binds: "sgx_tls_compare_quote_hash (ex_env kvs) (Some ex_quote) claims = Inr SGX_SUCCESS"
  by (simp add: sgx_tls_compare_quote_hash_def ex_env_def ex_quote_def quote_type_def quote_hash_eq_def memcmp_eq_def)
    (simp add: numeral_eq_Suc)

lemma ex_own:
  "cl_ser (sg_cl (ex_env kvs)) (own_entry (ex_env kvs) h) = [3]" "own_claims (ex_env kvs) h = CMap True [ex_key_claim]"
  by (simp_all add: ex_env_def own_entry_def own_claims_def ex_key_claim_def)

lemma ex_own_faithful: "own_faithful (ex_env [ex_key_claim]) TEE_QUOTE_CBOR_TAG (replicate 32 0) ex_quote"
  by (simp add: own_faithful_def cbor_faithful_def ex_own own_evidence_def Let_def TEE_QUOTE_CBOR_TAG_def)
    (simp add: ex_env_def own_entry_def)

lemma ex_key_claim_ok: "pubkey_claim (ex_env kvs) ex_pem (CBytes True [3]) = Inr SGX_SUCCESS"
proof -
  have "cbor_faithful (sg_cl (ex_env kvs)) (own_entry (ex_env kvs) (replicate 32 0))"
    "cl_ser (sg_cl (ex_env kvs)) (own_entry (ex_env kvs) (replicate 32 0)) \<noteq> []"
    "sg_sha256 (ex_env kvs) [1, 2, 3] = Some (replicate 32 0)" "length (replicate 32 (0::byte)) = 32"
    by (simp_all add: cbor_faithful_def ex_own) (simp_all add: ex_env_def own_entry_def)
  from pubkey_claim_own [OF ex_pem_der this(3,4,1,2)] show ?thesis by (simp add: ex_own)
qed

lemma ex_nonce_key: "\<not> key_matches ''pubkey-hash'' (to_bytes ''nonce'')" "\<not> key_matches ''tpm2-quote'' (to_bytes ''nonce'')"
  "key_matches ''nonce'' (to_bytes ''nonce'')" "to_bytes ''nonce'' \<noteq> []" "to_bytes ''pubkey-hash'' \<noteq> []"
  by (simp_all add: key_matches_to_bytes) (simp_all add: to_bytes_def)

lemma ex_claims_run:
  "claims_loop (ex_env kvs) pem [ex_nonce_claim] st = Inr (SGX_SUCCESS, st\<lparr>so_nonce := Val (replicate 32 5)\<rparr>)"
  "claims_loop (ex_env kvs) ex_pem [ex_key_claim, ex_nonce_claim] st = Inr (SGX_SUCCESS, st\<lparr>so_nonce := Val (replicate 32 5)\<rparr>)"
  using ex_nonce_key key_pubkey ex_key_claim_ok [of kvs]
  by (simp_all add: ex_nonce_claim_def ex_key_claim_def)

lemma ex_verify:
  assumes "claims_loop (ex_env kvs) pem kvs (sgx_out_init\<lparr>so_ctype := Val 60000\<rparr>)
     = Inr (SGX_SUCCESS, sgx_out_init\<lparr>so_ctype := Val 60000, so_nonce := Val (replicate 32 5)\<rparr>)" "kvs \<noteq> []"
  shows "verify_SGX_evidence (ex_env kvs) ex_qe [1] pem (replicate 32 5) () = Inr (VERIFIED_EVIDENCE, ())"
proof -
  have load: "cl_load (sg_cl (ex_env kvs)) [1] = Some (CTag 60000 (CArr True [CBytes True ex_quote, CBytes True [2]]))"
    "cl_load (sg_cl (ex_env kvs)) [2] = Some (CMap True kvs)" "sg_malloc (ex_env kvs) n" for n
    by (simp_all add: ex_env_def)
  have q: "length ex_quote = 1020" "ex_quote \<noteq> []" by (simp_all add: ex_quote_def)
  have "check_claims (ex_env kvs) pem ex_quote [2] (sgx_out_init\<lparr>so_ctype := Val 60000\<rparr>) = Inr (SGX_SUCCESS,
      sgx_out_init\<lparr>so_ctype := Val 60000, so_nonce := Val (replicate 32 5), so_quote := Val ex_quote\<rparr>)"
    using assms by (simp add: check_claims_def ex_quote_binds load q RAW_QUOTE_MAX_SIZE_def)
  then have "extract_cbor_evidence_and_compare_hash (ex_env kvs) [1] pem = Inr (SGX_SUCCESS,
      sgx_out_init\<lparr>so_ctype := Val 60000, so_nonce := Val (replicate 32 5), so_quote := Val ex_quote\<rparr>)"
    by (simp add: extract_cbor_evidence_and_compare_hash_def load q TEE_QUOTE_CBOR_TAG_def QUOTE_MIN_SIZE_def Let_def)
  then show ?thesis
    by (simp add: verify_SGX_evidence_def load ex_qe_def qv_fatal_def check_nonce_and_tpm2_def TEE_TPM2_QUOTE_TAG_def)
qed


theorem pubkey_hash_optional_witness:
  "verify_SGX_evidence (ex_env [ex_nonce_claim]) ex_qe [1] ex_pem (replicate 32 5) () = Inr (VERIFIED_EVIDENCE, ()) \<and>
   verify_SGX_evidence (ex_env [ex_nonce_claim]) ex_qe [1] [] (replicate 32 5) () = Inr (VERIFIED_EVIDENCE, ())"
proof -
  have run: "verify_SGX_evidence (ex_env [ex_nonce_claim]) ex_qe [1] ex_pem (replicate 32 5) () = Inr (VERIFIED_EVIDENCE, ())"
    by (rule ex_verify) (simp_all add: ex_claims_run del: claims_loop.simps)
  have load: "cl_load (sg_cl (ex_env [ex_nonce_claim])) [1] = Some (CTag 60000 (CArr True [CBytes True ex_quote, CBytes True [2]]))"
    "cl_load (sg_cl (ex_env [ex_nonce_claim])) [2] = Some (CMap True [ex_nonce_claim])"
    by (simp_all add: ex_env_def)
  have keys: "list_all (\<lambda>kv. \<forall>k. fst kv = CText True k \<longrightarrow> \<not> key_matches ''pubkey-hash'' k) [ex_nonce_claim]"
    using ex_nonce_key by (simp add: ex_nonce_claim_def)
  from pubkey_hash_optional [OF load keys, of ex_qe ex_pem "replicate 32 5" "()" "[]"] run show ?thesis by simp
qed


end
