(* ===== verification/Tpm2_Claims.thy ===== *)
theory Tpm2_Claims
  imports Sgx_Evidence
begin

text \<open>
  Claims that bind a TLS key and a nonce (\<open>src/libtpm2.c\<close>): \<open>pubkey-hash\<close>, \<open>nonce\<close>
  and, made inside an enclave, \<open>tpm2-quote\<close>; sealing of the nonce for the daemon;
  and the two constructors of TPM evidence.

  \<open>cmem n\<close> says whether the \<open>n\<close>-th allocation of a function succeeds.  OpenSSL's
  reading of a key (PEM to DER), the sealing of the enclave and the calls that
  make a TPM quote are parameters.
\<close>

unbundle bit_operations_syntax

record 'w tpm2env =
  te_cl :: cbor_lib
  te_der :: "bytes \<Rightarrow> bytes option"
  te_sha256 :: "bytes \<Rightarrow> bytes"
  te_seal :: "bytes \<Rightarrow> bytes option"
  te_unseal :: "bytes \<Rightarrow> bytes option"
  te_daemon_quote :: "bytes \<Rightarrow> 'w \<Rightarrow> bytes slot \<times> 'w"
  te_quote :: "bytes \<Rightarrow> 'w \<Rightarrow> bytes slot \<times> 'w"

section \<open>Building blocks\<close>

definition add_cbor_map ::
    "(nat \<Rightarrow> bool) \<Rightarrow> nat \<Rightarrow> nat \<Rightarrow> string \<Rightarrow> bytes \<Rightarrow> (cbor \<times> cbor) list \<Rightarrow> int \<times> (cbor \<times> cbor) list" where
  "add_cbor_map cmem n cap key val mp =
     (if \<not> cmem n then (0, mp)
      else if \<not> cmem (n + 1) then (0, mp)
      else if length mp < cap then (1, mp @ [(CText True (to_bytes key), CBytes True val)])
      else (0, mp))"

text \<open>The return code and the hash item stored (\<open>None\<close>: the variable keeps NULL).\<close>

definition pem2der_sha256 :: "'w tpm2env \<Rightarrow> (nat \<Rightarrow> bool) \<Rightarrow> bytes \<Rightarrow> int \<times> cbor option" where
  "pem2der_sha256 te cmem pem =
     (case te_der te pem of
        None \<Rightarrow> (-1, None)
      | Some der \<Rightarrow> if \<not> cmem 10 then (-1, None) else (0, Some (CBytes True (te_sha256 te der))))"

text \<open>
  The result of \<open>pem2der_sha256\<close> is stored in a \<open>size_t\<close> before it is compared with
  0, so that a failure goes unnoticed and the NULL item is pushed.
\<close>

definition make_tpm2_pkhash_entry :: "'w tpm2env \<Rightarrow> (nat \<Rightarrow> bool) \<Rightarrow> bytes \<Rightarrow> (int \<times> bytes option) cres" where
  "make_tpm2_pkhash_entry te cmem pubkey =
     (if \<not> cmem 11 then Inr (0, None)
      else if \<not> cmem 12 then Inr (0, None)
      else
        let (rc, chash_val) = pem2der_sha256 te cmem pubkey; sz = word_of_int rc :: u64 in
        if sz < 0 then Inr (0, None)
        else
          cbind (deref chash_val) (\<lambda>hash.
          if \<not> cmem 13 then Inr (0, None)
          else Inr (1, Some (cl_ser (te_cl te) (CArr True [CUint 1 1, hash])))))"

section \<open>Sealing\<close>

text \<open>\<open>outp\<close> is a buffer of \<open>len_out\<close> bytes, which is not compared with the size of the sealed data.\<close>

definition myseal :: "'w tpm2env \<Rightarrow> (nat \<Rightarrow> bool) \<Rightarrow> bytes \<Rightarrow> nat \<Rightarrow> (sgx_status \<times> bytes) cres" where
  "myseal te cmem dat len_out =
     (if \<not> cmem 14 then Inr (SGX_ERROR_OUT_OF_MEMORY, [])
      else case te_seal te dat of
         None \<Rightarrow> Inr (SGX_ERROR_UNEXPECTED, [])
       | Some enc \<Rightarrow> if length enc > len_out then Inl OutOfBounds else Inr (SGX_SUCCESS, enc))"

definition myunseal :: "'w tpm2env \<Rightarrow> (nat \<Rightarrow> bool) \<Rightarrow> bytes \<Rightarrow> nat \<Rightarrow> (sgx_status \<times> bytes slot) cres" where
  "myunseal te cmem dat len_out =
     (if \<not> cmem 15 then Inr (SGX_ERROR_OUT_OF_MEMORY, Garbage)
      else case te_unseal te dat of
         None \<Rightarrow> Inr (SGX_ERROR_UNEXPECTED, Garbage)
       | Some dec \<Rightarrow> if length dec > len_out then Inl OutOfBounds else Inr (SGX_SUCCESS, Val dec))"

section \<open>Claims\<close>

definition MAX_TMP2QUOTE_SERIALIZE :: nat where "MAX_TMP2QUOTE_SERIALIZE = 1024"

text \<open>The TPM quote: through the daemon the nonce is handed over sealed.\<close>

definition get_tpm2_quote :: "'w tpm2env \<Rightarrow> (nat \<Rightarrow> bool) \<Rightarrow> bool \<Rightarrow> bytes \<Rightarrow> 'w \<Rightarrow> (bytes slot \<times> 'w) cres" where
  "get_tpm2_quote te cmem atflag nonce w =
     (if atflag then
        if length nonce < 32 then Inl OutOfBounds
        else cbind (myseal te cmem (take 32 nonce) 1024) (\<lambda>(st, buf). Inr (te_daemon_quote te buf w))
      else Inr (te_quote te nonce w))"

text \<open>
  Each macro leaves the value of its call in \<open>rc\<close>, which is returned when a step
  fails.  The claims stored are \<open>None\<close> when none are.
\<close>

definition make_cbor_tpm2_claims_from_enclave ::
    "'w tpm2env \<Rightarrow> (nat \<Rightarrow> bool) \<Rightarrow> bool \<Rightarrow> bytes \<Rightarrow> bytes \<Rightarrow> 'w \<Rightarrow> ((int \<times> bytes option) \<times> 'w) cres" where
  "make_cbor_tpm2_claims_from_enclave te cmem atflag pubkey nonce w =
     (if \<not> cmem 16 then Inr ((-1, None), w)
      else
        cbind (make_tpm2_pkhash_entry te cmem pubkey) (\<lambda>(rc, hash).
        if rc = 0 then Inr ((rc, None), w)
        else
          let (rc, ps) = add_cbor_map cmem 17 3 ''pubkey-hash'' (case hash of None \<Rightarrow> [] | Some h \<Rightarrow> h) [] in
          if rc = 0 then Inr ((rc, None), w)
          else
            let (rc, ps) = add_cbor_map cmem 19 3 ''nonce'' nonce ps in
            if rc = 0 then Inr ((rc, None), w)
            else
              cbind (get_tpm2_quote te cmem atflag nonce w) (\<lambda>(q, w).
              cbind (rd q) (\<lambda>quote.
              if length quote = 0 then Inr ((rc, None), w)
              else
                let (rc, ps) = add_cbor_map cmem 21 3 ''tpm2-quote'' quote ps in
                if rc = 0 then Inr ((rc, None), w)
                else if \<not> cmem 23 then Inr ((rc, None), w)
                else Inr ((0, Some (cl_ser (te_cl te) (CMap True ps))), w)))))"

definition make_cbor_tpm2_claims ::
    "'w tpm2env \<Rightarrow> (nat \<Rightarrow> bool) \<Rightarrow> bytes \<Rightarrow> bytes \<Rightarrow> (int \<times> bytes option) cres" where
  "make_cbor_tpm2_claims te cmem pubkey nonce =
     (if \<not> cmem 16 then Inr (-1, None)
      else
        cbind (make_tpm2_pkhash_entry te cmem pubkey) (\<lambda>(rc, hash).
        if rc = 0 then Inr (rc, None)
        else
          let (rc, ps) = add_cbor_map cmem 17 2 ''pubkey-hash'' (case hash of None \<Rightarrow> [] | Some h \<Rightarrow> h) [] in
          if rc = 0 then Inr (rc, None)
          else
            let (rc, ps) = add_cbor_map cmem 19 2 ''nonce'' nonce ps in
            if rc = 0 then Inr (rc, None)
            else if \<not> cmem 23 then Inr (rc, None)
            else Inr (0, Some (cl_ser (te_cl te) (CMap True ps)))))"

section \<open>Evidence\<close>

definition make_cbor_tpm2_evidence :: "bytes option \<Rightarrow> bytes option \<Rightarrow> int" where
  "make_cbor_tpm2_evidence quote claim = -1"

definition TRINITY_TPM2_QUOTE_TAG :: u64 where "TRINITY_TPM2_QUOTE_TAG = 60011"

text \<open>
  An array announced with two items gets one.  On \<open>err3\<close> the NULL tag is
  released, on \<open>err4\<close> the evidence once more than it is owned.
\<close>

definition make_cbor_tri_tpm2_evidence :: "'w tpm2env \<Rightarrow> (nat \<Rightarrow> bool) \<Rightarrow> bytes \<Rightarrow> (int \<times> bytes option) cres" where
  "make_cbor_tri_tpm2_evidence te cmem quote =
     (if \<not> cmem 0 then Inr (-1, None)
      else if \<not> cmem 1 then Inr (-1, None)
      else if \<not> cmem 2 then Inl NullDeref
      else if \<not> cmem 3 then Inl DoubleFree
      else Inr (0, Some (cl_ser (te_cl te) (CTag TRINITY_TPM2_QUOTE_TAG (CArr True [CBytes True quote])))))"

section \<open>The claims of an enclave\<close>

definition tpm2_claims_item :: "cbor_lib \<Rightarrow> bytes \<Rightarrow> bytes \<Rightarrow> bytes \<Rightarrow> cbor" where
  "tpm2_claims_item cl h nonce quote = CMap True
     [(CText True (to_bytes ''pubkey-hash''), CBytes True (cl_ser cl (CArr True [CUint 1 1, CBytes True h]))),
      (CText True (to_bytes ''nonce''), CBytes True nonce), (CText True (to_bytes ''tpm2-quote''), CBytes True quote)]"

lemma pkhash_entry_ok:
  assumes "te_der te pem = Some der" "cmem = (\<lambda>_. True)"
  shows "make_tpm2_pkhash_entry te cmem pem =
     Inr (1, Some (cl_ser (te_cl te) (CArr True [CUint 1 1, CBytes True (te_sha256 te der)])))"
  using assms by (simp add: make_tpm2_pkhash_entry_def pem2der_sha256_def)

lemma enclave_claims_ok:
  assumes "te_der te pem = Some der" "cmem = (\<lambda>_. True)"
    and "get_tpm2_quote te cmem atflag nonce w = Inr (Val quote, w')" "quote \<noteq> []"
  shows "make_cbor_tpm2_claims_from_enclave te cmem atflag pem nonce w =
     Inr ((0, Some (cl_ser (te_cl te) (tpm2_claims_item (te_cl te) (te_sha256 te der) nonce quote))), w')"
  using assms
  by (simp add: make_cbor_tpm2_claims_from_enclave_def pkhash_entry_ok add_cbor_map_def tpm2_claims_item_def)

end
