(* ===== verification/Tpmd_Packet.thy ===== *)
theory Tpmd_Packet
  imports Codec
begin

text \<open>
  The packets between the attester daemon and its clients (\<open>tpm2/tpmdaemon.h\<close>):
  the packed header, and the commands.
\<close>

unbundle bit_operations_syntax

section \<open>The header\<close>

record tpmd_head =
  th_cmd :: u16
  th_aux :: u16
  th_len :: u32

definition HEAD_SZ :: nat where "HEAD_SZ = 8"

definition enc_head :: "tpmd_head \<Rightarrow> bytes" where
  "enc_head h = le_bytes 2 (th_cmd h) @ le_bytes 2 (th_aux h) @ le_bytes 4 (th_len h)"

definition dec_head :: "bytes \<Rightarrow> tpmd_head" where
  "dec_head bs = \<lparr>th_cmd = le_word (take 2 bs), th_aux = le_word (take 2 (drop 2 bs)), th_len = le_word (take 4 (drop 4 bs))\<rparr>"

interpretation head_codec: struct_codec enc_head dec_head HEAD_SZ "\<lambda>_. True"
  by unfold_locales (simp_all add: enc_head_def dec_head_def HEAD_SZ_def)

lemma length_enc_head [simp]: "length (enc_head h) = 8"
  by (simp add: enc_head_def)

lemma dec_enc_head [simp]: "dec_head (enc_head h) = h"
  using head_codec.dec_enc by simp

section \<open>Commands\<close>

definition TPMD_REQ_HELLO :: u16 where "TPMD_REQ_HELLO = 0x0001"
definition TPMD_REQ_ATTEST :: u16 where "TPMD_REQ_ATTEST = 0x0002"
definition TPMD_RPL_ATTEST :: u16 where "TPMD_RPL_ATTEST = 0x0102"
definition TPMD_REQ_PICA :: u16 where "TPMD_REQ_PICA = 0x0003"
definition TPMD_RPL_PICA :: u16 where "TPMD_RPL_PICA = 0x0103"
definition TPMD_AUX_OK :: u16 where "TPMD_AUX_OK = 0"
definition TPMD_AUX_ERR :: u16 where "TPMD_AUX_ERR = 1"

end
