(* ===== verification/Tpm_Daemon.thy ===== *)
theory Tpm_Daemon
  imports Procchain Quote Sock Tpm2_Claims Tpmd_Packet
begin

text \<open>
  The attester daemon (\<open>tpm2/tpmdaemon.c\<close>): the packets it reads, the TPM quote
  over the application hash and the nonce, its replies, and the loop over
  packets and connections, as functions and as a step relation.

  \<open>denv\<close> holds what the daemon is linked with: sockets, the TPM stack, the
  operating system the measurement uses, libcbor, and whether allocations and
  the edge call into its enclave succeed.
\<close>

unbundle bit_operations_syntax

section \<open>Packets\<close>

record tpmd_packet =
  pk_head :: tpmd_head
  pk_data :: bbuf

record 'w denv =
  dv_so :: "'w sockops"
  dv_es :: "'w esys"
  dv_ms :: "'w msys"
  dv_cl :: cbor_lib
  dv_ts :: tss
  dv_malloc :: "nat \<Rightarrow> bool"
  dv_cmem :: "nat \<Rightarrow> bool"
  dv_ecall :: bool
  dv_unseal :: "bytes \<Rightarrow> bytes option"
  dv_fuel :: nat

text \<open>
  The return code and the pointer stored.  When the packet cannot be allocated
  the code of the receive before it, 0, is returned with a NULL packet.
\<close>

definition readpacket :: "'w denv \<Rightarrow> int \<Rightarrow> 'w \<Rightarrow> ((int \<times> tpmd_packet option slot) \<times> 'w) cres" where
  "readpacket dv con w =
     cbind (sock_recv (dv_fuel dv) (dv_so dv) con (replicate HEAD_SZ Garbage) w) (\<lambda>((rc, hb), w).
     if rc = -1 then Inr ((rc, Garbage), w)
     else if rc = -2 then Inr ((rc, Garbage), w)
     else
       cbind (buf_get hb 0 HEAD_SZ) (\<lambda>bs.
       let head = dec_head bs; len = unat (th_len head) in
       if \<not> dv_malloc dv (len + HEAD_SZ) then Inr ((rc, Val None), w)
       else if len > 0 then
         cbind (sock_recv (dv_fuel dv) (dv_so dv) con (replicate len Garbage) w) (\<lambda>((rc, data), w).
         let pkt = Val (Some \<lparr>pk_head = head, pk_data = data\<rparr>) in
         if rc < 0 then Inr ((rc, pkt), w) else Inr ((0, pkt), w))
       else Inr ((0, Val (Some \<lparr>pk_head = head, pk_data = []\<rparr>)), w)))"

section \<open>The quote\<close>

definition daemon_pcrs :: "nat list" where "daemon_pcrs = [0, 1, 2, 7, 10]"

text \<open>
  The return code, \<open>*sz\<close>, and the first \<open>*sz\<close> bytes of the caller's buffer of
  \<open>qbsize\<close> bytes (\<open>Garbage\<close>: nothing is stored).  \<open>*sz\<close> is the size of the
  serialized quote even when it does not fit.
\<close>

definition make_tpm2_quote_with_pid ::
    "'w denv \<Rightarrow> bytes \<Rightarrow> nat \<Rightarrow> nat \<Rightarrow> bytes \<Rightarrow> int \<Rightarrow> 'w \<Rightarrow> ((int \<times> nat \<times> bytes slot) \<times> 'w) cres" where
  "make_tpm2_quote_with_pid dv nonce nsize qbsize apphash pid w =
     cbind (hash_extend_sha256 (m_sha256 (dv_ms dv)) (m_md (dv_ms dv)) apphash nonce) (\<lambda>(_, newhash).
     cbind (buf_get newhash 0 nsize) (\<lambda>udata.
     cbind (make_tpm2_quote (dv_es dv) udata nsize TPM2_ALG_SHA256 daemon_pcrs 0x81018001 (Some tpm2_quote_unset) w)
       (\<lambda>((rc, t_quote), w).
     if rc < 0 then Inr ((rc, 0, Garbage), w)
     else
       cbind (deref t_quote) (\<lambda>tq.
       cbind (rd (tq_quote tq)) (\<lambda>quote.
       let (urc, atst) = un_attest (dv_ts dv) quote; cmem = dv_cmem dv in
       if urc \<noteq> 0 then Inl Uninit
       else if at_type atst \<noteq> TPM2_ST_ATTEST_QUOTE then Inr ((rc, 0, Garbage), w)
       else if \<not> cmem 0 then Inr ((0, 0, Garbage), w)
       else
         let (b, ps) = add_cbor_map cmem 1 3 ''quote'' quote [] in
         if b = 0 then Inr ((0, 0, Garbage), w)
         else
           cbind (rd (tq_sign tq)) (\<lambda>sign.
           let (b, ps) = add_cbor_map cmem 3 3 ''sign'' sign ps in
           if b = 0 then Inr ((0, 0, Garbage), w)
           else
             let (b, ps) = add_cbor_map cmem 5 3 ''app-hash'' (take 32 apphash) ps in
             if b = 0 then Inr ((0, 0, Garbage), w)
             else if \<not> cmem 7 then Inr ((0, 0, Garbage), w)
             else
               let ser = cl_ser (dv_cl dv) (CMap True ps) in
               if length ser = 0 \<or> length ser > qbsize then Inr ((0, length ser, Garbage), w)
               else Inr ((0, length ser, Val ser), w)))))))"

definition QBUF_SZ :: nat where "QBUF_SZ = 2048"

text \<open>The first \<open>sz\<close> bytes of the loop's buffer.\<close>

definition qbuf_read :: "nat \<Rightarrow> bytes slot \<Rightarrow> bytes cres" where
  "qbuf_read sz buf = (if sz = 0 then Inr [] else if sz > QBUF_SZ then Inl OutOfBounds else rd buf)"

text \<open>
  \<open>make_tpm2_pica\<close>: the process chain, its size, and what the quote left.  The
  size stays unset when the chain cannot be packed.
\<close>

definition make_tpm2_pica ::
    "'w denv \<Rightarrow> bytes \<Rightarrow> nat \<Rightarrow> int \<Rightarrow> fp_htable \<Rightarrow> 'w \<Rightarrow> ((bytes option \<times> nat \<times> bytes slot) \<times> fp_htable \<times> 'w) cres" where
  "make_tpm2_pica dv nonce sersz pid tbl w =
     cbind (mycbor_pack_procchain (dv_fuel dv) (dv_cl dv) (dv_ms dv) pid tbl w) (\<lambda>(procchain, pcsz, tbl, w).
     cbind (rd pcsz) (\<lambda>n.
     let hash = m_sha256 (dv_ms dv) (case procchain of None \<Rightarrow> [] | Some p \<Rightarrow> take n p) in
     cbind (make_tpm2_quote_with_pid dv nonce 32 sersz hash pid w) (\<lambda>((_, qsz, buf), w).
     Inr ((procchain, qsz, buf), tbl, w))))"

section \<open>Replies\<close>

text \<open>The header and the payload; a failed send is only printed.\<close>

definition send_reply :: "'w denv \<Rightarrow> int \<Rightarrow> u16 \<Rightarrow> bytes \<Rightarrow> 'w \<Rightarrow> 'w cres" where
  "send_reply dv con cmd ser w =
     cbind (sock_send (dv_fuel dv) (dv_so dv) con
       (enc_head \<lparr>th_cmd = cmd, th_aux = TPMD_AUX_OK, th_len = of_nat (length ser)\<rparr>) w) (\<lambda>(rc, w).
     if rc < 0 then Inr w
     else cbind (sock_send (dv_fuel dv) (dv_so dv) con ser w) (\<lambda>(rc, w). Inr w))"

text \<open>The error reply; \<open>cmd\<close> is the header's command where it has been set.\<close>

definition send_error :: "'w denv \<Rightarrow> int \<Rightarrow> u16 slot \<Rightarrow> 'w \<Rightarrow> 'w cres" where
  "send_error dv con cmd w =
     cbind (rd cmd) (\<lambda>cmd.
     cbind (sock_send (dv_fuel dv) (dv_so dv) con (enc_head \<lparr>th_cmd = cmd, th_aux = TPMD_AUX_ERR, th_len = 0\<rparr>) w)
       (\<lambda>(rc, w). Inr w))"

definition reply_attest :: "'w denv \<Rightarrow> int \<Rightarrow> bytes \<Rightarrow> nat \<Rightarrow> bytes slot \<Rightarrow> 'w \<Rightarrow> 'w cres" where
  "reply_attest dv con nonce sz tpm2_quote w =
     (let cmem = dv_cmem dv in
      if \<not> cmem 10 then send_error dv con Garbage w
      else if length nonce < 32 then Inl OutOfBounds
      else
        let (b, ps) = add_cbor_map cmem 11 2 ''nonce'' (take 32 nonce) [] in
        if b = 0 then send_error dv con Garbage w
        else
          cbind (qbuf_read sz tpm2_quote) (\<lambda>q.
          let (b, ps) = add_cbor_map cmem 13 2 ''tpm2_quote'' q ps in
          if b = 0 then send_error dv con Garbage w
          else
            let ser = cl_ser (dv_cl dv) (CMap True ps) in
            if \<not> cmem 15 \<or> ser = [] then send_error dv con (Val TPMD_RPL_ATTEST) w
            else send_reply dv con TPMD_RPL_ATTEST ser w))"

definition reply_pica :: "'w denv \<Rightarrow> int \<Rightarrow> nat \<Rightarrow> bytes slot \<Rightarrow> bytes option \<Rightarrow> 'w \<Rightarrow> 'w cres" where
  "reply_pica dv con t_size tpm2_quote pica w =
     (let cmem = dv_cmem dv in
      if \<not> cmem 16 then send_error dv con Garbage w
      else
        cbind (qbuf_read t_size tpm2_quote) (\<lambda>q.
        let (b, ps) = add_cbor_map cmem 17 2 ''tpm2_quote'' q [] in
        if b = 0 then send_error dv con Garbage w
        else
          let (b, ps) = add_cbor_map cmem 19 2 ''pica'' (case pica of None \<Rightarrow> [] | Some p \<Rightarrow> p) ps in
          if b = 0 then send_error dv con Garbage w
          else
            let ser = cl_ser (dv_cl dv) (CMap True ps) in
            if \<not> cmem 21 \<or> ser = [] then send_error dv con Garbage w
            else send_reply dv con TPMD_RPL_PICA ser w))"

section \<open>One packet\<close>

text \<open>
  \<open>ecall_unseal\<close> (\<open>tpm2/Enclave/enclave.c\<close>) behind its generated proxy, which clears
  the \<open>[out]\<close> buffer and copies it back whatever the status: a nonce that does
  not unseal reads as zeros.
\<close>

definition ecall_unseal :: "'w denv \<Rightarrow> bytes \<Rightarrow> nat \<Rightarrow> bytes cres" where
  "ecall_unseal dv dat len_out =
     (case dv_unseal dv dat of
        None \<Rightarrow> Inr (replicate len_out 0)
      | Some dec \<Rightarrow>
          if length dec > len_out then Inl OutOfBounds else Inr (dec @ replicate (len_out - length dec) 0))"

definition handle_attest :: "'w denv \<Rightarrow> int \<Rightarrow> int \<Rightarrow> bytes slot \<Rightarrow> bbuf \<Rightarrow> 'w \<Rightarrow> 'w cres" where
  "handle_attest dv con pid apphash data w =
     cbind (buf_get data 0 (length data)) (\<lambda>sealed.
     cbind (if dv_ecall dv then ecall_unseal dv sealed 32 else Inl Uninit) (\<lambda>unsealed.
     cbind (rd apphash) (\<lambda>ah.
     cbind (make_tpm2_quote_with_pid dv unsealed 32 QBUF_SZ ah pid w) (\<lambda>((rc, sz, buf), w).
     reply_attest dv con unsealed sz buf w))))"

definition handle_pica :: "'w denv \<Rightarrow> int \<Rightarrow> int \<Rightarrow> bbuf \<Rightarrow> fp_htable \<Rightarrow> 'w \<Rightarrow> (fp_htable \<times> 'w) cres" where
  "handle_pica dv con pid data tbl w =
     cbind (cmapM rd (take 32 data)) (\<lambda>nonce.
     cbind (make_tpm2_pica dv nonce QBUF_SZ pid tbl w) (\<lambda>((pica, sz, buf), tbl, w).
     cbind (reply_pica dv con sz buf pica w) (\<lambda>w. Inr (tbl, w))))"

definition handle_packet ::
    "'w denv \<Rightarrow> int \<Rightarrow> int \<Rightarrow> bytes slot \<Rightarrow> tpmd_packet \<Rightarrow> fp_htable \<Rightarrow> 'w \<Rightarrow> (fp_htable \<times> 'w) cres" where
  "handle_packet dv con pid apphash pkt tbl w =
     (let cmd = th_cmd (pk_head pkt) in
      if cmd = TPMD_REQ_HELLO then Inr (tbl, w)
      else if cmd = TPMD_REQ_ATTEST then cbind (handle_attest dv con pid apphash (pk_data pkt) w) (\<lambda>w. Inr (tbl, w))
      else if cmd = TPMD_REQ_PICA then handle_pica dv con pid (pk_data pkt) tbl w
      else Inr (tbl, w))"

section \<open>The loops\<close>

text \<open>The packets of one connection, until a read reports its end.\<close>

fun serve ::
    "nat \<Rightarrow> 'w denv \<Rightarrow> int \<Rightarrow> int \<Rightarrow> bytes slot \<Rightarrow> fp_htable \<Rightarrow> 'w \<Rightarrow> (int \<times> fp_htable \<times> 'w) cres" where
  "serve 0 dv con pid apphash tbl w = Inl Diverges"
| "serve (Suc n) dv con pid apphash tbl w =
     cbind (readpacket dv con w) (\<lambda>((rc, p), w).
     if rc \<noteq> 0 then Inr (rc, tbl, w)
     else
       cbind (rd p) (\<lambda>p. cbind (deref p) (\<lambda>pkt.
       cbind (handle_packet dv con pid apphash pkt tbl w) (\<lambda>(tbl, w). serve n dv con pid apphash tbl w))))"

text \<open>What is known of the peer when its connection has been accepted.\<close>

definition identify :: "'w denv \<Rightarrow> int \<Rightarrow> fp_htable \<Rightarrow> 'w \<Rightarrow> (int \<times> bytes slot \<times> fp_htable \<times> 'w) cres" where
  "identify dv con tbl w =
     (let pid = sock_client_pid (dv_so dv) con w in
      cbind (sha256_pid (dv_ms dv) pid 0 tbl w) (\<lambda>((rc, dig, _), tbl, w).
      Inr (pid, (case dig of None \<Rightarrow> Garbage | Some d \<Rightarrow> Val d), tbl, w)))"

fun accept_loop :: "nat \<Rightarrow> 'w denv \<Rightarrow> int \<Rightarrow> fp_htable \<Rightarrow> 'w \<Rightarrow> (fp_htable \<times> 'w) cres" where
  "accept_loop 0 dv sock tbl w = Inl Diverges"
| "accept_loop (Suc n) dv sock tbl w =
     (let (con, w) = so_accept (dv_so dv) sock w in
      if con < 0 then Inr (tbl, w)
      else
        cbind (identify dv con tbl w) (\<lambda>(pid, apphash, tbl, w).
        cbind (serve n dv con pid apphash tbl w) (\<lambda>(rc, tbl, w). accept_loop n dv sock tbl w)))"

text \<open>\<open>slack\<close> are the bytes behind the path in its object, \<open>created\<close> whether the enclave starts.\<close>

definition tpmddaemon :: "nat \<Rightarrow> 'w denv \<Rightarrow> bool \<Rightarrow> string \<Rightarrow> string \<Rightarrow> fp_htable \<Rightarrow> 'w \<Rightarrow> (fp_htable \<times> 'w) cres" where
  "tpmddaemon n dv created slack path tbl w =
     (if \<not> created then Inl Abort
      else cbind (sock_listen (dv_so dv) slack path w) (\<lambda>(sock, w).
        if sock < 0 then Inr (tbl, w) else accept_loop n dv sock tbl w))"

section \<open>The daemon as a state machine\<close>

datatype 'w dstate =
    Accepting fp_htable 'w
  | Serving int int "bytes slot" fp_htable 'w
  | Stopped fp_htable 'w
  | Crashed fault

text \<open>One step: a connection accepted, or one packet read and handled.\<close>

inductive dstep :: "'w denv \<Rightarrow> int \<Rightarrow> 'w dstate \<Rightarrow> 'w dstate \<Rightarrow> bool" for dv sock where
  stop: "so_accept (dv_so dv) sock w = (con, w') \<Longrightarrow> con < 0 \<Longrightarrow> dstep dv sock (Accepting tbl w) (Stopped tbl w')"
| accept: "so_accept (dv_so dv) sock w = (con, w') \<Longrightarrow> 0 \<le> con \<Longrightarrow>
    identify dv con tbl w' = Inr (pid, apphash, tbl', w'') \<Longrightarrow>
    dstep dv sock (Accepting tbl w) (Serving con pid apphash tbl' w'')"
| accept_fault: "so_accept (dv_so dv) sock w = (con, w') \<Longrightarrow> 0 \<le> con \<Longrightarrow> identify dv con tbl w' = Inl e \<Longrightarrow>
    dstep dv sock (Accepting tbl w) (Crashed e)"
| packet: "readpacket dv con w = Inr ((0, Val (Some pkt)), w') \<Longrightarrow>
    handle_packet dv con pid apphash pkt tbl w' = Inr (tbl', w'') \<Longrightarrow>
    dstep dv sock (Serving con pid apphash tbl w) (Serving con pid apphash tbl' w'')"
| hangup: "readpacket dv con w = Inr ((rc, p), w') \<Longrightarrow> rc \<noteq> 0 \<Longrightarrow>
    dstep dv sock (Serving con pid apphash tbl w) (Accepting tbl w')"
| read_fault: "readpacket dv con w = Inl e \<Longrightarrow> dstep dv sock (Serving con pid apphash tbl w) (Crashed e)"
| null_packet: "readpacket dv con w = Inr ((0, Val None), w') \<Longrightarrow>
    dstep dv sock (Serving con pid apphash tbl w) (Crashed NullDeref)"
| packet_fault: "readpacket dv con w = Inr ((0, Val (Some pkt)), w') \<Longrightarrow>
    handle_packet dv con pid apphash pkt tbl w' = Inl e \<Longrightarrow>
    dstep dv sock (Serving con pid apphash tbl w) (Crashed e)"

inductive_cases dstep_AcceptingE: "dstep dv sock (Accepting tbl w) s"
inductive_cases dstep_ServingE: "dstep dv sock (Serving con pid ah tbl w) s"
inductive_simps dstep_Stopped: "dstep dv sock (Stopped tbl w) s"
inductive_simps dstep_Crashed: "dstep dv sock (Crashed e) s"

definition dreach :: "'w denv \<Rightarrow> int \<Rightarrow> 'w dstate \<Rightarrow> 'w dstate \<Rightarrow> bool" where
  "dreach dv sock = (dstep dv sock)\<^sup>*\<^sup>*"

text \<open>The loops run along the steps.\<close>

lemma serve_steps:
  "serve n dv con pid ah tbl w = Inr (rc, tbl', w') \<Longrightarrow>
   dreach dv sock (Serving con pid ah tbl w) (Accepting tbl' w')"
proof (induction n arbitrary: tbl w)
  case (Suc n)
  obtain r p w1 where r: "readpacket dv con w = Inr ((r, p), w1)"
    using Suc.prems by (auto simp: cbind_eq_Inr)
  show ?case
  proof (cases "r = 0")
    case False
    with r Suc.prems have "tbl' = tbl" "w' = w1" by simp_all
    with hangup [OF r False] show ?thesis by (auto simp: dreach_def)
  next
    case True
    with r Suc.prems obtain pkt tbl1 w2 where p: "p = Val (Some pkt)"
      "handle_packet dv con pid ah pkt tbl w1 = Inr (tbl1, w2)" "serve n dv con pid ah tbl1 w2 = Inr (rc, tbl', w')"
      by (auto simp: cbind_eq_Inr)
    from r True p(1) have "readpacket dv con w = Inr ((0, Val (Some pkt)), w1)" by simp
    from packet [OF this p(2)] Suc.IH [OF p(3)] show ?thesis
      unfolding dreach_def by (rule converse_rtranclp_into_rtranclp)
  qed
qed simp

lemma accept_loop_steps:
  "accept_loop n dv sock tbl w = Inr (tbl', w') \<Longrightarrow> dreach dv sock (Accepting tbl w) (Stopped tbl' w')"
proof (induction n arbitrary: tbl w)
  case (Suc n)
  obtain con w1 where a: "so_accept (dv_so dv) sock w = (con, w1)" by force
  show ?case
  proof (cases "con < 0")
    case True
    with a Suc.prems stop [OF a True, of tbl] show ?thesis by (auto simp: dreach_def)
  next
    case False
    with a Suc.prems obtain pid ah tbl1 w2 rc tbl2 w3 where s: "identify dv con tbl w1 = Inr (pid, ah, tbl1, w2)"
      "serve n dv con pid ah tbl1 w2 = Inr (rc, tbl2, w3)" "accept_loop n dv sock tbl2 w3 = Inr (tbl', w')"
      by (auto simp: cbind_eq_Inr)
    from False have "0 \<le> con" by simp
    from accept [OF a this s(1)] serve_steps [OF s(2), of sock] Suc.IH [OF s(3)] show ?thesis
      unfolding dreach_def by (meson converse_rtranclp_into_rtranclp rtranclp_trans)
  qed
qed simp

end
