(* ===== verification/Daemon_Protocol.thy ===== *)
theory Daemon_Protocol
  imports Tpm_Daemon
begin

text \<open>
  What the daemon promises its clients.  The host side of the daemon (files,
  processes, the TPM) works on its own part of the state, so that the
  connections are touched by the packet functions alone; from this: the bytes
  sent on a connection are always whole reply packets, and a connection is
  served as a sequence of requests with one reply for each that asks for one.
\<close>

unbundle bit_operations_syntax

section \<open>A host that keeps away from the connections\<close>

text \<open>\<open>view\<close> is the part of the state that no call to the host changes.\<close>

locale quiet_host =
  fixes view :: "'w \<Rightarrow> 'v"
    and ms :: "'w msys"
    and es :: "'w esys"
  assumes os_quiet: "view (snd (os_open (m_os ms) p f m w)) = view w" "view (snd (os_read (m_os ms) fd n w)) = view w"
      "view (snd (os_close (m_os ms) fd w)) = view w" "view (snd (os_malloc (m_os ms) n w)) = view w"
    and es_quiet: "view (snd (es_tcti es w)) = view w" "view (snd (es_init es w)) = view w"
      "view (snd (es_key es hdl w)) = view w" "view (snd (es_set_auth es w)) = view w"
      "view (snd (es_read_public es w)) = view w" "view (snd (es_quote es qd sc sel w)) = view w"
begin

lemma measure_file_quiet: "view (snd (measure_file ms path w)) = view w"
  by (simp add: measure_file_def Let_def case_prod_beta os_quiet split: option.split)

lemma sha256_file_quiet: "sha256_file ms lp p tbl w = Inr (r, tbl', w') \<Longrightarrow> view w' = view w"
  using measure_file_quiet [of p w]
  by (auto simp: sha256_file_def cbind_eq_Inr Let_def case_prod_beta split: if_split_asm option.split_asm)

lemma sha256_pid_quiet: "sha256_pid ms pid n tbl w = Inr (r, tbl', w') \<Longrightarrow> view w' = view w"
  by (auto simp: sha256_pid_def cbind_eq_Inr Let_def split: if_split_asm dest: sha256_file_quiet)

lemma libs_lines_quiet: "libs_lines ms pid lines ents cnt tbl w = Inr (c, es', tbl', w') \<Longrightarrow> view w' = view w"
proof (induction lines arbitrary: ents cnt tbl w)
  case (Cons line lines)
  show ?case
    using Cons.prems
    by (auto simp: cbind_eq_Inr Let_def case_prod_beta os_quiet split: if_split_asm option.split_asm
        dest!: Cons.IH sha256_file_quiet)
qed simp

lemma sha256_libs_quiet: "sha256_libs ms pid ents tbl w = Inr (c, es', tbl', w') \<Longrightarrow> view w' = view w"
  by (auto simp: sha256_libs_def split: option.split_asm dest: libs_lines_quiet)

lemma add_map_quiet: "view (snd (snd (mycbor_add_map (m_os ms) cap key sz v ps w))) = view w"
  by (simp add: mycbor_add_map_def Let_def case_prod_beta os_quiet)



lemma add_maps_quiet:
  "view (snd (snd (mycbor_add_map_bstring (m_os ms) cap key b ps w))) = view w"
  "view (snd (snd (mycbor_add_map_string (m_os ms) cap key s ps w))) = view w"
  "view (snd (snd (mycbor_add_map_uint64 (m_os ms) cap key u ps w))) = view w"
  by (simp_all add: mycbor_add_map_bstring_def mycbor_add_map_string_def mycbor_add_map_uint64_def add_map_quiet)

lemma add_libs_quiet: "add_libs (m_os ms) cap n paths ps w = Inr (ps', w') \<Longrightarrow> view w' = view w"
proof (induction n arbitrary: paths ps w)
  case (Suc n)
  then show ?case
    by (cases paths) (auto simp: cbind_eq_Inr Let_def case_prod_beta add_maps_quiet dest!: Suc.IH)
qed simp

lemma quiet_step:
  "(case X of (a, ps, w) \<Rightarrow> F a ps w) = Inr r \<Longrightarrow> view (snd (snd X)) = v \<Longrightarrow>
   (\<And>a ps w. view w = v \<Longrightarrow> F a ps w = Inr r \<Longrightarrow> thesis) \<Longrightarrow> thesis"
  by (cases X) auto

lemma sha256_binaries_quiet:
  assumes "mycbor_sha256_binaries ms pid tbl w = Inr (m, c, tbl', w')"
  shows "view w' = view w"
proof -
  obtain rc dig path tbl1 w1 where pid: "sha256_pid ms pid CMDPATH_SZ tbl w = Inr ((rc, dig, path), tbl1, w1)"
    using assms by (auto simp: mycbor_sha256_binaries_def cbind_eq_Inr)
  obtain cnt paths tbl2 w2 where libs: "sha256_libs ms pid [] tbl1 w1 = Inr (cnt, paths, tbl2, w2)"
    using assms pid by (auto simp: mycbor_sha256_binaries_def cbind_eq_Inr Let_def)
  let ?n = "of_nat (nat (cnt + int PROCINFO_BASE_ENTRIES)) :: u64"
  obtain mem w3 where mem: "os_malloc (m_os ms) ?n w2 = (mem, w3)" by force
  have v: "view w3 = view w"
    using sha256_pid_quiet [OF pid] sha256_libs_quiet [OF libs] os_quiet(4) [of ?n w2] mem by simp
  show ?thesis
  proof (cases mem)
    case False
    with v assms pid libs mem show ?thesis by (simp add: mycbor_sha256_binaries_def Let_def)
  next
    case True
    show ?thesis
      using assms pid libs mem True v
      unfolding mycbor_sha256_binaries_def
      apply (simp only: cbind_Inr prod.case Let_def [of "snd _"] Let_def [of "m_os _"] Let_def [of "nat _"])
      apply simp
      apply (erule cbindE | (erule quiet_step, rule add_maps_quiet))+
      apply (auto dest!: add_libs_quiet)
      done
  qed
qed

lemma serialize_quiet: "view (snd (serialize_alloc cl (m_os ms) x w)) = view w"
  by (simp add: serialize_alloc_def Let_def case_prod_beta os_quiet)

lemma binaries_serial_quiet:
  assumes "mycbor_sha256_binaries_serial cl ms pid tbl w = Inr (s, sz, c, tbl', w')"
  shows "view w' = view w"
proof -
  obtain m cred tbl1 w1 where b: "mycbor_sha256_binaries ms pid tbl w = Inr (m, cred, tbl1, w1)"
    using assms by (auto simp: mycbor_sha256_binaries_serial_def cbind_eq_Inr)
  show ?thesis
  proof (cases m)
    case None
    with assms b sha256_binaries_quiet [OF b] show ?thesis by (simp add: mycbor_sha256_binaries_serial_def)
  next
    case (Some ps)
    with assms b have "w' = snd (serialize_alloc cl (m_os ms) (CMap True ps) w1)"
      by (simp add: mycbor_sha256_binaries_serial_def case_prod_beta Let_def)
    with sha256_binaries_quiet [OF b] show ?thesis by (simp add: serialize_quiet)
  qed
qed

lemma measure_chain_quiet: "measure_chain n cl ms pid ppid lst tbl w = Inr (l, tbl', w') \<Longrightarrow> view w' = view w"
proof (induction n arbitrary: pid ppid lst tbl w)
  case (Suc n)
  obtain s sz c tbl1 w1 where b: "mycbor_sha256_binaries_serial cl ms pid tbl w = Inr (s, sz, c, tbl1, w1)"
    using Suc.prems by (auto simp: cbind_eq_Inr)
  let ?lst = "\<lparr>tl_ser = s, tl_sz = sz\<rparr> # lst" and ?ppid = "case c of Garbage \<Rightarrow> ppid | Val c \<Rightarrow> Val (sint (cr_ppid c))"
  obtain pid1 where "(if pid1 \<noteq> 1 then measure_chain n cl ms pid1 ?ppid ?lst tbl1 w1 else Inr (?lst, tbl1, w1)) = Inr (l, tbl', w')"
    using Suc.prems b by (auto simp: cbind_eq_Inr Let_def)
  then have "view w' = view w1" using Suc.IH by (auto split: if_split_asm)
  with binaries_serial_quiet [OF b] show ?case by simp
qed simp

lemma pack_items_quiet: "pack_items (m_os ms) cap ts items w = Inr (is, w') \<Longrightarrow> view w' = view w"
proof (induction ts arbitrary: items w)
  case (Cons t ts)
  obtain sz where sz: "rd (tl_sz t) = Inr sz" using Cons.prems by (auto simp: cbind_eq_Inr)
  obtain mem w1 where mem: "os_malloc (m_os ms) (of_nat sz) w = (mem, w1)" by force
  have v: "view w1 = view w" using os_quiet(4) [of "of_nat sz" w] mem by simp
  have "w' = w1 \<or> (\<exists>s. pack_items (m_os ms) cap ts (items @ [CBytes True s]) w1 = Inr (is, w'))"
    using Cons.prems sz mem by (auto simp: cbind_eq_Inr split: if_split_asm)
  with v Cons.IH show ?case by metis
qed simp

lemma procchain_quiet:
  assumes "mycbor_pack_procchain n cl ms pid tbl w = Inr (p, sz, tbl', w')"
  shows "view w' = view w"
proof -
  obtain lst tbl1 w1 where c: "measure_chain n cl ms pid Garbage [] tbl w = Inr (lst, tbl1, w1)"
    using assms by (auto simp: mycbor_pack_procchain_def cbind_eq_Inr)
  obtain mem w2 where mem: "os_malloc (m_os ms) (of_nat (length lst)) w1 = (mem, w2)" by force
  have v: "view w2 = view w" using measure_chain_quiet [OF c] os_quiet(4) [of "of_nat (length lst)" w1] mem by simp
  show ?thesis
  proof (cases mem)
    case False
    with assms c mem v show ?thesis by (simp add: mycbor_pack_procchain_def Let_def)
  next
    case True
    with assms c mem obtain items w3 where i: "pack_items (m_os ms) (length lst) lst [] w2 = Inr (items, w3)"
      by (auto simp: mycbor_pack_procchain_def cbind_eq_Inr Let_def)
    show ?thesis
    proof (cases items)
      case None
      with True assms c mem i pack_items_quiet [OF i] v show ?thesis by (simp add: mycbor_pack_procchain_def Let_def)
    next
      case (Some its)
      with True assms c mem i have "w' = snd (serialize_alloc cl (m_os ms) (CArr True its) w3)"
        by (simp add: mycbor_pack_procchain_def Let_def case_prod_beta)
      with pack_items_quiet [OF i] v show ?thesis by (simp add: serialize_quiet)
    qed
  qed
qed

lemma sig_scheme_quiet: "view (snd (make_sig_scheme es w)) = view w"
  by (simp add: make_sig_scheme_def Let_def case_prod_beta es_quiet split: option.split)

lemma quote_into_quiet: "view (snd (quote_into es qd sc sel tq w)) = view w"
  by (simp add: quote_into_def Let_def case_prod_beta es_quiet)

lemma tpm2_quote_quiet: "make_tpm2_quote es ud n alg pcrs hdl tq w = Inr (r, w') \<Longrightarrow> view w' = view w"
  by (auto simp: make_tpm2_quote_def cbind_eq_Inr Let_def case_prod_beta es_quiet sig_scheme_quiet quote_into_quiet
      split: if_split_asm option.split_asm)

lemma quote_with_pid_quiet:
  assumes "dv_ms dv = ms" "dv_es dv = es" "make_tpm2_quote_with_pid dv nonce n qbsize ah pid w = Inr (r, w')"
  shows "view w' = view w"
  using assms(3)
  unfolding make_tpm2_quote_with_pid_def assms(2) Let_def
  apply (elim cbindE)
  apply (clarsimp simp only: prod.case)
  apply (elim cbindE)
  apply (clarsimp simp only: prod.case)
  apply (drule tpm2_quote_quiet)
  apply (auto elim!: cbindE split: prod.split_asm if_split_asm)
  done

lemma pica_quiet:
  assumes "dv_ms dv = ms" "dv_es dv = es" "make_tpm2_pica dv nonce n pid tbl w = Inr (r, tbl', w')"
  shows "view w' = view w"
  using assms(3)
  by (auto simp: make_tpm2_pica_def cbind_eq_Inr Let_def assms(1)
      dest!: procchain_quiet quote_with_pid_quiet [OF assms(1,2)])

end

section \<open>The daemon among its clients\<close>

text \<open>A host function as one of the whole state, and a host environment as one of the network.\<close>

definition on_host :: "('h \<Rightarrow> 'r \<times> 'h) \<Rightarrow> 'h net \<Rightarrow> 'r \<times> 'h net" where
  "on_host f w = (let (r, h) = f (nt_host w) in (r, w\<lparr>nt_host := h\<rparr>))"

definition host_os :: "'h os \<Rightarrow> 'h net os" where
  "host_os os = \<lparr>os_open = \<lambda>p f m. on_host (os_open os p f m), os_read = \<lambda>fd n. on_host (os_read os fd n),
     os_write = \<lambda>fd bs. on_host (os_write os fd bs), os_lseek = \<lambda>fd o1 wh. on_host (os_lseek os fd o1 wh),
     os_close = \<lambda>fd. on_host (os_close os fd), os_chmod = \<lambda>p m. on_host (os_chmod os p m),
     os_malloc = \<lambda>n. on_host (os_malloc os n)\<rparr>"

definition host_ms :: "'h msys \<Rightarrow> 'h net msys" where
  "host_ms ms = \<lparr>m_os = host_os (m_os ms), m_fstat = \<lambda>fd w. m_fstat ms fd (nt_host w),
     m_readlink = \<lambda>p w. m_readlink ms p (nt_host w), m_lines = \<lambda>p w. m_lines ms p (nt_host w),
     m_sha256 = m_sha256 ms, m_md = m_md ms, m_murmur = m_murmur ms\<rparr>"

definition host_es :: "'h esys \<Rightarrow> 'h net esys" where
  "host_es es = \<lparr>es_tcti = on_host (es_tcti es), es_init = on_host (es_init es), es_key = \<lambda>hdl. on_host (es_key es hdl),
     es_set_auth = on_host (es_set_auth es), es_read_public = on_host (es_read_public es),
     es_quote = \<lambda>qd sc sel. on_host (es_quote es qd sc sel), es_marshal = es_marshal es\<rparr>"

definition net_env :: "'h denv \<Rightarrow> 'h net denv" where
  "net_env d = \<lparr>dv_so = net_ops, dv_es = host_es (dv_es d), dv_ms = host_ms (dv_ms d), dv_cl = dv_cl d, dv_ts = dv_ts d,
     dv_malloc = dv_malloc d, dv_cmem = dv_cmem d, dv_ecall = dv_ecall d, dv_unseal = dv_unseal d, dv_fuel = dv_fuel d\<rparr>"

definition net_view :: "'h net \<Rightarrow> conn \<times> conn list \<times> bytes list" where
  "net_view w = (nt_con w, nt_pending w, nt_past w)"

lemma on_host_view [simp]: "net_view (snd (on_host f w)) = net_view w"
  by (simp add: on_host_def net_view_def case_prod_beta Let_def)

interpretation qh: quiet_host net_view "host_ms ms" "host_es es"
  by unfold_locales (simp_all add: host_ms_def host_os_def host_es_def)

lemma net_env_simps [simp]:
  "dv_so (net_env d) = net_ops" "dv_es (net_env d) = host_es (dv_es d)" "dv_ms (net_env d) = host_ms (dv_ms d)"
  "dv_cl (net_env d) = dv_cl d" "dv_malloc (net_env d) = dv_malloc d" "dv_cmem (net_env d) = dv_cmem d" "dv_ts (net_env d) = dv_ts d"
  "dv_ecall (net_env d) = dv_ecall d" "dv_unseal (net_env d) = dv_unseal d" "dv_fuel (net_env d) = dv_fuel d"
  by (simp_all add: net_env_def)

lemmas env_quiet = qh.quote_with_pid_quiet [OF net_env_simps(3,2)] qh.pica_quiet [OF net_env_simps(3,2)]

section \<open>What is sent\<close>

type_synonym packet = "tpmd_head \<times> bytes"

definition enc_packet :: "packet \<Rightarrow> bytes" where
  "enc_packet p = enc_head (fst p) @ snd p"

definition whole_packet :: "packet \<Rightarrow> bool" where
  "whole_packet p \<longleftrightarrow> unat (th_len (fst p)) = length (snd p)"

definition packets :: "packet list \<Rightarrow> bytes" where
  "packets ps = concat (map enc_packet ps)"

lemma packets_simps [simp]: "packets [] = []" "packets (p # ps) = enc_packet p @ packets ps" "packets (ps @ qs) = packets ps @ packets qs"
  by (simp_all add: packets_def)

text \<open>The state with \<open>bs\<close> sent on the connection.\<close>

definition put_out :: "bytes \<Rightarrow> 'h net \<Rightarrow> 'h net" where
  "put_out bs w = w\<lparr>nt_con := (nt_con w)\<lparr>cn_out := cn_out (nt_con w) @ bs\<rparr>\<rparr>"

lemma net_send:
  assumes "buf \<noteq> []" "length buf < 2 ^ 64" "sock_send n net_ops sock buf w = Inr (rc, w')"
  shows "rc = 0 \<and> w' = put_out buf w"
proof -
  obtain m where "n = Suc m" using assms(3) by (cases n) (auto simp: sock_send_def)
  moreover have "(of_nat (length buf) :: u64) \<noteq> 0"
    using less_of_nat_u64 [of 0 "length buf"] assms(1,2) by auto
  ultimately show ?thesis using assms(3) by (simp add: sock_send_def net_ops_def put_out_def)
qed

lemma enc_head_nonempty: "enc_head h \<noteq> []"
  using length_enc_head [of h] by (metis list.size(3) zero_neq_numeral)

definition small_ser :: "cbor_lib \<Rightarrow> bool" where
  "small_ser cl \<longleftrightarrow> (\<forall>x. length (cl_ser cl x) < 2 ^ 32)"

text \<open>One reply with command \<open>cmd\<close> has been sent, and nothing else happened to the connections.\<close>

definition replied :: "u16 \<Rightarrow> 'h net \<Rightarrow> 'h net \<Rightarrow> bool" where
  "replied cmd w w' \<longleftrightarrow> (\<exists>p. whole_packet p \<and> th_cmd (fst p) = cmd \<and> net_view w' = net_view (put_out (enc_packet p) w))"

lemma put_out_put_out: "put_out bs (put_out as w) = put_out (as @ bs) w"
  by (simp add: put_out_def)

lemma send_reply_replied:
  assumes "send_reply (net_env d) con cmd ser w = Inr w'" "ser \<noteq> []" "length ser < 2 ^ 32"
  shows "replied cmd w w'"
proof -
  let ?h = "\<lparr>th_cmd = cmd, th_aux = TPMD_AUX_OK, th_len = of_nat (length ser)\<rparr>"
  from assms(1) obtain rc w1 where s: "sock_send (dv_fuel d) net_ops con (enc_head ?h) w = Inr (rc, w1)"
    by (auto simp: send_reply_def cbind_eq_Inr)
  have w1: "rc = 0" "w1 = put_out (enc_head ?h) w"
    using net_send [OF enc_head_nonempty _ s] by simp_all
  with assms(1) s obtain rc' where "sock_send (dv_fuel d) net_ops con ser w1 = Inr (rc', w')"
    by (auto simp: send_reply_def cbind_eq_Inr)
  from net_send [OF assms(2) _ this] assms(3) have "w' = put_out ser w1" by simp
  with w1 assms(3) show ?thesis
    unfolding replied_def
    by (intro exI [of _ "(?h, ser)"]) (simp add: whole_packet_def enc_packet_def put_out_put_out unat_of_nat)
qed

lemma send_error_replied:
  assumes "send_error (net_env d) con cmd w = Inr w'"
  shows "\<exists>c. cmd = Val c \<and> replied c w w'"
proof -
  from assms obtain c rc where c: "cmd = Val c"
    "sock_send (dv_fuel d) net_ops con (enc_head \<lparr>th_cmd = c, th_aux = TPMD_AUX_ERR, th_len = 0\<rparr>) w = Inr (rc, w')"
    by (auto simp: send_error_def cbind_eq_Inr)
  from net_send [OF enc_head_nonempty _ c(2)] have "w' = put_out (enc_head \<lparr>th_cmd = c, th_aux = TPMD_AUX_ERR, th_len = 0\<rparr>) w"
    by simp
  then have "replied c w w'"
    unfolding replied_def
    by (intro exI [of _ "(\<lparr>th_cmd = c, th_aux = TPMD_AUX_ERR, th_len = 0\<rparr>, [])"]) (simp add: whole_packet_def enc_packet_def)
  with c(1) show ?thesis by blast
qed

lemma reply_attest_replied:
  assumes "reply_attest (net_env d) con nonce sz q w = Inr w'" "small_ser (dv_cl d)"
  shows "replied TPMD_RPL_ATTEST w w'"
  using assms(1) assms(2) [unfolded small_ser_def]
  by (auto simp: reply_attest_def Let_def case_prod_beta cbind_eq_Inr split: if_split_asm
      dest!: send_error_replied intro: send_reply_replied)

lemma reply_pica_replied:
  assumes "reply_pica (net_env d) con sz q pica w = Inr w'" "small_ser (dv_cl d)"
  shows "replied TPMD_RPL_PICA w w'"
  using assms(1) assms(2) [unfolded small_ser_def]
  by (auto simp: reply_pica_def Let_def case_prod_beta cbind_eq_Inr split: if_split_asm
      dest!: send_error_replied intro: send_reply_replied)

lemma replied_view: "net_view v = net_view w \<Longrightarrow> replied cmd v w' \<Longrightarrow> replied cmd w w'"
  by (auto simp: replied_def net_view_def put_out_def)

text \<open>The reply a request asks for.\<close>

definition answer_to :: "u16 \<Rightarrow> u16 option" where
  "answer_to cmd = (if cmd = TPMD_REQ_ATTEST then Some TPMD_RPL_ATTEST
     else if cmd = TPMD_REQ_PICA then Some TPMD_RPL_PICA else None)"

lemma handle_packet_replied:
  assumes "handle_packet (net_env d) con pid ah pkt tbl w = Inr (tbl', w')" "small_ser (dv_cl d)"
  shows "case answer_to (th_cmd (pk_head pkt)) of None \<Rightarrow> net_view w' = net_view w | Some c \<Rightarrow> replied c w w'"
proof -
  consider "th_cmd (pk_head pkt) = TPMD_REQ_ATTEST" | "th_cmd (pk_head pkt) = TPMD_REQ_PICA"
    | "answer_to (th_cmd (pk_head pkt)) = None" "tbl' = tbl" "w' = w"
    using assms(1)
    by (auto simp: handle_packet_def answer_to_def Let_def TPMD_REQ_HELLO_def TPMD_REQ_ATTEST_def TPMD_REQ_PICA_def
        split: if_split_asm)
  then show ?thesis
  proof cases
    case 1
    then have "handle_attest (net_env d) con pid ah (pk_data pkt) w = Inr w'"
      using assms(1) by (auto simp: handle_packet_def TPMD_REQ_HELLO_def TPMD_REQ_ATTEST_def cbind_eq_Inr)
    then have "replied TPMD_RPL_ATTEST w w'"
      unfolding handle_attest_def
      by (auto simp: cbind_eq_Inr dest!: env_quiet(1) reply_attest_replied [OF _ assms(2)] intro: replied_view)
    with 1 show ?thesis by (simp add: answer_to_def)
  next
    case 2
    then have "handle_pica (net_env d) con pid (pk_data pkt) tbl w = Inr (tbl', w')"
      using assms(1) by (auto simp: handle_packet_def TPMD_REQ_HELLO_def TPMD_REQ_ATTEST_def TPMD_REQ_PICA_def)
    then have "replied TPMD_RPL_PICA w w'"
      unfolding handle_pica_def
      by (auto simp: cbind_eq_Inr dest!: env_quiet(2) reply_pica_replied [OF _ assms(2)] intro: replied_view)
    with 2 show ?thesis by (simp add: answer_to_def TPMD_REQ_PICA_def TPMD_REQ_ATTEST_def)
  qed simp
qed

section \<open>What is read\<close>

lemma recv_keeps:
  "sock_recv_loop n net_ops sock len t buf w = Inr (r, w') \<Longrightarrow> net_sent w' = net_sent w \<and> net_other w' = net_other w"
proof (induction n arbitrary: t buf w)
  case (Suc n)
  obtain rr c1 where c: "conn_recv (unat (len - t)) (nt_con w) = (rr, c1)" by force
  have c1: "cn_out c1 = cn_out (nt_con w)" "cn_pid c1 = cn_pid (nt_con w)"
    using c by (auto simp: conn_recv_def split: list.split_asm)
  let ?w1 = "w\<lparr>nt_con := c1\<rparr>"
  have step: "so_recv net_ops sock (unat (len - t)) w = (rr, ?w1)" using c by (simp add: net_ops_def)
  have "w' = ?w1 \<or> (\<exists>t' buf'. sock_recv_loop n net_ops sock len t' buf' ?w1 = Inr (r, w'))"
    using Suc.prems by (auto simp: step Let_def cbind_eq_Inr split: if_split_asm)
  then show ?case
  proof
    assume "w' = ?w1"
    with c1 show ?case by (simp add: net_sent_def net_other_def)
  next
    assume "\<exists>t' buf'. sock_recv_loop n net_ops sock len t' buf' ?w1 = Inr (r, w')"
    with Suc.IH c1 show ?case by (fastforce simp: net_sent_def net_other_def)
  qed
qed simp

lemma readpacket_keeps:
  assumes "readpacket (net_env d) con w = Inr (r, w')"
  shows "net_sent w' = net_sent w \<and> net_other w' = net_other w"
  using assms
  by (auto simp: readpacket_def sock_recv_def cbind_eq_Inr Let_def split: if_split_asm dest!: recv_keeps)

text \<open>A request is whole, and the fuel of the receive loop covers it.\<close>

definition request_ok :: "nat \<Rightarrow> packet \<Rightarrow> bool" where
  "request_ok fuel p \<longleftrightarrow> whole_packet p \<and> HEAD_SZ \<le> fuel \<and> length (snd p) \<le> fuel"

lemma whole_packet_length: "whole_packet p \<Longrightarrow> length (snd p) < 2 ^ 32"
proof -
  assume "whole_packet p"
  moreover have "unat (th_len (fst p)) < 2 ^ LENGTH(32)" by (rule unsigned_less)
  ultimately show "length (snd p) < 2 ^ 32" by (simp add: whole_packet_def)
qed

lemma readpacket_whole:
  assumes "request_ok (dv_fuel d) p" "dv_malloc d = (\<lambda>_. True)" "net_unread w = enc_packet p @ rest"
  shows "\<exists>w'. readpacket (net_env d) con w = Inr ((0, Val (Some \<lparr>pk_head = fst p, pk_data = map Val (snd p)\<rparr>)), w') \<and>
     net_unread w' = rest \<and> net_sent w' = net_sent w \<and> net_other w' = net_other w"
proof -
  let ?h = "fst p" and ?n = "length (snd p)" and ?hb = "replicate HEAD_SZ Garbage :: bbuf"
  have ok: "whole_packet p" "HEAD_SZ \<le> dv_fuel d" "?n \<le> dv_fuel d" using assms(1) by (simp_all add: request_ok_def)
  have u: "net_unread w = enc_head ?h @ snd p @ rest" using assms(3) by (simp add: enc_packet_def)
  have "?hb \<noteq> []" "length ?hb < 2 ^ 64" "length ?hb \<le> length (net_unread w)" "length ?hb \<le> dv_fuel d"
    using ok(2) by (simp_all add: HEAD_SZ_def u)
  from nt.recv_exact [OF this, of con] obtain w1 where r1: "sock_recv (dv_fuel d) net_ops con ?hb w = Inr ((0, map Val (enc_head ?h)), w1)"
    "net_unread w1 = snd p @ rest" "net_sent w1 = net_sent w" "net_other w1 = net_other w"
    by (auto simp: u HEAD_SZ_def)
  have hd: "buf_get (map Val (enc_head ?h)) 0 HEAD_SZ = Inr (enc_head ?h)"
    by (simp add: buf_get_Val HEAD_SZ_def)
  have len: "unat (th_len ?h) = ?n" using ok(1) by (simp add: whole_packet_def)
  show ?thesis
  proof (cases "snd p = []")
    case True
    with r1 hd len assms(2) show ?thesis by (simp add: readpacket_def head_codec.dec_enc Let_def)
  next
    case False
    let ?db = "replicate ?n Garbage :: bbuf"
    have "?db \<noteq> []" "length ?db < 2 ^ 64" "length ?db \<le> length (net_unread w1)" "length ?db \<le> dv_fuel d"
      using False ok(3) whole_packet_length [OF ok(1)] by (simp_all add: r1(2))
    from nt.recv_exact [OF this, of con] obtain w2 where "sock_recv (dv_fuel d) net_ops con ?db w1 = Inr ((0, map Val (snd p)), w2)"
      "net_unread w2 = rest" "net_sent w2 = net_sent w1" "net_other w2 = net_other w1"
      by (auto simp: r1(2))
    with r1 hd len assms(2) False show ?thesis by (simp add: readpacket_def head_codec.dec_enc Let_def)
  qed
qed

lemma readpacket_end:
  assumes "net_unread w = []" "0 < dv_fuel d"
  shows "readpacket (net_env d) con w = Inr ((-1, Garbage), w)"
  using nt.recv_closed [OF assms, of con] by (simp add: readpacket_def)

section \<open>The protocol\<close>

text \<open>
  The abstract server of one connection: requests still to come and replies
  given.  Each step takes the next request and answers it if it asks for an
  answer.
\<close>

inductive astep :: "packet list \<times> packet list \<Rightarrow> packet list \<times> packet list \<Rightarrow> bool" where
  answered: "answer_to (th_cmd (fst p)) = Some (th_cmd (fst r)) \<Longrightarrow> whole_packet r \<Longrightarrow> astep (p # ps, rs) (ps, rs @ [r])"
| silent: "answer_to (th_cmd (fst p)) = None \<Longrightarrow> astep (p # ps, rs) (ps, rs)"

inductive_cases astepE: "astep (p # ps, rs) a"

text \<open>The bytes on the connection are those of the abstract state, in whatever pieces they come.\<close>

definition refines :: "nat \<Rightarrow> 'h net \<Rightarrow> packet list \<times> packet list \<Rightarrow> bool" where
  "refines fuel w a \<longleftrightarrow> net_unread w = packets (fst a) \<and> list_all (request_ok fuel) (fst a) \<and> net_sent w = packets (snd a)"

lemma replied_refines:
  assumes "replied c w w'" "net_sent w = packets rs"
  shows "\<exists>r. whole_packet r \<and> th_cmd (fst r) = c \<and> net_sent w' = packets (rs @ [r]) \<and> net_unread w' = net_unread w"
proof -
  from assms(1) obtain r where r: "whole_packet r" "th_cmd (fst r) = c" "net_view w' = net_view (put_out (enc_packet r) w)"
    unfolding replied_def by blast
  then have "net_sent w' = packets (rs @ [r])" "net_unread w' = net_unread w"
    using assms(2) by (simp_all add: net_view_def put_out_def net_sent_def net_unread_def)
  with r(1,2) show ?thesis by blast
qed

lemma request_step:
  assumes "refines (dv_fuel d) w (p # ps, rs)" "dv_malloc d = (\<lambda>_. True)" "small_ser (dv_cl d)"
    and "readpacket (net_env d) con w = Inr ((rc, q), w1)"
  shows "rc = 0 \<and> (\<exists>pkt. q = Val (Some pkt) \<and> (\<forall>tbl' w'. handle_packet (net_env d) con pid ah pkt tbl w1 = Inr (tbl', w') \<longrightarrow>
     (\<exists>a. astep (p # ps, rs) a \<and> refines (dv_fuel d) w' a)))"
proof -
  have p: "request_ok (dv_fuel d) p" "net_unread w = enc_packet p @ packets ps" "list_all (request_ok (dv_fuel d)) ps"
    "net_sent w = packets rs"
    using assms(1) by (simp_all add: refines_def)
  let ?pkt = "\<lparr>pk_head = fst p, pk_data = map Val (snd p)\<rparr>"
  from readpacket_whole [OF p(1) assms(2) p(2), of con] assms(4) have r: "rc = 0" "q = Val (Some ?pkt)"
    "net_unread w1 = packets ps" "net_sent w1 = packets rs"
    by (auto simp: p(4))
  have "\<exists>a. astep (p # ps, rs) a \<and> refines (dv_fuel d) w' a"
    if h: "handle_packet (net_env d) con pid ah ?pkt tbl w1 = Inr (tbl', w')" for tbl' w'
  proof (cases "answer_to (th_cmd (fst p))")
    case None
    with handle_packet_replied [OF h assms(3)] have "net_view w' = net_view w1" by simp
    then have "refines (dv_fuel d) w' (ps, rs)" using r(3,4) p(3) by (simp add: refines_def net_view_def net_unread_def net_sent_def)
    with silent [OF None] show ?thesis by blast
  next
    case (Some c)
    with handle_packet_replied [OF h assms(3)] have "replied c w1 w'" by simp
    from replied_refines [OF this r(4)] obtain rp where rp: "whole_packet rp" "th_cmd (fst rp) = c"
      "net_sent w' = packets (rs @ [rp])" "net_unread w' = net_unread w1" by blast
    then have "refines (dv_fuel d) w' (ps, rs @ [rp])" using r(3) p(3) by (simp add: refines_def)
    moreover have "astep (p # ps, rs) (ps, rs @ [rp])" using Some rp(1,2) by (intro answered) simp_all
    ultimately show ?thesis by blast
  qed
  with r(1,2) show ?thesis by blast
qed

text \<open>
  C3.  The daemon refines the protocol: from a connection whose bytes, in
  whatever pieces they arrive, are a list of whole requests, every step of the
  daemon either takes the next request and answers it with exactly one whole
  reply of the kind it asks for, or, when no request is left, goes back to
  accepting; otherwise it has hit undefined behaviour.
\<close>

theorem daemon_refines_protocol:
  assumes "refines (dv_fuel d) w a" "0 < dv_fuel d" "dv_malloc d = (\<lambda>_. True)" "small_ser (dv_cl d)"
    and "dstep (net_env d) sock (Serving con pid ah tbl w) s"
  shows "case s of
      Serving con' pid' ah' tbl' w' \<Rightarrow> con' = con \<and> pid' = pid \<and> ah' = ah \<and> (\<exists>a'. astep a a' \<and> refines (dv_fuel d) w' a')
    | Accepting tbl' w' \<Rightarrow> tbl' = tbl \<and> fst a = [] \<and> refines (dv_fuel d) w' a
    | Stopped _ _ \<Rightarrow> False
    | Crashed _ \<Rightarrow> True"
proof -
  obtain ps rs where a: "a = (ps, rs)" by (cases a)
  show ?thesis
  proof (cases ps)
    case Nil
    then have "net_unread w = []" using assms(1) by (simp add: refines_def a)
    from readpacket_end [OF this assms(2), of con] assms(1,5) show ?thesis
      by (auto simp: a Nil elim!: dstep_ServingE)
  next
    case (Cons p qs)
    show ?thesis
      using assms(5) request_step [OF assms(1) [unfolded a Cons] assms(3,4), of con _ _ _ pid ah tbl]
      by (fastforce simp: a Cons elim!: dstep_ServingE)
  qed
qed


section \<open>Framing\<close>

definition framed :: "bytes \<Rightarrow> bool" where
  "framed bs \<longleftrightarrow> (\<exists>ps. bs = packets ps \<and> list_all whole_packet ps)"

definition net_inv :: "'h net \<Rightarrow> bool" where
  "net_inv w \<longleftrightarrow> framed (net_sent w) \<and> (\<forall>b \<in> set (nt_past w). framed b) \<and> (\<forall>c \<in> set (nt_pending w). cn_out c = [])"

definition dstate_inv :: "'h net dstate \<Rightarrow> bool" where
  "dstate_inv s = (case s of Accepting _ w \<Rightarrow> net_inv w | Serving _ _ _ _ w \<Rightarrow> net_inv w | Stopped _ w \<Rightarrow> net_inv w | Crashed _ \<Rightarrow> True)"

lemma framed_simps: "framed []" "framed bs \<Longrightarrow> whole_packet p \<Longrightarrow> framed (bs @ enc_packet p)"
proof -
  show "framed []" by (auto simp: framed_def intro: exI [of _ "[]"])
  assume "framed bs" "whole_packet p"
  then obtain ps where "bs = packets ps" "list_all whole_packet ps" by (auto simp: framed_def)
  then show "framed (bs @ enc_packet p)"
    unfolding framed_def using \<open>whole_packet p\<close> by (intro exI [of _ "ps @ [p]"]) simp
qed

lemma net_inv_view: "net_view w' = net_view w \<Longrightarrow> net_inv w \<Longrightarrow> net_inv w'"
  by (simp add: net_view_def net_inv_def net_sent_def)

lemma net_inv_replied: "replied c w w' \<Longrightarrow> net_inv w \<Longrightarrow> net_inv w'"
  unfolding replied_def
proof (elim exE conjE)
  fix p assume p: "whole_packet p" "net_view w' = net_view (put_out (enc_packet p) w)" and inv: "net_inv w"
  then have "net_inv (put_out (enc_packet p) w)"
    by (simp add: net_inv_def put_out_def net_sent_def framed_simps)
  with p(2) show "net_inv w'" by (rule net_inv_view)
qed

lemma net_inv_read:
  assumes "readpacket (net_env d) con w = Inr (r, w')" "net_inv w"
  shows "net_inv w'"
  using readpacket_keeps [OF assms(1)] assms(2) by (simp add: net_inv_def net_other_def net_sent_def)

lemma net_inv_handle:
  assumes "handle_packet (net_env d) con pid ah pkt tbl w = Inr (tbl', w')" "small_ser (dv_cl d)" "net_inv w"
  shows "net_inv w'"
  using handle_packet_replied [OF assms(1,2)] assms(3)
  by (auto split: option.split_asm dest: net_inv_view net_inv_replied)

lemma net_inv_accept:
  assumes "so_accept (dv_so (net_env d)) sock w = (con, w')" "net_inv w"
  shows "net_inv w'"
proof (cases "nt_pending w")
  case Nil
  with assms show ?thesis by (simp add: net_ops_def net_accept_def)
next
  case (Cons c cs)
  with assms have "w' = w\<lparr>nt_con := c, nt_pending := cs, nt_past := nt_past w @ [cn_out (nt_con w)]\<rparr>" "cn_out c = []"
    by (simp_all add: net_ops_def net_accept_def net_inv_def)
  with assms(2) Cons framed_simps(1) show ?thesis by (auto simp: net_inv_def net_sent_def)
qed

lemma net_inv_identify:
  assumes "identify (net_env d) con tbl w = Inr (pid, ah, tbl', w')" "net_inv w"
  shows "net_inv w'"
  using assms by (auto simp: identify_def cbind_eq_Inr Let_def dest!: qh.sha256_pid_quiet intro: net_inv_view)

lemma dstep_inv:
  assumes "dstep (net_env d) sock s s'" "small_ser (dv_cl d)" "dstate_inv s"
  shows "dstate_inv s'"
  using assms(1)
proof cases
  case (stop w con w' tbl)
  then show ?thesis using assms(3) net_inv_accept [OF stop(3)] by (simp add: dstate_inv_def)
next
  case (accept w con w' tbl pid ah tbl' w'')
  then show ?thesis using assms(3) net_inv_accept [OF accept(3)] net_inv_identify [OF accept(5)] by (simp add: dstate_inv_def)
next
  case (packet con w pkt w' pid ah tbl tbl' w'')
  then show ?thesis
    using assms(2,3) net_inv_read [OF packet(3)] net_inv_handle [OF packet(4)] by (simp add: dstate_inv_def)
next
  case (hangup con w rc p w' pid ah tbl)
  then show ?thesis using assms(3) net_inv_read [OF hangup(3)] by (simp add: dstate_inv_def)
qed (simp_all add: dstate_inv_def)


section \<open>Requests and failures that end the daemon\<close>

text \<open>
  C39.  A measurement request with less than 32 bytes of nonce, which any local
  client can send, makes the daemon read behind the packet.
\<close>

theorem short_request_overread:
  assumes "mycbor_pack_procchain (dv_fuel dv) (dv_cl dv) (dv_ms dv) pid tbl w = Inr (Some chain, Val n, tbl', w')"
    and "length nonce < 32" "m_md (dv_ms dv) = ms_good" "\<forall>x. length (m_sha256 (dv_ms dv) x) = 32"
    and "th_cmd (pk_head pkt) = TPMD_REQ_PICA" "pk_data pkt = map Val nonce"
  shows "handle_packet dv con pid ah pkt tbl w = Inl OutOfBounds"
proof -
  have "make_tpm2_quote_with_pid dv nonce 32 QBUF_SZ (m_sha256 (dv_ms dv) (take n chain)) pid w' = Inl OutOfBounds"
    using assms(2-4) by (simp add: make_tpm2_quote_with_pid_def hash_extend_sha256_def ms_good_def)
  then have "make_tpm2_pica dv nonce QBUF_SZ pid tbl w = Inl OutOfBounds"
    by (simp add: make_tpm2_pica_def assms(1) Let_def)
  moreover have "take 32 (pk_data pkt) = map Val nonce" using assms(2,6) by simp
  ultimately show ?thesis
    using assms(5) by (simp add: handle_packet_def handle_pica_def TPMD_REQ_HELLO_def TPMD_REQ_ATTEST_def TPMD_REQ_PICA_def)
qed

text \<open>
  C40.  A TPM that fails to quote is not noticed: \<open>make_tpm2_quote\<close> returns 0 and
  leaves the quote unset, and the daemon then unmarshals the unset bytes.
\<close>

theorem quote_failure_unnoticed:
  fixes dv :: "'w denv" and ah nonce :: bytes
  defines "udata \<equiv> m_sha256 (dv_ms dv) (take 32 ah @ take 32 nonce)"
  assumes "32 \<le> length ah" "32 \<le> length nonce" "m_md (dv_ms dv) = ms_good" "length udata = 32"
    and "es_tcti (dv_es dv) w = (0, w1)" "es_init (dv_es dv) w1 = (0, w2)" "es_key (dv_es dv) 0x81018001 w2 = (0, w3)"
    and "es_set_auth (dv_es dv) w3 = (ra, w4)" "make_sig_scheme (dv_es dv) w4 = ((0, Some sc), w5)"
    and "pcr_select TPM2_ALG_SHA256 daemon_pcrs = Inr sel"
    and "es_quote (dv_es dv) udata sc sel w5 = ((rc, quoted, sig), w6)" "rc \<noteq> 0"
  shows "make_tpm2_quote (dv_es dv) udata 32 TPM2_ALG_SHA256 daemon_pcrs 0x81018001 (Some tpm2_quote_unset) w =
       Inr ((0, Some tpm2_quote_unset), w6) \<and>
     make_tpm2_quote_with_pid dv nonce 32 QBUF_SZ ah pid w = Inl Uninit"
proof -
  have q: "make_tpm2_quote (dv_es dv) udata 32 TPM2_ALG_SHA256 daemon_pcrs 0x81018001 (Some tpm2_quote_unset) w =
      Inr ((0, Some tpm2_quote_unset), w6)"
    using assms(5-) by (simp add: make_tpm2_quote_def QDATA_SZ_def quote_into_def)
  have "hash_extend_sha256 (m_sha256 (dv_ms dv)) (m_md (dv_ms dv)) ah nonce = Inr (0, map Val udata)"
    using assms(2-4) by (simp add: hash_extend_sha256_def ms_good_def udata_def)
  moreover have "buf_get (map Val udata) 0 32 = Inr udata" using assms(5) by (simp add: buf_get_Val)
  ultimately have "make_tpm2_quote_with_pid dv nonce 32 QBUF_SZ ah pid w = Inl Uninit"
    using q by (simp add: make_tpm2_quote_with_pid_def tpm2_quote_unset_def)
  with q show ?thesis by blast
qed

section \<open>A daemon at work\<close>

definition ex_es :: "u32 \<Rightarrow> unit esys" where
  "ex_es rc = \<lparr>es_tcti = \<lambda>w. (0, w), es_init = \<lambda>w. (0, w), es_key = \<lambda>_ w. (0, w), es_set_auth = \<lambda>w. (0, w),
     es_read_public = \<lambda>w. ((0, \<lparr>pb_attrs = TPMA_OBJECT_SIGN_ENCRYPT, pb_type = TPM2_ALG_RSA, pb_scheme = TPM2_ALG_NULL, pb_hash = 0\<rparr>), w),
     es_quote = \<lambda>_ _ _ w. ((rc, [9], SigRsaSsa TPM2_ALG_SHA256 [8]), w), es_marshal = \<lambda>_ _. (0, [8])\<rparr>"

definition ex_attest :: attest where
  "ex_attest = \<lparr>at_type = TPM2_ST_ATTEST_QUOTE, at_extra = [], at_pcrs = \<lparr>pl_count = 0, pl_sel = []\<rparr>, at_pcr_digest = []\<rparr>"

text \<open>The host alone has no sockets; those are the network's.\<close>

definition no_sockets :: "unit sockops" where
  "no_sockets = \<lparr>so_recv = \<lambda>_ _ w. (RErr, w), so_write = \<lambda>_ _ w. (-1, w), so_socket = \<lambda>w. (-1, w), so_connect = \<lambda>_ _ w. (-1, w),
     so_bind = \<lambda>_ _ w. (-1, w), so_chmod = \<lambda>_ w. (-1, w), so_listen = \<lambda>_ w. (-1, w), so_accept = \<lambda>_ w. (-1, w),
     so_peercred = \<lambda>_ _. None\<rparr>"

definition ex_denv :: "u32 \<Rightarrow> unit denv" where
  "ex_denv rc = \<lparr>dv_so = no_sockets, dv_es = ex_es rc, dv_ms = ex_daemon, dv_cl = ex_wire1,
     dv_ts = \<lparr>un_attest = \<lambda>_. (0, ex_attest), un_signature = \<lambda>_. (0, SigOther 0)\<rparr>,
     dv_malloc = \<lambda>_. True, dv_cmem = \<lambda>_. True, dv_ecall = True, dv_unseal = \<lambda>_. Some (replicate 32 5), dv_fuel = 9\<rparr>"

definition ex_request :: packet where
  "ex_request = (\<lparr>th_cmd = TPMD_REQ_ATTEST, th_aux = 0, th_len = 2\<rparr>, [4, 4])"

lemma ex_pcrs: "\<exists>sel. pcr_select TPM2_ALG_SHA256 daemon_pcrs = Inr sel"
  by (simp add: pcr_select_def daemon_pcrs_def)

lemma ex_quote_made:
  "make_tpm2_quote (host_es (ex_es 0)) udata 32 TPM2_ALG_SHA256 daemon_pcrs 0x81018001 (Some tpm2_quote_unset) w =
   (if length udata < 32 then Inl OutOfBounds
    else Inr ((0, Some \<lparr>tq_type = Val 1, tq_quote = Val [9], tq_sign = Val [8]\<rparr>), w))"
  by (auto simp: make_tpm2_quote_def QDATA_SZ_def quote_into_def host_es_def ex_es_def on_host_def make_sig_scheme_def scheme_for_def
      TPM2_ALG_RSA_def TPM2_ALG_NULL_def TPMA_OBJECT_SIGN_ENCRYPT_def MAX_QUOTESIZE_def tpm2_quote_unset_def QUOTE_TPM2_def
      pcr_select_def daemon_pcrs_def)

lemma ex_small: "small_ser ex_wire1"
  by (simp add: small_ser_def ex_wire1_def split: cbor.split)

lemma ex_ser_simps: "cl_ser ex_wire1 (CMap d ps) = [1]"
  by (simp add: ex_wire1_def)

lemma ex_hash: "length ah = 32 \<Longrightarrow> length nonce = 32 \<Longrightarrow>
  hash_extend_sha256 (m_sha256 ex_daemon) (m_md ex_daemon) ah nonce = Inr (0, map Val (replicate 31 7 @ [64]))"
  by (simp add: hash_extend_sha256_def ex_daemon_def ex_msys_def ms_good_def)

lemma ex_quote_with_pid:
  assumes "length ah = 32" "length nonce = 32"
  shows "make_tpm2_quote_with_pid (net_env (ex_denv 0)) nonce 32 QBUF_SZ ah pid w = Inr ((0, 1, Val [1]), w)"
proof -
  have get: "buf_get (map Val (replicate 31 7 @ [64])) 0 32 = Inr (replicate 31 7 @ [64])"
    by (subst buf_get_Val) simp_all
  show ?thesis
    by (simp add: make_tpm2_quote_with_pid_def ex_denv_def host_ms_def ex_hash [OF assms] get ex_quote_made ex_attest_def
        add_cbor_map_def ex_ser_simps QBUF_SZ_def del: map_append map_replicate)
qed

lemma net_send_ok:
  assumes "buf \<noteq> []" "length buf < 2 ^ 64" "0 < n"
  shows "sock_send n net_ops sock buf w = Inr (0, put_out buf w)"
proof -
  obtain m where "n = Suc m" using assms(3) by (cases n) auto
  moreover have "(of_nat (length buf) :: u64) \<noteq> 0"
    using less_of_nat_u64 [of 0 "length buf"] assms(1,2) by auto
  ultimately show ?thesis by (simp add: sock_send_def net_ops_def put_out_def)
qed

lemma ex_handled:
  "handle_packet (net_env (ex_denv 0)) 4 7 (Val (replicate 32 1)) \<lparr>pk_head = fst ex_request, pk_data = map Val (snd ex_request)\<rparr> tbl w =
     Inr (tbl, put_out [1] (put_out (enc_head \<lparr>th_cmd = TPMD_RPL_ATTEST, th_aux = TPMD_AUX_OK, th_len = 1\<rparr>) w))"
proof -
  have get: "buf_get (map Val (snd ex_request)) 0 (length (map Val (snd ex_request))) = Inr (snd ex_request)"
    by (simp add: buf_get_Val)
  have unseal: "ecall_unseal (net_env (ex_denv 0)) bs 32 = Inr (replicate 32 5)" for bs
    by (simp add: ecall_unseal_def ex_denv_def)
  have env: "dv_ecall (net_env (ex_denv 0))" "dv_fuel (ex_denv 0) = 9" "dv_cl (ex_denv 0) = ex_wire1" "dv_cmem (ex_denv 0) = (\<lambda>_. True)"
    by (simp_all add: ex_denv_def)
  have "reply_attest (net_env (ex_denv 0)) 4 (replicate 32 5) 1 (Val [1]) w =
      Inr (put_out [1] (put_out (enc_head \<lparr>th_cmd = TPMD_RPL_ATTEST, th_aux = TPMD_AUX_OK, th_len = 1\<rparr>) w))" for w
    by (simp add: reply_attest_def env add_cbor_map_def ex_ser_simps qbuf_read_def QBUF_SZ_def send_reply_def
        net_send_ok enc_head_nonempty)
  then have "handle_attest (net_env (ex_denv 0)) 4 7 (Val (replicate 32 1)) (map Val (snd ex_request)) w =
      Inr (put_out [1] (put_out (enc_head \<lparr>th_cmd = TPMD_RPL_ATTEST, th_aux = TPMD_AUX_OK, th_len = 1\<rparr>) w))"
    by (simp only: handle_attest_def get unseal env ex_quote_with_pid length_replicate cbind_Inr rd_simps if_True prod.case)
  then show ?thesis
    by (simp add: handle_packet_def ex_request_def TPMD_REQ_ATTEST_def TPMD_REQ_HELLO_def)
qed

lemma ex_refines: "refines 9 (ex_net [take 3 (enc_packet ex_request), [], drop 3 (enc_packet ex_request)]) ([ex_request], [])"
  by (simp add: refines_def ex_net_def net_unread_def net_sent_def request_ok_def whole_packet_def ex_request_def HEAD_SZ_def)

theorem daemon_refines_protocol_witness:
  "\<exists>w' a'. dstep (net_env (ex_denv 0)) 3 (Serving 4 7 (Val (replicate 32 1)) []
        (ex_net [take 3 (enc_packet ex_request), [], drop 3 (enc_packet ex_request)])) (Serving 4 7 (Val (replicate 32 1)) [] w') \<and>
     astep ([ex_request], []) a' \<and> refines 9 w' a'"
proof -
  let ?w = "ex_net [take 3 (enc_packet ex_request), [], drop 3 (enc_packet ex_request)]"
  have d: "dv_fuel (ex_denv 0) = 9" "dv_malloc (ex_denv 0) = (\<lambda>_. True)" "small_ser (dv_cl (ex_denv 0))"
    by (simp_all add: ex_denv_def ex_small)
  have "request_ok (dv_fuel (ex_denv 0)) ex_request" "net_unread ?w = enc_packet ex_request @ []"
    using ex_refines by (simp_all add: refines_def d)
  from readpacket_whole [OF this(1) d(2) this(2), of 4] obtain w1 where
    "readpacket (net_env (ex_denv 0)) 4 ?w = Inr ((0, Val (Some \<lparr>pk_head = fst ex_request, pk_data = map Val (snd ex_request)\<rparr>)), w1)"
    by blast
  note step = packet [OF this ex_handled, of 3 "[]"]
  have "refines (dv_fuel (ex_denv 0)) ?w ([ex_request], [])" "0 < dv_fuel (ex_denv 0)" using ex_refines by (simp_all add: d)
  from daemon_refines_protocol [OF this d(2,3) step] step show ?thesis by (auto simp: d)
qed


theorem short_request_overread_witness:
  "handle_packet (ex_denv 0) 4 42 Garbage \<lparr>pk_head = \<lparr>th_cmd = TPMD_REQ_PICA, th_aux = 0, th_len = 1\<rparr>, pk_data = [Val 1]\<rparr>
     filepath_htable () = Inl OutOfBounds"
proof -
  obtain tbl where a: "ancestry ex_daemon 42 filepath_htable () [ex_proc] tbl ()" using ex_daemon_ancestry ..
  have "length [ex_proc] \<le> 9" by simp
  from pack_chain_item [OF a ex_daemon_plenty this, of ex_wire1]
  have "\<exists>chain n. mycbor_pack_procchain (dv_fuel (ex_denv 0)) (dv_cl (ex_denv 0)) (dv_ms (ex_denv 0)) 42 filepath_htable () =
      Inr (Some chain, Val n, tbl, ())"
    by (simp add: ex_denv_def)
  then obtain chain n where "mycbor_pack_procchain (dv_fuel (ex_denv 0)) (dv_cl (ex_denv 0)) (dv_ms (ex_denv 0)) 42 filepath_htable () =
      Inr (Some chain, Val n, tbl, ())" by blast
  from short_request_overread [OF this, of "[1]"] show ?thesis
    by (simp add: ex_denv_def ex_daemon_def ex_msys_def)
qed

theorem quote_failure_unnoticed_witness:
  "make_tpm2_quote_with_pid (ex_denv 1) (replicate 32 5) 32 QBUF_SZ (replicate 32 1) 7 () = Inl Uninit"
proof -
  obtain sel where sel: "pcr_select TPM2_ALG_SHA256 daemon_pcrs = Inr sel" using ex_pcrs ..
  have scheme: "make_sig_scheme (dv_es (ex_denv 1)) () = ((0, Some \<lparr>ss_scheme = TPM2_ALG_RSASSA, ss_hash = TPM2_ALG_SHA256\<rparr>), ())"
    by (simp add: make_sig_scheme_def scheme_for_def ex_denv_def ex_es_def TPM2_ALG_RSA_def TPM2_ALG_NULL_def TPMA_OBJECT_SIGN_ENCRYPT_def)
  show ?thesis
    using quote_failure_unnoticed [of "replicate 32 1" "replicate 32 5" "ex_denv 1" "()" "()" "()" "()" 0 "()" _ "()" sel 1 "[9]"
        "SigRsaSsa TPM2_ALG_SHA256 [8]" "()" 7] scheme sel
    by (simp add: ex_denv_def ex_es_def ex_daemon_def ex_msys_def)
qed

end
