(* ===== verification/Pica_Policy.thy ===== *)
theory Pica_Policy
  imports Pica_Verify Io
begin

text \<open>
  The policy parser of \<open>src/libpica_clnt.c\<close>: \<open>parse_sid\<close> \<dots> \<open>json_version\<close>,
  \<open>pica_json_parse\<close>, and \<open>pica_read_policy\<close>, over the tree that json-c builds.

  \<open>json\<close> is the interface of json-c: the kinds of \<open>json_object_get_type\<close>; the
  JSON null is the NULL object.  An object is the list of its members in
  order, with distinct names.  \<open>json_object_array_length\<close> on anything but an
  array violates its contract (an assertion of the library).
  \<open>json_object_get_int\<close>, which converts between kinds, is a parameter \<open>gi\<close>.
  The \<open>SHOW\<close> output is left out.
\<close>

unbundle bit_operations_syntax

section \<open>The json-c tree\<close>

datatype json =
    JNull
  | JBool bool
  | JDouble u64
  | JInt int
  | JString string
  | JArray "json list"
  | JObject "(string \<times> json) list"

definition json_object_array_length :: "json \<Rightarrow> nat cres" where
  "json_object_array_length j = (case j of JArray xs \<Rightarrow> Inr (length xs) | _ \<Rightarrow> Inl LibContract)"

definition json_object_array_get_idx :: "json \<Rightarrow> nat \<Rightarrow> json" where
  "json_object_array_get_idx j i =
     (case j of JArray xs \<Rightarrow> if i < length xs then xs ! i else JNull | _ \<Rightarrow> JNull)"

text \<open>Found member, for \<open>json_object_object_get_ex\<close>.\<close>

definition json_object_object_get_ex :: "json \<Rightarrow> string \<Rightarrow> json option" where
  "json_object_object_get_ex j k = (case j of JObject kvs \<Rightarrow> map_of kvs k | _ \<Rightarrow> None)"

section \<open>The attributes of a statement\<close>

text \<open>\<open>strdup (json_object_get_string (obj))\<close> of a string, NULL otherwise.\<close>

definition parse_sid :: "json \<Rightarrow> string option" where
  "parse_sid obj = (case obj of JString s \<Rightarrow> Some (c_str s) | _ \<Rightarrow> None)"

definition parse_effect :: "json \<Rightarrow> int" where
  "parse_effect obj =
     (case obj of
        JString s \<Rightarrow> if ''Allow'' = c_str s then PICA_ALLOW
                     else if ''Deny'' = c_str s then PICA_DENY else PICA_NONE
      | _ \<Rightarrow> PICA_NONE)"

definition parse_resource :: "json \<Rightarrow> string option" where
  "parse_resource obj = (case obj of JString s \<Rightarrow> Some (c_str s) | _ \<Rightarrow> None)"

definition parse_binary :: "json \<Rightarrow> string option" where
  "parse_binary obj = (case obj of JString s \<Rightarrow> Some (c_str s) | _ \<Rightarrow> None)"

definition parse_uid :: "(json \<Rightarrow> u32) \<Rightarrow> json \<Rightarrow> pica_stmt \<Rightarrow> pica_stmt" where
  "parse_uid gi obj stmt =
     (case obj of
        JArray xs \<Rightarrow> stmt\<lparr>st_uid_cnt := Val (int (length xs)), st_uid := Val (map gi xs)\<rparr>
      | _ \<Rightarrow> stmt)"

definition parse_principal :: "(json \<Rightarrow> u32) \<Rightarrow> json \<Rightarrow> pica_stmt \<Rightarrow> pica_stmt" where
  "parse_principal gi obj stmt =
     (case obj of
        JObject kvs \<Rightarrow>
          let stmt = (case json_object_object_get_ex obj ''Binary'' of
                        Some attr \<Rightarrow> stmt\<lparr>st_exec_path := Val (parse_binary attr)\<rparr> | None \<Rightarrow> stmt)
          in (case json_object_object_get_ex obj ''Uid'' of
                Some attr \<Rightarrow> parse_uid gi attr stmt | None \<Rightarrow> stmt)
      | _ \<Rightarrow> stmt)"

text \<open>An entry of a zeroed array of strings: a string is copied, anything else leaves NULL.\<close>

definition string_or_null :: "json \<Rightarrow> string option" where
  "string_or_null j = (case j of JString s \<Rightarrow> Some (c_str s) | _ \<Rightarrow> None)"

definition parse_action :: "json \<Rightarrow> pica_stmt \<Rightarrow> pica_stmt" where
  "parse_action obj stmt =
     (case obj of
        JArray xs \<Rightarrow>
          stmt\<lparr>st_act_cnt := Val (int (length xs)), st_action := Val (map string_or_null xs)\<rparr>
      | _ \<Rightarrow> stmt)"

text \<open>
  One chain of a version 1 policy: its length is asked for before its type is
  checked.  The flag is \<open>False\<close> for the early return of the type check.
\<close>

definition parse_chain :: "json \<Rightarrow> (inv_array \<times> bool) cres" where
  "parse_chain array =
     cbind (json_object_array_length array) (\<lambda>n.
     case array of
       JArray items \<Rightarrow> Inr (\<lparr>ichn_cnt = int n, ichain = map string_or_null items\<rparr>, True)
     | _ \<Rightarrow> Inr (\<lparr>ichn_cnt = int n, ichain = replicate n None\<rparr>, False))"

fun parse_chains :: "json list \<Rightarrow> nat \<Rightarrow> inv_array slot list \<Rightarrow> inv_array slot list cres" where
  "parse_chains [] i ary = Inr ary"
| "parse_chains (array # arrays) i ary =
     cbind (parse_chain array) (\<lambda>(a, is_array).
     if is_array then parse_chains arrays (i + 1) (ary[i := Val a]) else Inr (ary[i := Val a]))"

definition parse_invchain :: "json \<Rightarrow> pica_stmt \<Rightarrow> pica_policy \<Rightarrow> pica_stmt cres" where
  "parse_invchain obj stmt pp =
     (case obj of
        JArray xs \<Rightarrow>
          cbind (strcmp_eq (pp_version pp) (Some PICA_POLICY_V0_STRING)) (\<lambda>v0.
          if v0 then
            Inr (stmt\<lparr>st_ary_cnt := Val 1,
                   st_iarray := Val [Val \<lparr>ichn_cnt = int (length xs), ichain = map string_or_null xs\<rparr>]\<rparr>)
          else
            cbind (strcmp_eq (pp_version pp) (Some PICA_POLICY_V1_STRING)) (\<lambda>v1.
            if v1 then
              cbind (parse_chains xs 0 (replicate (length xs) Garbage)) (\<lambda>ary.
              Inr (stmt\<lparr>st_ary_cnt := Val (int (length xs)), st_iarray := Val ary\<rparr>))
            else Inr stmt))
      | _ \<Rightarrow> Inr stmt)"

section \<open>Statements\<close>

text \<open>
  The \<open>Resource\<close> attribute is compared with the only resource there is, without
  any effect but a message; a value that is not a string is compared as NULL.
\<close>

definition check_resource :: "json \<Rightarrow> unit cres" where
  "check_resource attr = cbind (strcmp_eq (parse_resource attr) (Some ''enclave'')) (\<lambda>_. Inr ())"

definition json_statement_item :: "(json \<Rightarrow> u32) \<Rightarrow> json \<Rightarrow> pica_policy \<Rightarrow> pica_stmt \<Rightarrow> pica_stmt cres" where
  "json_statement_item gi item pp stmt =
     (case item of
        JObject _ \<Rightarrow>
          let get = json_object_object_get_ex item;
              stmt = (case get ''Sid'' of Some attr \<Rightarrow> stmt\<lparr>st_sid := Val (parse_sid attr)\<rparr> | None \<Rightarrow> stmt);
              stmt = (case get ''Effect'' of Some attr \<Rightarrow> stmt\<lparr>st_effect := Val (parse_effect attr)\<rparr> | None \<Rightarrow> stmt)
          in cbind (case get ''Resource'' of Some attr \<Rightarrow> check_resource attr | None \<Rightarrow> Inr ()) (\<lambda>_.
             let stmt = (case get ''Principal'' of Some attr \<Rightarrow> parse_principal gi attr stmt | None \<Rightarrow> stmt);
                 stmt = (case get ''Action'' of Some attr \<Rightarrow> parse_action attr stmt | None \<Rightarrow> stmt)
             in case get ''InvocationChain'' of
                  Some attr \<Rightarrow> parse_invchain attr stmt pp
                | None \<Rightarrow> Inr stmt)
      | _ \<Rightarrow> Inr stmt)"

definition json_statement :: "(json \<Rightarrow> u32) \<Rightarrow> json \<Rightarrow> pica_policy \<Rightarrow> pica_policy cres" where
  "json_statement gi obj pp =
     (case obj of
        JArray items \<Rightarrow>
          cbind (cmapM (\<lambda>item. json_statement_item gi item pp stmt_garbage) items) (\<lambda>stmts.
          Inr (pp\<lparr>pp_entries := int (length items), pp_stmt := stmts\<rparr>))
      | _ \<Rightarrow> Inr pp)"

text \<open>
  The test for an unexpected version requires the string to equal both known
  versions, so that its message is never printed; any string is returned.
\<close>

definition json_version :: "json \<Rightarrow> string option" where
  "json_version obj = (case obj of JString s \<Rightarrow> Some (c_str s) | _ \<Rightarrow> None)"

fun json_members :: "(json \<Rightarrow> u32) \<Rightarrow> (string \<times> json) list \<Rightarrow> pica_policy \<Rightarrow> pica_policy cres" where
  "json_members gi [] pp = Inr pp"
| "json_members gi ((key, val) # kvs) pp =
     (if c_str key = ''Version'' then json_members gi kvs (pp\<lparr>pp_version := json_version val\<rparr>)
      else if c_str key = ''Statement'' then cbind (json_statement gi val pp) (json_members gi kvs)
      else json_members gi kvs pp)"

text \<open>\<open>json_object_object_foreach\<close> reads through the NULL table of anything but an object.\<close>

definition pica_json_parse :: "(json \<Rightarrow> u32) \<Rightarrow> json \<Rightarrow> pica_policy \<Rightarrow> pica_policy cres" where
  "pica_json_parse gi obj pp =
     (case obj of JObject kvs \<Rightarrow> json_members gi kvs pp | _ \<Rightarrow> Inl NullDeref)"

section \<open>Reading a policy file\<close>

text \<open>
  \<open>jp\<close> is \<open>json_tokener_parse_ex\<close>, \<open>None\<close> its NULL result; \<open>tokok\<close> says whether the
  tokener could be made.  Each statement is registered with its path.
\<close>

definition reg_policy ::
    "(string \<Rightarrow> u32) \<Rightarrow> pica_policy \<Rightarrow> entref htable \<Rightarrow> entref htable cres" where
  "reg_policy mm pp tbl =
     cfold (\<lambda>tbl i. cbind (cnth (pp_stmt pp) i) (\<lambda>stmt. cbind (rd (st_exec_path stmt)) (\<lambda>path.
              reg_hashtable mm PICA_ENT_CONF_POLICY (Some (RefStmt stmt)) path tbl)))
       tbl [0..<nat (pp_entries pp)]"

definition pica_read_policy ::
    "(string \<Rightarrow> u32) \<Rightarrow> (json \<Rightarrow> u32) \<Rightarrow> (bbuf \<Rightarrow> u64 \<Rightarrow> json option) \<Rightarrow> bool \<Rightarrow> 'w os \<Rightarrow> string \<Rightarrow>
     pica_policy option \<Rightarrow> entref htable \<Rightarrow> 'w \<Rightarrow> (int \<times> pica_policy option \<times> entref htable \<times> 'w) cres" where
  "pica_read_policy mm gi jp tokok os polpath ppol tbl w =
     (case ppol of
        None \<Rightarrow> Inr (-1, None, tbl, w)
      | Some pp \<Rightarrow>
          let ((fd, sz), w) = file_size os polpath w in
          if fd < 0 then Inr (-1, Some pp, tbl, w)
          else
            let ((rsz, bs), w) = file_read_close os fd sz w in
            if sz \<noteq> rsz then Inr (-1, Some pp, tbl, w)
            else if \<not> tokok then Inr (-1, Some pp, tbl, w)
            else case jp (buf_store (unat sz) bs) rsz of
                None \<Rightarrow> Inr (-1, Some pp, tbl, w)
              | Some jobj \<Rightarrow>
                  cbind (pica_json_parse gi jobj pp) (\<lambda>pp.
                  cbind (reg_policy mm pp tbl) (\<lambda>tbl.
                  Inr (0, Some pp, tbl, w))))"

section \<open>Policies as they are meant to be written\<close>

text \<open>An abstract statement, and the JSON text of a version 1 policy as a tree.\<close>

record astmt =
  as_sid :: string
  as_allow :: bool
  as_path :: string
  as_uids :: "int list"
  as_actions :: "string list"
  as_chains :: "string list list"

definition astmt_ok :: "astmt \<Rightarrow> bool" where
  "astmt_ok a \<longleftrightarrow> nul_free (as_sid a) \<and> nul_free (as_path a) \<and> list_all nul_free (as_actions a) \<and>
     list_all (list_all nul_free) (as_chains a)"

definition astmt_json :: "astmt \<Rightarrow> json" where
  "astmt_json a = JObject
     [(''Sid'', JString (as_sid a)),
      (''Effect'', JString (if as_allow a then ''Allow'' else ''Deny'')),
      (''Resource'', JString ''enclave''),
      (''Principal'', JObject [(''Binary'', JString (as_path a)), (''Uid'', JArray (map JInt (as_uids a)))]),
      (''Action'', JArray (map JString (as_actions a))),
      (''InvocationChain'', JArray (map (\<lambda>c. JArray (map JString c)) (as_chains a)))]"

definition policy_json :: "astmt list \<Rightarrow> json" where
  "policy_json as = JObject
     [(''Version'', JString PICA_POLICY_V1_STRING), (''Statement'', JArray (map astmt_json as))]"

text \<open>The statement in memory that stands for it.\<close>

definition chain_of :: "string list \<Rightarrow> inv_array" where
  "chain_of c = \<lparr>ichn_cnt = int (length c), ichain = map Some c\<rparr>"

definition stmt_of :: "(json \<Rightarrow> u32) \<Rightarrow> astmt \<Rightarrow> pica_stmt" where
  "stmt_of gi a = \<lparr>st_sid = Val (Some (as_sid a)),
     st_effect = Val (if as_allow a then PICA_ALLOW else PICA_DENY),
     st_exec_path = Val (Some (as_path a)),
     st_uid_cnt = Val (int (length (as_uids a))), st_uid = Val (map (\<lambda>n. gi (JInt n)) (as_uids a)),
     st_act_cnt = Val (int (length (as_actions a))), st_action = Val (map Some (as_actions a)),
     st_ary_cnt = Val (int (length (as_chains a))),
     st_iarray = Val (map (\<lambda>c. Val (chain_of c)) (as_chains a))\<rparr>"

lemma c_str_literals [simp]:
  "c_str ''Allow'' = ''Allow''" "c_str ''Deny'' = ''Deny''" "c_str ''enclave'' = ''enclave''"
  "c_str ''Version'' = ''Version''" "c_str ''Statement'' = ''Statement''"
  "c_str PICA_POLICY_V1_STRING = PICA_POLICY_V1_STRING"
  by (simp_all add: PICA_POLICY_V1_STRING_def)

lemma strings_or_null: "list_all nul_free ss \<Longrightarrow> map (\<lambda>x. string_or_null (JString x)) ss = map Some ss"
  by (induction ss) (simp_all add: string_or_null_def)

lemma parse_chains_strings:
  "list_all (list_all nul_free) cs \<Longrightarrow> length pre = i \<Longrightarrow> length cs \<le> length rest \<Longrightarrow>
   parse_chains (map (\<lambda>c. JArray (map JString c)) cs) i (pre @ rest)
     = Inr (pre @ map (\<lambda>c. Val (chain_of c)) cs @ drop (length cs) rest)"
proof (induction cs arbitrary: i pre rest)
  case (Cons c cs)
  then obtain r rest' where rest: "rest = r # rest'" by (cases rest) auto
  have "parse_chain (JArray (map JString c)) = Inr (chain_of c, True)"
    using Cons.prems(1)
    by (simp add: parse_chain_def json_object_array_length_def chain_of_def comp_def strings_or_null)
  moreover have "parse_chains (map (\<lambda>c. JArray (map JString c)) cs) (i + 1) ((pre @ [Val (chain_of c)]) @ rest')
     = Inr ((pre @ [Val (chain_of c)]) @ map (\<lambda>c. Val (chain_of c)) cs @ drop (length cs) rest')"
    using Cons.prems rest by (intro Cons.IH) simp_all
  ultimately show ?case using Cons.prems(2) by (simp add: rest list_update_append)
qed simp

lemma statement_item_json:
  assumes "astmt_ok a" "pp_version pp = Some PICA_POLICY_V1_STRING"
  shows "json_statement_item gi (astmt_json a) pp stmt_garbage = Inr (stmt_of gi a)"
proof -
  have "parse_chains (map (\<lambda>c. JArray (map JString c)) (as_chains a)) 0 (replicate (length (as_chains a)) Garbage)
      = Inr (map (\<lambda>c. Val (chain_of c)) (as_chains a))"
    using parse_chains_strings [of "as_chains a" "[]" 0 "replicate (length (as_chains a)) Garbage"] assms(1)
    by (simp add: astmt_ok_def)
  moreover have "PICA_POLICY_V1_STRING \<noteq> PICA_POLICY_V0_STRING"
    by (simp add: PICA_POLICY_V1_STRING_def PICA_POLICY_V0_STRING_def)
  ultimately show ?thesis
    using assms
    by (simp add: json_statement_item_def astmt_json_def json_object_object_get_ex_def Let_def
        parse_sid_def parse_effect_def check_resource_def parse_resource_def parse_principal_def
        parse_binary_def parse_uid_def parse_action_def parse_invchain_def stmt_of_def astmt_ok_def
        stmt_garbage_def comp_def strings_or_null)
qed

definition policy_of :: "(json \<Rightarrow> u32) \<Rightarrow> astmt list \<Rightarrow> pica_policy" where
  "policy_of gi as = \<lparr>pp_version = Some PICA_POLICY_V1_STRING, pp_entries = int (length as),
     pp_stmt = map (stmt_of gi) as\<rparr>"

lemma parse_policy_json:
  assumes "\<forall>a \<in> set as. astmt_ok a"
  shows "pica_json_parse gi (policy_json as) policy_zero = Inr (policy_of gi as)"
proof -
  let ?pp = "policy_zero\<lparr>pp_version := Some PICA_POLICY_V1_STRING\<rparr>"
  have "cmapM (\<lambda>item. json_statement_item gi item ?pp stmt_garbage) (map astmt_json as) = Inr (map (stmt_of gi) as)"
    using assms by (induction as) (simp_all add: statement_item_json)
  then show ?thesis
    by (simp add: pica_json_parse_def policy_json_def json_version_def json_statement_def
        policy_of_def policy_zero_def)
qed

text \<open>
  The parser reads a policy back as it was written: from the JSON tree of
  a version 1 policy \<open>pica_json_parse\<close> builds exactly the statements, with
  every path, user id, action and invocation chain in its order.
\<close>

theorem policy_parse:
  assumes "\<forall>a \<in> set as. astmt_ok a"
  shows "pica_json_parse gi (policy_json as) policy_zero = Inr (policy_of gi as)"
  by (rule parse_policy_json) fact

definition ex_astmt :: astmt where
  "ex_astmt = \<lparr>as_sid = ''s'', as_allow = True, as_path = ''/b'', as_uids = [1000, 0], as_actions = [''f''],
     as_chains = [[''/b'', ''/sh''], [''/b'']]\<rparr>"

theorem policy_parse_witness:
  "pica_json_parse (\<lambda>j. case j of JInt n \<Rightarrow> word_of_int n | _ \<Rightarrow> 0) (policy_json [ex_astmt]) policy_zero
     = Inr (policy_of (\<lambda>j. case j of JInt n \<Rightarrow> word_of_int n | _ \<Rightarrow> 0) [ex_astmt])"
  by (rule policy_parse) (simp add: ex_astmt_def astmt_ok_def)

text \<open>
  A statement with an invocation chain that is read before the version
  makes the parser compare a NULL version: a policy with \<open>Statement\<close> ahead of
  \<open>Version\<close> ends in a NULL dereference, although JSON members have no order.
\<close>

theorem policy_member_order:
  assumes "as \<noteq> []" "\<forall>a \<in> set as. astmt_ok a"
  shows "pica_json_parse gi
     (JObject [(''Statement'', JArray (map astmt_json as)), (''Version'', JString PICA_POLICY_V1_STRING)])
     policy_zero = Inl NullDeref"
proof -
  obtain a as' where as: "as = a # as'" using assms(1) by (cases as) auto
  then have "astmt_ok a" using assms(2) by simp
  then have "json_statement_item gi (astmt_json a) policy_zero stmt_garbage = Inl NullDeref"
    by (simp add: json_statement_item_def astmt_json_def json_object_object_get_ex_def Let_def
        check_resource_def parse_resource_def parse_invchain_def policy_zero_def)
  then show ?thesis
    by (simp add: pica_json_parse_def json_statement_def as)
qed

theorem policy_member_order_witness:
  "pica_json_parse (\<lambda>_. 0)
     (JObject [(''Statement'', JArray (map astmt_json [ex_astmt])), (''Version'', JString PICA_POLICY_V1_STRING)])
     policy_zero = Inl NullDeref"
  by (rule policy_member_order) (simp_all add: ex_astmt_def astmt_ok_def)

lemma stmt_of_path [simp]: "stmt_path (stmt_of gi a) = Some (as_path a)"
  by (simp add: stmt_path_def stmt_of_def)

lemma stmt_of_uids:
  assumes gi: "\<forall>n. 0 \<le> n \<and> n < 2 ^ 31 \<longrightarrow> gi (JInt n) = word_of_int n"
    and bnd: "\<forall>n \<in> set (as_uids a). 0 \<le> n \<and> n < 2 ^ 31"
  shows "pica_check_uids (stmt_of gi a) ps (int (length ps)) =
       Inr (if \<forall>p \<in> set ps. uint (pi_ruid p) \<in> set (as_uids a) then VERIFY_PICA_UIDS else 0)"
proof -
  have "st_uid_cnt (stmt_of gi a) = Val (int (length (map (\<lambda>n. gi (JInt n)) (as_uids a))))"
    "st_uid (stmt_of gi a) = Val (map (\<lambda>n. gi (JInt n)) (as_uids a))"
    by (simp_all add: stmt_of_def)
  note * = check_uids_match [OF this, of ps]
  have gi_n: "gi (JInt n) = word_of_int n" "uint (word_of_int n :: u32) = n" if "n \<in> set (as_uids a)" for n
  proof -
    from bnd that have "0 \<le> n" "n < 2 ^ 31" by blast+
    then show "gi (JInt n) = word_of_int n" "uint (word_of_int n :: u32) = n"
      using gi by (simp_all add: uint_word_of_int)
  qed
  have "r \<in> set (map (\<lambda>n. gi (JInt n)) (as_uids a)) \<longleftrightarrow> uint r \<in> set (as_uids a)" for r :: u32
    using gi_n by (auto simp: image_iff intro: bexI [of _ "uint r"])
  then show ?thesis using * by (simp only:)
qed

lemma stmt_of_first_chain:
  assumes "as_chains a = c # cs" "map pi_path ps = map Some c"
  shows "pica_check_ichain (stmt_of gi a) ps (int (length ps)) = Inr VERIFY_PICA_CHAIN"
proof -
  have "length ps = length c" using assms(2) by (metis length_map)
  moreover have "\<forall>p \<in> set ps. pi_path p \<noteq> None"
    using assms(2) by (metis ex_map_conv image_iff option.distinct(1) set_map)
  moreover have "\<forall>x \<in> set (map Some c). x \<noteq> None" by auto
  ultimately have "chain_scan ps (map Some c) [0..<length ps] = Inr True"
    using chain_scan_ok [of "length ps" ps "map Some c" 0] assms(2) by simp
  then show ?thesis
    using assms(1) by (simp add: pica_check_ichain_def stmt_of_def chain_of_def upt_conv_Cons nat_add_distrib del: upt_Suc)
qed


definition ex_get_int :: "json \<Rightarrow> u32" where
  "ex_get_int j = (case j of JInt n \<Rightarrow> word_of_int n | _ \<Rightarrow> 0)"


end
