(* ===== verification/Pica_Main.thy ===== *)
theory Pica_Main
  imports Pica_Verify Pica_Policy Pica_Evidence Pica_Extract Sock Tpmd_Packet
begin

text \<open>
  The PICA client: \<open>pica_request_measure\<close> of \<open>src/libpica_clnt.c\<close>, which asks the
  attester daemon for a measurement, and the program \<open>pica_poc/Enclave/main.c\<close>,
  which reads its options, configuration and policy, requests a measurement,
  verifies it and decides.

  \<open>cenv\<close> holds what the program is linked with.  The edge calls of its enclave
  are taken to reach the host; the clock and the messages are left out.
\<close>

unbundle bit_operations_syntax

section \<open>Options\<close>

record opts =
  op_dflag :: bool
  op_eflag :: bool
  op_rflag :: bool
  op_sflag :: bool
  op_vflag :: int
  op_pol_path :: "string option"
  op_conf_path :: "string option"
  op_daemon_path :: "string option"

definition opts_zero :: opts where
  "opts_zero = \<lparr>op_dflag = False, op_eflag = False, op_rflag = False, op_sflag = False, op_vflag = 0,
     op_pol_path = None, op_conf_path = None, op_daemon_path = None\<rparr>"

definition PICA_POLICY_PATH :: string where "PICA_POLICY_PATH = ''./policy.json''"
definition PICA_CONF_PATH :: string where "PICA_CONF_PATH = ''./pica.conf''"
definition PICA_DAEMON_PATH :: string where "PICA_DAEMON_PATH = ''/tmp/sock-tpmd-daemon''"

text \<open>A character that is no hexadecimal digit counts with its code.\<close>

definition xdigit_val :: "char \<Rightarrow> u32" where
  "xdigit_val c =
     (let n = of_char c :: nat in
      if 48 \<le> n \<and> n \<le> 57 then of_nat (n - 48)
      else if 97 \<le> n \<and> n \<le> 102 then of_nat (n - 97 + 10)
      else if 65 \<le> n \<and> n \<le> 70 then of_nat (n - 65 + 10)
      else of_nat n)"

fun xval_loop :: "u32 \<Rightarrow> string \<Rightarrow> u32" where
  "xval_loop val [] = val"
| "xval_loop val (c # cs) = xval_loop (val * 16 + xdigit_val c) cs"

text \<open>
  The value returned, the flag stored and by how much the position moves.  The return type is
  unsigned, so the \<open>-1\<close> of an error is positive; on success the variable that
  is returned was never set.
\<close>

definition opt_get_xval :: "int \<Rightarrow> string list \<Rightarrow> nat \<Rightarrow> u32 slot \<times> int \<times> nat" where
  "opt_get_xval flg argv pos =
     (let fail = (Val (- 1), flg, 0) in
      if length argv \<le> pos + 1 then fail
      else case argv ! (pos + 1) of
        c0 # c1 # cp \<Rightarrow>
          if c0 \<noteq> CHR ''0'' \<or> (c1 \<noteq> CHR ''x'' \<and> c1 \<noteq> CHR ''X'') then fail
          else if cp = [] then fail
          else (Garbage, sint (xval_loop 0 cp), 1)
      | _ \<Rightarrow> fail)"

text \<open>
  The loop over the arguments: \<open>None\<close> is the jump to the error exit.  A word that
  does not start with a dash ends the options.
\<close>

function getopt_loop :: "string list \<Rightarrow> opts \<Rightarrow> nat \<Rightarrow> (opts \<times> nat) option cres" where
  "getopt_loop argv op i =
     (if length argv \<le> i then Inr (Some (op, i))
      else case argv ! i of
        [] \<Rightarrow> Inr (Some (op, i))
      | c0 # cs \<Rightarrow>
          if c0 \<noteq> CHR ''-'' then Inr (Some (op, i))
          else case cs of
            [] \<Rightarrow> getopt_loop argv op (i + 1)
          | c # _ \<Rightarrow>
              if c = CHR ''h'' then Inr None
              else if c = CHR ''d'' then getopt_loop argv (op\<lparr>op_dflag := True\<rparr>) (i + 1)
              else if c = CHR ''D'' then
                if length argv \<le> i + 1 then Inr None
                else getopt_loop argv (op\<lparr>op_daemon_path := Some (take 108 (argv ! (i + 1)))\<rparr>) (i + 2)
              else if c = CHR ''r'' then
                if length argv \<le> i + 1 then Inr None
                else getopt_loop argv (op\<lparr>op_conf_path := Some (take 1024 (argv ! (i + 1))), op_rflag := True\<rparr>) (i + 2)
              else if c = CHR ''p'' then
                if length argv \<le> i + 1 then Inr None
                else getopt_loop argv (op\<lparr>op_pol_path := Some (take 1024 (argv ! (i + 1)))\<rparr>) (i + 2)
              else if c = CHR ''e'' \<or> c = CHR ''E'' then getopt_loop argv (op\<lparr>op_eflag := True\<rparr>) (i + 1)
              else if c = CHR ''v'' then
                (case opt_get_xval (op_vflag op) argv i of (r, flg, moved) \<Rightarrow>
                 cbind (rd r) (\<lambda>r.
                 if r \<le> 0 then Inr None
                 else getopt_loop argv (op\<lparr>op_vflag := flg\<rparr>) (i + moved + 1)))
              else if c = CHR ''s'' then getopt_loop argv (op\<lparr>op_sflag := True\<rparr>) (i + 1)
              else getopt_loop argv op (i + 1))"
  by pat_completeness auto
termination
  by (relation "measure (\<lambda>(argv, op, i). length argv - i)") auto

declare getopt_loop.simps [simp del]

definition or_default :: "string option \<Rightarrow> string \<Rightarrow> string option" where
  "or_default p d = (case p of None \<Rightarrow> Some d | Some _ \<Rightarrow> p)"

definition getoption :: "string list \<Rightarrow> (opts \<times> nat) option cres" where
  "getoption argv =
     cbind (getopt_loop argv opts_zero 1) (\<lambda>r.
     Inr (case r of None \<Rightarrow> None
      | Some (op, i) \<Rightarrow> Some (op\<lparr>op_pol_path := or_default (op_pol_path op) PICA_POLICY_PATH,
          op_conf_path := or_default (op_conf_path op) PICA_CONF_PATH,
          op_daemon_path := or_default (op_daemon_path op) PICA_DAEMON_PATH\<rparr>, i)))"

section \<open>Asking the daemon\<close>

text \<open>
  The return code, the buffer and \<open>*sz\<close>.  \<open>slack\<close> are the bytes behind the path
  in its object, \<open>aux\<close> what the unset field of the request holds.  A reply that does not fit leaves the 0 of the receive before
  it; neither the command nor the status of the reply is looked at.
\<close>

definition pica_request_measure ::
    "nat \<Rightarrow> 'w sockops \<Rightarrow> string \<Rightarrow> u16 \<Rightarrow> bytes \<Rightarrow> bbuf \<Rightarrow> u64 \<Rightarrow> string \<Rightarrow> 'w \<Rightarrow> ((int \<times> bbuf \<times> u64) \<times> 'w) cres" where
  "pica_request_measure fuel so slack aux nonce measured sz dpath w =
     cbind (sock_connect_daemon so slack dpath w) (\<lambda>(con, w).
     if con < 0 then Inr ((-1, measured, sz), w)
     else if length nonce < 32 then Inl OutOfBounds
     else
       cbind (sock_send fuel so con (enc_head \<lparr>th_cmd = TPMD_REQ_PICA, th_aux = aux, th_len = 32\<rparr> @ take 32 nonce) w)
         (\<lambda>(rc, w).
       if rc < 0 then Inr ((rc, measured, sz), w)
       else
         cbind (sock_recv fuel so con (replicate HEAD_SZ Garbage) w) (\<lambda>((rc, hb), w).
         if rc < 0 then Inr ((rc, measured, sz), w)
         else
           cbind (buf_get hb 0 HEAD_SZ) (\<lambda>bs.
           let len = unat (th_len (dec_head bs)) in
           if len > length measured then Inr ((rc, measured, sz), w)
           else
             cbind (sock_recv fuel so con (take len measured) w) (\<lambda>((rc, got), w).
             let measured = got @ drop len measured in
             if rc < 0 then Inr ((rc, measured, sz), w)
             else Inr ((rc, measured, of_nat len), w))))))"

section \<open>The program\<close>

record ('w, 'k) cenv =
  cv_so :: "'w sockops"
  cv_fuel :: nat
  cv_slack :: string
  cv_aux :: u16
  cv_rand :: "'w \<Rightarrow> (u32 \<times> bytes) \<times> 'w"
  cv_mm :: "string \<Rightarrow> u32"
  cv_fsize :: "string \<Rightarrow> 'w \<Rightarrow> (int slot \<times> u64 slot) \<times> 'w"
  cv_sread :: "int \<Rightarrow> u64 \<Rightarrow> 'w \<Rightarrow> ((u64 \<times> bbuf option slot) \<times> 'w) cres"
  cv_gi :: "json \<Rightarrow> u32"
  cv_jp :: "bbuf \<Rightarrow> u64 \<Rightarrow> json option"
  cv_tok :: bool
  cv_os :: "'w os"
  cv_cl :: cbor_lib
  cv_ts :: tss
  cv_cr :: "'k crypto"
  cv_fo :: "'w fileops"
  cv_junk :: bytes
  cv_ad :: addrs

text \<open>
  The exit code, the verification flags printed, and the statement whose actions
  are shown, which happens only behind \<open>All verifications are success\<close>.
\<close>

record main_out =
  mo_rc :: int
  mo_verified :: int
  mo_allowed :: "pica_stmt option"

definition main_fail :: "int \<Rightarrow> main_out" where
  "main_fail v = \<lparr>mo_rc = -1, mo_verified = v, mo_allowed = None\<rparr>"

definition MEASURE_SZ :: nat where "MEASURE_SZ = 1024 * 128"

text \<open>The decision about the measured chain; its last process is the client itself.\<close>

definition pica_decide ::
    "('w, 'k) cenv \<Rightarrow> entref htable \<Rightarrow> pica_policy \<Rightarrow> bytes option slot \<Rightarrow> int \<Rightarrow> main_out cres" where
  "pica_decide cv tbl ppol picabody verified =
     cbind (rd picabody) (\<lambda>b. cbind (deref b) (\<lambda>body.
     cbind (pica_extract_pinfo (cv_cl cv) (cv_junk cv) body) (\<lambda>(ent, pinfo).
     cbind (deref pinfo) (\<lambda>ps.
     cbind (if ent < 1 then Inl OutOfBounds else cnth ps (nat ent - 1)) (\<lambda>mybinary.
     cbind (pica_find_policy ppol mybinary) (\<lambda>found.
     case found of
       None \<Rightarrow> Inr (main_fail verified)
     | Some i \<Rightarrow>
         cbind (cnth (pp_stmt ppol) i) (\<lambda>pstmt.
         cbind (pica_verify_binaries (cv_mm cv) tbl (Some ps) ent) (\<lambda>vb.
         cbind (pica_check_ichain pstmt ps ent) (\<lambda>vc.
         cbind (pica_check_uids pstmt ps ent) (\<lambda>vu.
         let verified = ((verified OR vb) OR vc) OR vu in
         Inr \<lparr>mo_rc = 0, mo_verified = verified,
              mo_allowed = (if VERIFIED_ALL verified then Some pstmt else None)\<rparr>))))))))))"

text \<open>\<open>None\<close>: the configuration cannot be read.\<close>

definition main_config ::
    "('w, 'k) cenv \<Rightarrow> opts \<Rightarrow> 'w \<Rightarrow> (entref htable option \<times> 'w) cres" where
  "main_config cv op w =
     (if op_rflag op then Inr (Some htable_zero, w)
      else cbind (deref (op_conf_path op)) (\<lambda>path.
        cbind (pica_read_config (cv_mm cv) (cv_fsize cv) (cv_sread cv) path Garbage htable_zero w)
          (\<lambda>(entries, _, tbl, w). Inr (if entries = 0 then None else Some tbl, w))))"

text \<open>From the nonce to the verdict.\<close>

definition main_session ::
    "('w, 'k) cenv \<Rightarrow> opts \<Rightarrow> string \<Rightarrow> entref htable \<Rightarrow> pica_policy \<Rightarrow> 'w \<Rightarrow> (main_out \<times> 'w) cres" where
  "main_session cv op dpath tbl ppol w =
     (let ((st, nonce), w) = cv_rand cv w in
      if st \<noteq> 0 then Inr (main_fail 0, w)
      else
        cbind (pica_request_measure (cv_fuel cv) (cv_so cv) (cv_slack cv) (cv_aux cv) nonce
            (replicate MEASURE_SZ (Val 0)) (of_nat MEASURE_SZ) dpath w) (\<lambda>((rc, measured, msz), w).
        if rc \<noteq> 0 then Inr (main_fail 0, w)
        else
          cbind (buf_get measured 0 (unat msz)) (\<lambda>msg.
          cbind (pica_verify_tpm2all (cv_cl cv) (cv_ts cv) (cv_cr cv) (cv_fo cv) msg nonce True w)
            (\<lambda>((verified, picabody), w).
          if op_rflag op then
            cbind (deref (op_conf_path op)) (\<lambda>path. cbind (rd picabody) (\<lambda>b. cbind (deref b) (\<lambda>body.
            cbind (pica_reg_config (cv_cl cv) (cv_junk cv) (cv_ad cv) (cv_os cv) path body w) (\<lambda>(_, w).
            Inr (\<lparr>mo_rc = 0, mo_verified = verified, mo_allowed = None\<rparr>, w)))))
          else cbind (pica_decide cv tbl ppol picabody verified) (\<lambda>out. Inr (out, w))))))"

definition pica_main :: "('w, 'k) cenv \<Rightarrow> string list \<Rightarrow> 'w \<Rightarrow> (main_out \<times> 'w) cres" where
  "pica_main cv argv w =
     cbind (getoption argv) (\<lambda>opt.
     case opt of
       None \<Rightarrow> Inr (main_fail 0, w)
     | Some (op, _) \<Rightarrow>
         cbind (main_config cv op w) (\<lambda>(conf, w).
         case conf of
           None \<Rightarrow> Inr (main_fail 0, w)
         | Some tbl \<Rightarrow>
             cbind (deref (op_pol_path op)) (\<lambda>polpath. cbind (deref (op_daemon_path op)) (\<lambda>dpath.
             cbind (pica_read_policy (cv_mm cv) (cv_gi cv) (cv_jp cv) (cv_tok cv) (cv_os cv) polpath
                 (Some policy_zero) tbl w) (\<lambda>(rc, ppol, tbl, w).
             if rc < 0 then Inr (main_fail 0, w)
             else cbind (deref ppol) (\<lambda>ppol. main_session cv op dpath tbl ppol w))))))"

section \<open>What acceptance needs\<close>

text \<open>A process is registered when the table has an entry for its path that its digests agree with.\<close>

definition proc_registered :: "(string \<Rightarrow> u32) \<Rightarrow> entref htable \<Rightarrow> procinfo \<Rightarrow> bool" where
  "proc_registered mm tbl p \<longleftrightarrow>
     (\<exists>c. find_hashtable mm tbl (pi_path p) PICA_ENT_CONF_PROCINFO = Inr (Some (RefProc c)) \<and>
        pica_verify_digest c p = Inr 0)"

text \<open>The first of the statement's chains, if it lists any, starts with these paths.\<close>

definition chain_agrees :: "pica_stmt \<Rightarrow> string option list \<Rightarrow> bool" where
  "chain_agrees stmt paths \<longleftrightarrow>
     (\<exists>n. st_ary_cnt stmt = Val n \<and>
        (0 < n \<longrightarrow> (\<exists>a as. st_iarray stmt = Val (Val a # as) \<and> take (length paths) (ichain a) = paths)))"

definition uids_allowed :: "pica_stmt \<Rightarrow> procinfo list \<Rightarrow> bool" where
  "uids_allowed stmt ps \<longleftrightarrow> (\<exists>ids. st_uid stmt = Val ids \<and> (\<forall>p \<in> set ps. pi_ruid p \<in> set ids))"

lemma verify_digest_result: "pica_verify_digest c p = Inr r \<Longrightarrow> r = 0 \<or> r = -1"
  by (auto simp: pica_verify_digest_def Let_def cbind_eq_Inr split: if_split_asm)

lemma verify_binaries_loop_zero: "verify_binaries_loop mm tbl ps 0 ks = Inr r \<Longrightarrow> r = 0"
  by (induction ks) (auto simp: cbind_eq_Inr split: option.split_asm)

lemma verify_binaries_loop_flag:
  "verify_binaries_loop mm tbl ps rc ks = Inr r \<Longrightarrow> r \<noteq> 0 \<Longrightarrow>
     r = rc \<and> (\<forall>k \<in> set ks. k < length ps \<and> proc_registered mm tbl (ps ! k))"
proof (induction ks arbitrary: rc)
  case (Cons k ks)
  from Cons.prems(1) obtain a c vc where k: "k < length ps"
    "find_hashtable mm tbl (pi_path (ps ! k)) PICA_ENT_CONF_PROCINFO = Inr (Some a)" "as_procinfo a = Inr c"
    "pica_verify_digest c (ps ! k) = Inr vc" "verify_binaries_loop mm tbl ps (if vc < 0 then 0 else rc) ks = Inr r"
    using verify_binaries_loop_zero Cons.prems(2)
    by (auto simp: cbind_eq_Inr cnth_eq_Inr split: option.split_asm)
  have "\<not> vc < 0" using k(5) verify_binaries_loop_zero Cons.prems(2) by (auto split: if_split_asm)
  with verify_digest_result [OF k(4)] have "vc = 0" by auto
  moreover have "a = RefProc c" using k(3) by (auto simp: as_procinfo_def split: entref.split_asm)
  ultimately have "proc_registered mm tbl (ps ! k)" using k by (auto simp: proc_registered_def)
  with Cons.IH [OF k(5) Cons.prems(2)] \<open>\<not> vc < 0\<close> k(1) show ?case by auto
qed simp

lemma check_uids_loop_flag:
  "check_uids_loop ids cnt ps ks = Inr r \<Longrightarrow>
     r = 0 \<or> r = VERIFY_PICA_UIDS \<and> (\<forall>k \<in> set ks. k < length ps \<and> pi_ruid (ps ! k) \<in> set ids)"
proof (induction ks)
  case (Cons k ks)
  have "match_uid_loop ids u js = Inr True \<Longrightarrow> u \<in> set ids" for u js
    by (induction js) (auto simp: cbind_eq_Inr cnth_eq_Inr split: if_split_asm)
  with Cons show ?case
    by (auto simp: cbind_eq_Inr cnth_eq_Inr match_uid_def split: if_split_asm)
qed simp

lemma chain_scan_flag:
  "chain_scan ps ch ks = Inr True \<Longrightarrow> \<forall>k \<in> set ks. k < length ps \<and> k < length ch \<and> pi_path (ps ! k) = ch ! k"
  by (induction ks) (auto simp: cbind_eq_Inr cnth_eq_Inr strcmp_eq_Inr split: if_split_asm)

lemma ichain_loop_zero_rc: "ichain_loop ia ps ent 0 ks = Inr r \<Longrightarrow> r = 0"
  by (induction ks) (auto simp: cbind_eq_Inr split: if_split_asm)

lemma check_ichain_flag:
  assumes "pica_check_ichain stmt ps (int (length ps)) = Inr r" "r \<noteq> 0"
  shows "r = VERIFY_PICA_CHAIN \<and> chain_agrees stmt (map pi_path ps)"
proof -
  from assms(1) obtain n where n: "st_ary_cnt stmt = Val n"
    "ichain_loop (st_iarray stmt) ps (length ps) VERIFY_PICA_CHAIN [0..<nat n] = Inr r"
    by (auto simp: pica_check_ichain_def cbind_eq_Inr)
  show ?thesis
  proof (cases "0 < n")
    case False
    with n show ?thesis by (simp add: chain_agrees_def)
  next
    case True
    then have "[0..<nat n] = 0 # [1..<nat n]" by (simp add: upt_conv_Cons)
    with n(2) assms(2) obtain ia a where a: "st_iarray stmt = Val ia" "ia \<noteq> []" "ia ! 0 = Val a"
      "chain_scan ps (ichain a) [0..<length ps] = Inr True" "r = VERIFY_PICA_CHAIN"
      using ichain_loop_zero_rc by (auto simp: cbind_eq_Inr cnth_eq_Inr simp del: upt_Suc split: if_split_asm)
    have "\<forall>k < length ps. k < length (ichain a) \<and> pi_path (ps ! k) = ichain a ! k"
      using chain_scan_flag [OF a(4)] by auto
    moreover from this have "length ps \<le> length (ichain a)"
      by (cases "length ps") (auto simp: Suc_le_eq)
    ultimately have "take (length ps) (ichain a) = map pi_path ps"
      by (intro nth_equalityI) auto
    with a n(1) show ?thesis by (cases ia) (auto simp: chain_agrees_def)
  qed
qed

lemma find_policy_loop_some:
  "find_policy_loop stmts path ks = Inr (Some i) \<Longrightarrow> i < length stmts \<and> st_exec_path (stmts ! i) = Val path"
  by (induction ks) (auto simp: cbind_eq_Inr cnth_eq_Inr strcmp_eq_Inr split: if_split_asm)

lemma extract_pinfo_length: "pica_extract_pinfo cl junk body = Inr (n, Some ps) \<Longrightarrow> n = int (length ps)"
  by (auto simp: pica_extract_pinfo_def extract_procinfo_def cbind_eq_Inr split: option.split_asm if_split_asm
      dest: cmapM_length)

lemma all_flags:
  assumes "v = VERIFY_TPM2_FRESH OR VERIFY_TPM2_QUOTE \<or> v = VERIFY_TPM2_FRESH"
    and "vb = 0 \<or> vb = VERIFY_PICA_BINARIES" "vc = 0 \<or> vc = VERIFY_PICA_CHAIN" "vu = 0 \<or> vu = VERIFY_PICA_UIDS"
    and "VERIFIED_ALL (((v OR vb) OR vc) OR vu)"
  shows "v = VERIFY_TPM2_FRESH OR VERIFY_TPM2_QUOTE \<and> vb \<noteq> 0 \<and> vc \<noteq> 0 \<and> vu \<noteq> 0"
  using assms by (auto simp: VERIFIED_ALL_def flag_simps Let_def)

text \<open>The measured chain meets the policy statement and the configuration.\<close>

definition chain_accepted :: "(string \<Rightarrow> u32) \<Rightarrow> entref htable \<Rightarrow> pica_policy \<Rightarrow> pica_stmt \<Rightarrow> procinfo list \<Rightarrow> bool" where
  "chain_accepted mm tbl ppol stmt ps \<longleftrightarrow>
     ps \<noteq> [] \<and> stmt \<in> set (pp_stmt ppol) \<and> st_exec_path stmt = Val (pi_path (last ps)) \<and>
     (\<forall>p \<in> set ps. proc_registered mm tbl p) \<and> chain_agrees stmt (map pi_path ps) \<and> uids_allowed stmt ps"

lemma checks_accepted:
  assumes "ps \<noteq> []" "ent = int (length ps)" "pica_find_policy ppol (last ps) = Inr (Some i)"
    "cnth (pp_stmt ppol) i = Inr stmt" "pica_verify_binaries mm tbl (Some ps) ent = Inr vb"
    "pica_check_ichain stmt ps ent = Inr vc" "pica_check_uids stmt ps ent = Inr vu"
  shows "vb = 0 \<or> vb = VERIFY_PICA_BINARIES" "vc = 0 \<or> vc = VERIFY_PICA_CHAIN" "vu = 0 \<or> vu = VERIFY_PICA_UIDS"
    "vb \<noteq> 0 \<Longrightarrow> vc \<noteq> 0 \<Longrightarrow> vu \<noteq> 0 \<Longrightarrow> chain_accepted mm tbl ppol stmt ps"
proof -
  have vb: "vb = 0 \<or> vb = VERIFY_PICA_BINARIES \<and> (\<forall>p \<in> set ps. proc_registered mm tbl p)"
    using verify_binaries_loop_flag [of mm tbl ps VERIFY_PICA_BINARIES "[0..<length ps]" vb] assms(5)
    by (auto simp: pica_verify_binaries_def assms(2) all_set_conv_all_nth)
  have vc: "vc = 0 \<or> vc = VERIFY_PICA_CHAIN \<and> chain_agrees stmt (map pi_path ps)"
    using check_ichain_flag [of stmt ps vc] assms(6) by (auto simp: assms(2))
  have vu: "vu = 0 \<or> vu = VERIFY_PICA_UIDS \<and> uids_allowed stmt ps"
    using assms(7) check_uids_loop_flag [of _ _ ps "[0..<length ps]" vu]
    by (fastforce simp: pica_check_uids_def assms(2) uids_allowed_def cbind_eq_Inr all_set_conv_all_nth)
  have "st_exec_path stmt = Val (pi_path (last ps))" "stmt \<in> set (pp_stmt ppol)"
    using find_policy_loop_some assms(3,4) by (auto simp: pica_find_policy_def cnth_eq_Inr)
  with vb vc vu assms(1) show "vb = 0 \<or> vb = VERIFY_PICA_BINARIES" "vc = 0 \<or> vc = VERIFY_PICA_CHAIN"
    "vu = 0 \<or> vu = VERIFY_PICA_UIDS"
    "vb \<noteq> 0 \<Longrightarrow> vc \<noteq> 0 \<Longrightarrow> vu \<noteq> 0 \<Longrightarrow> chain_accepted mm tbl ppol stmt ps"
    by (auto simp: chain_accepted_def)
qed

lemma decide_allowed:
  assumes "pica_decide cv tbl ppol picabody v = Inr out" "mo_allowed out = Some stmt"
    and v: "v = VERIFY_TPM2_FRESH OR VERIFY_TPM2_QUOTE \<or> v = VERIFY_TPM2_FRESH"
  shows "v = VERIFY_TPM2_FRESH OR VERIFY_TPM2_QUOTE \<and>
     (\<exists>body ps. picabody = Val (Some body) \<and>
        pica_extract_pinfo (cv_cl cv) (cv_junk cv) body = Inr (int (length ps), Some ps) \<and>
        chain_accepted (cv_mm cv) tbl ppol stmt ps)"
proof -
  from assms(1,2) obtain body ent ps bin i vb vc vu where b: "picabody = Val (Some body)"
    "pica_extract_pinfo (cv_cl cv) (cv_junk cv) body = Inr (ent, Some ps)" "\<not> ent < 1"
    "cnth ps (nat ent - 1) = Inr bin" "pica_find_policy ppol bin = Inr (Some i)" "cnth (pp_stmt ppol) i = Inr stmt"
    "pica_verify_binaries (cv_mm cv) tbl (Some ps) ent = Inr vb" "pica_check_ichain stmt ps ent = Inr vc"
    "pica_check_uids stmt ps ent = Inr vu" "VERIFIED_ALL (((v OR vb) OR vc) OR vu)"
    by (auto simp: pica_decide_def cbind_eq_Inr Let_def main_fail_def split: if_split_asm option.split_asm)
  have ent: "ent = int (length ps)" by (rule extract_pinfo_length [OF b(2)])
  with b(3) have ne: "ps \<noteq> []" by auto
  have bin: "bin = last ps" using b(4) ne by (simp add: ent last_conv_nth)
  note ch = checks_accepted [OF ne ent b(5) [unfolded bin] b(6-9)]
  have "v = VERIFY_TPM2_FRESH OR VERIFY_TPM2_QUOTE \<and> vb \<noteq> 0 \<and> vc \<noteq> 0 \<and> vu \<noteq> 0"
    by (rule all_flags [OF v ch(1-3) b(10)])
  with ch(4) b(1,2) show ?thesis by (auto simp: ent)
qed

section \<open>Soundness of the program\<close>

text \<open>The evidence message was signed by the registered key for the registered PCR selection.\<close>

definition evidence_signed :: "('w, 'k) cenv \<Rightarrow> bytes \<Rightarrow> bytes \<Rightarrow> 'w \<Rightarrow> bool" where
  "evidence_signed cv msg body w \<longleftrightarrow>
     (\<exists>rc e q sig key trc w1 at reg trc2 w2.
        extract_tpm2evidence (cv_cl cv) (cv_ts cv) msg = Inr (rc, e) \<and> ev_quote e = Some q \<and> ev_sig e = Val sig \<and>
        ev_pica e = Some body \<and>
        read_pubkey (cr_pem (cv_cr cv)) (cv_fo cv) ''ak_pub.pem'' None w = Inr ((trc, key), w1) \<and>
        rsa_accepted (cr_evp (cv_cr cv)) key q sig \<and>
        snd (extract_tpm2attest (cv_ts cv) q) = Val at \<and>
        read_tpm2attest (cv_ts cv) (cv_fo cv) ''reg_quote.bin'' w1 = Inr ((trc2, Val reg), w2) \<and>
        comp_pcr_selection (at_pcrs reg) (at_pcrs at) = Inr 0)"

lemma session_allowed:
  assumes "main_session cv op dpath tbl ppol w = Inr (out, w')" "mo_allowed out = Some stmt"
  shows "\<exists>st nonce w3 measured msz w4 msg body ps.
     cv_rand cv w = ((st, nonce), w3) \<and>
     pica_request_measure (cv_fuel cv) (cv_so cv) (cv_slack cv) (cv_aux cv) nonce
       (replicate MEASURE_SZ (Val 0)) (of_nat MEASURE_SZ) dpath w3 = Inr ((0, measured, msz), w4) \<and>
     buf_get measured 0 (unat msz) = Inr msg \<and> evidence_signed cv msg body w4 \<and> \<not> op_rflag op \<and>
     pica_extract_pinfo (cv_cl cv) (cv_junk cv) body = Inr (int (length ps), Some ps) \<and>
     chain_accepted (cv_mm cv) tbl ppol stmt ps \<and> mo_rc out = 0 \<and> VERIFIED_ALL (mo_verified out)"
proof -
  obtain st nonce w3 where rand: "cv_rand cv w = ((st, nonce), w3)" by (metis prod.exhaust)
  from assms rand obtain measured msz w4 msg verified picabody w5 where
    m: "pica_request_measure (cv_fuel cv) (cv_so cv) (cv_slack cv) (cv_aux cv) nonce
       (replicate MEASURE_SZ (Val 0)) (of_nat MEASURE_SZ) dpath w3 = Inr ((0, measured, msz), w4)"
    "buf_get measured 0 (unat msz) = Inr msg"
    "pica_verify_tpm2all (cv_cl cv) (cv_ts cv) (cv_cr cv) (cv_fo cv) msg nonce True w4 = Inr ((verified, picabody), w5)"
    "\<not> op_rflag op" "pica_decide cv tbl ppol picabody verified = Inr out"
    by (auto simp: main_session_def main_fail_def cbind_eq_Inr split: if_split_asm)
  from assms(2) m(5) have "mo_rc out = 0 \<and> VERIFIED_ALL (mo_verified out)"
    by (auto simp: pica_decide_def cbind_eq_Inr Let_def main_fail_def split: if_split_asm option.split_asm)
  moreover from m(5) obtain b where pb: "picabody = Val b"
    by (auto simp: pica_decide_def cbind_eq_Inr)
  from verify_flags [OF m(3) [unfolded pb]]
  have "verified = VERIFY_TPM2_FRESH OR VERIFY_TPM2_QUOTE \<or> verified = VERIFY_TPM2_FRESH" .
  from decide_allowed [OF m(5) assms(2) this] obtain body ps where d: "picabody = Val (Some body)"
    "pica_extract_pinfo (cv_cl cv) (cv_junk cv) body = Inr (int (length ps), Some ps)"
    "chain_accepted (cv_mm cv) tbl ppol stmt ps" by blast
  moreover have "evidence_signed cv msg body w4"
    using stored_body_signed [OF m(3) [unfolded d(1)]] unfolding evidence_signed_def by blast
  ultimately show ?thesis using rand m by blast
qed

text \<open>
  C2.  The program announces \<open>All verifications are success\<close> and shows the
  actions of a statement only when the daemon answered with a message whose
  quote carries an RSA signature by the key of \<open>ak_pub.pem\<close> and the registered PCR
  selection, and every process of the chain the message brings is registered
  with its digests in the configuration, has a user id the statement allows,
  and stands in the statement's first chain; the statement is one of the policy
  file, for the executable that ends the chain.
\<close>

theorem main_accepts_sound:
  assumes "pica_main cv argv w = Inr (out, w')" "mo_allowed out = Some stmt"
  shows "\<exists>op i w1 tbl0 polpath ppol tbl w2 st nonce w3 dpath measured msz w4 msg body ps.
     getoption argv = Inr (Some (op, i)) \<and> \<not> op_rflag op \<and>
     main_config cv op w = Inr (Some tbl0, w1) \<and>
     pica_read_policy (cv_mm cv) (cv_gi cv) (cv_jp cv) (cv_tok cv) (cv_os cv) polpath (Some policy_zero) tbl0 w1 =
       Inr (0, Some ppol, tbl, w2) \<and>
     cv_rand cv w2 = ((st, nonce), w3) \<and>
     pica_request_measure (cv_fuel cv) (cv_so cv) (cv_slack cv) (cv_aux cv) nonce
       (replicate MEASURE_SZ (Val 0)) (of_nat MEASURE_SZ) dpath w3 = Inr ((0, measured, msz), w4) \<and>
     buf_get measured 0 (unat msz) = Inr msg \<and>
     evidence_signed cv msg body w4 \<and>
     pica_extract_pinfo (cv_cl cv) (cv_junk cv) body = Inr (int (length ps), Some ps) \<and>
     chain_accepted (cv_mm cv) tbl ppol stmt ps \<and>
     mo_rc out = 0 \<and> VERIFIED_ALL (mo_verified out)"
proof -
  from assms obtain op i tbl0 w1 polpath dpath rc ppol tbl w2 where
    m: "getoption argv = Inr (Some (op, i))" "main_config cv op w = Inr (Some tbl0, w1)"
    "pica_read_policy (cv_mm cv) (cv_gi cv) (cv_jp cv) (cv_tok cv) (cv_os cv) polpath (Some policy_zero) tbl0 w1 =
       Inr (rc, Some ppol, tbl, w2)" "\<not> rc < 0"
    "main_session cv op dpath tbl ppol w2 = Inr (out, w')"
    by (auto simp: pica_main_def main_fail_def cbind_eq_Inr split: if_split_asm option.split_asm)
  have "rc = 0" using m(3,4)
    by (auto simp: pica_read_policy_def cbind_eq_Inr Let_def case_prod_beta split: if_split_asm option.split_asm)
  with session_allowed [OF m(5) assms(2)] m(1-3) show ?thesis by blast
qed

section \<open>The exchange with the daemon\<close>

definition pica_request :: "u16 \<Rightarrow> bytes \<Rightarrow> bytes" where
  "pica_request aux nonce = enc_head \<lparr>th_cmd = TPMD_REQ_PICA, th_aux = aux, th_len = 32\<rparr> @ nonce"

text \<open>A receive into no bytes reports the end of the stream.\<close>

lemma recv_nothing: "0 < n \<Longrightarrow> \<exists>w'. sock_recv n net_ops sock [] w = Inr ((-1, []), w') \<and> net_sent w' = net_sent w"
  by (cases n) (auto simp: sock_recv_def net_ops_def conn_recv_def Let_def recv_size_def recv_bytes_def
      buf_put_def net_sent_def split: list.split)

lemma request_sent:
  assumes "length path \<le> 108" "108 \<le> length (path @ NUL # slack)" "length nonce = 32" "40 \<le> fuel"
    and "net_unread w = enc_head h @ rest"
  shows "\<exists>w1. net_unread w1 = rest \<and> net_sent w1 = net_sent w @ pica_request aux nonce \<and> net_other w1 = net_other w \<and>
     pica_request_measure fuel net_ops slack aux nonce buf sz path w =
       (let len = unat (th_len h) in
        if len > length buf then Inr ((0, buf, sz), w1)
        else
          cbind (sock_recv fuel net_ops 3 (take len buf) w1) (\<lambda>((rc, got), w).
          let measured = got @ drop len buf in
          if rc < 0 then Inr ((rc, measured, sz), w)
          else Inr ((rc, measured, of_nat len), w)))"
proof -
  have "pica_request aux nonce \<noteq> []" "length (pica_request aux nonce) = 40"
    using assms(3) by (auto simp: pica_request_def HEAD_SZ_def)
  with nt.send_exact [of "pica_request aux nonce" fuel 3 w] assms(4) obtain w0 where w0:
    "sock_send fuel net_ops 3 (pica_request aux nonce) w = Inr (0, w0)" "net_sent w0 = net_sent w @ pica_request aux nonce"
    "net_unread w0 = net_unread w" "net_other w0 = net_other w" by auto
  have "length (net_unread w0) \<ge> 8" using w0(3) assms(5) by (simp add: HEAD_SZ_def)
  with nt.recv_exact [of "replicate HEAD_SZ Garbage" w0 fuel 3] assms(4,5) w0(3) obtain w1 where w1:
    "sock_recv fuel net_ops 3 (replicate HEAD_SZ Garbage) w0 = Inr ((0, map Val (enc_head h)), w1)"
    "net_unread w1 = rest" "net_sent w1 = net_sent w0" "net_other w1 = net_other w0"
    by (auto simp: HEAD_SZ_def)
  have "buf_get (map Val (enc_head h)) 0 HEAD_SZ = Inr (enc_head h)" by (simp add: buf_get_Val HEAD_SZ_def)
  with w0 w1 assms(3) connect_net [OF assms(1,2), of w] show ?thesis
    by (intro exI [of _ w1]) (simp add: pica_request_measure_def pica_request_def Let_def cong: if_cong)
qed

lemma request_reply:
  assumes "length path \<le> 108" "108 \<le> length (path @ NUL # slack)" "length nonce = 32"
    and "40 \<le> fuel" "length buf \<le> fuel" "length buf < 2 ^ 64" "net_unread w = enc_head h @ rest"
    and "len = unat (th_len h)"
  shows "(0 < len \<and> len \<le> length buf \<and> len \<le> length rest \<longrightarrow>
       (\<exists>w'. pica_request_measure fuel net_ops slack aux nonce buf sz path w =
            Inr ((0, map Val (take len rest) @ drop len buf, of_nat len), w') \<and>
          net_sent w' = net_sent w @ pica_request aux nonce \<and> net_unread w' = drop len rest \<and>
          net_other w' = net_other w)) \<and>
     (len = 0 \<longrightarrow> (\<exists>w'. pica_request_measure fuel net_ops slack aux nonce buf sz path w = Inr ((-1, buf, sz), w'))) \<and>
     (length buf < len \<longrightarrow> (\<exists>w'. pica_request_measure fuel net_ops slack aux nonce buf sz path w = Inr ((0, buf, sz), w')))"
proof -
  from request_sent [OF assms(1-4,7), of aux buf sz] obtain w1 where w1: "net_unread w1 = rest"
    "net_sent w1 = net_sent w @ pica_request aux nonce" "net_other w1 = net_other w"
    and run: "pica_request_measure fuel net_ops slack aux nonce buf sz path w =
       (if len > length buf then Inr ((0, buf, sz), w1)
        else
          cbind (sock_recv fuel net_ops 3 (take len buf) w1) (\<lambda>((rc, got), w).
          if rc < 0 then Inr ((rc, got @ drop len buf, sz), w)
          else Inr ((rc, got @ drop len buf, of_nat len), w)))"
    unfolding assms(8) Let_def by blast
  have "\<exists>w'. sock_recv fuel net_ops 3 (take len buf) w1 = Inr ((0, map Val (take len rest)), w') \<and>
      net_unread w' = drop len rest \<and> net_sent w' = net_sent w1 \<and> net_other w' = net_other w1"
    if "0 < len \<and> len \<le> length buf \<and> len \<le> length rest"
    using nt.recv_exact [of "take len buf" w1 fuel 3] that assms(5,6) w1(1) by (cases "buf = []") (auto simp: min_absorb2)
  moreover have "\<exists>w'. sock_recv fuel net_ops 3 [] w1 = Inr ((-1, []), w')"
    using recv_nothing [of fuel 3 w1] assms(4) by auto
  ultimately show ?thesis using run w1 by fastforce
qed

text \<open>
  C35.  What a reply does to the buffer of the client, for a reply that arrives
  in whatever pieces: the announced number of bytes fill it and become its
  size; an error reply, which announces none, is an error; and a reply that
  announces more than fits is taken for a success that leaves buffer and size
  as they were.
\<close>

theorem request_measure_reply:
  assumes "length path \<le> 108" "108 \<le> length (path @ NUL # slack)" "length nonce = 32"
    and "40 \<le> fuel" "length buf \<le> fuel" "length buf < 2 ^ 64" "net_unread w = enc_head h @ rest"
    and "len = unat (th_len h)"
  shows "(0 < len \<and> len \<le> length buf \<and> len \<le> length rest \<longrightarrow>
       (\<exists>w'. pica_request_measure fuel net_ops slack aux nonce buf sz path w =
            Inr ((0, map Val (take len rest) @ drop len buf, of_nat len), w') \<and>
          net_sent w' = net_sent w @ pica_request aux nonce \<and> net_unread w' = drop len rest \<and>
          net_other w' = net_other w)) \<and>
     (len = 0 \<longrightarrow> (\<exists>w'. pica_request_measure fuel net_ops slack aux nonce buf sz path w = Inr ((-1, buf, sz), w'))) \<and>
     (length buf < len \<longrightarrow> (\<exists>w'. pica_request_measure fuel net_ops slack aux nonce buf sz path w = Inr ((0, buf, sz), w')))"
  by (rule request_reply) fact+

theorem request_measure_reply_witness:
  "(\<exists>w'. pica_request_measure 50 net_ops (replicate 103 NUL) 0 (replicate 32 1) [Val 0, Val 0, Val 0] 3 ''/sock''
        (ex_net [enc_head \<lparr>th_cmd = TPMD_RPL_PICA, th_aux = TPMD_AUX_OK, th_len = 2\<rparr> @ [8], [9]]) =
        Inr ((0, [Val 8, Val 9, Val 0], 2), w')) \<and>
   (\<exists>w'. pica_request_measure 50 net_ops (replicate 103 NUL) 0 (replicate 32 1) [Val 0, Val 0, Val 0] 3 ''/sock''
        (ex_net [enc_head \<lparr>th_cmd = TPMD_RPL_PICA, th_aux = TPMD_AUX_OK, th_len = 4\<rparr> @ [8], [9]]) =
        Inr ((0, [Val 0, Val 0, Val 0], 3), w'))"
proof -
  let ?h = "\<lambda>n. \<lparr>th_cmd = TPMD_RPL_PICA, th_aux = TPMD_AUX_OK, th_len = n\<rparr>"
  let ?b = "[Val 0, Val 0, Val 0] :: bbuf"
  have u: "net_unread (ex_net [enc_head (?h n) @ [8], [9]]) = enc_head (?h n) @ [8, 9]" for n
    by (simp add: ex_net_def net_unread_def)
  have a: "length ''/sock'' \<le> 108" "108 \<le> length (''/sock'' @ NUL # replicate 103 NUL)"
    "length (replicate 32 1 :: bytes) = 32" "40 \<le> (50 :: nat)" "length ?b \<le> 50" "length ?b < 2 ^ 64" by simp_all
  note * = request_measure_reply [OF a u]
  have l: "2 = unat (th_len (?h 2))" "4 = unat (th_len (?h 4))" by simp_all
  from * [OF l(1), of 0 3] * [OF l(2), of 0 3] show ?thesis by auto
qed

section \<open>An honest exchange is accepted\<close>

text \<open>What configuration and policy must say of the chain \<open>ps\<close> for statement \<open>a\<close> to allow it.\<close>

definition chain_allowed ::
    "(json \<Rightarrow> u32) \<Rightarrow> (string \<Rightarrow> procinfo option) \<Rightarrow> astmt list \<Rightarrow> astmt \<Rightarrow> procinfo list \<Rightarrow> bool" where
  "chain_allowed gi cnf as a ps \<longleftrightarrow>
     ps \<noteq> [] \<and> (\<forall>p \<in> set ps. wf_procinfo p \<and> bin_accepted cnf p \<and> pi_ruid p \<in> (\<lambda>n. gi (JInt n)) ` set (as_uids a)) \<and>
     find (\<lambda>a. Some (as_path a) = pi_path (last ps)) as = Some a \<and>
     (\<exists>c cs. as_chains a = c # cs \<and> map pi_path ps = map Some c)"

lemma honest_checks:
  assumes tbl: "conf_table mm tbl cnf" and chain: "chain_allowed gi cnf as a ps"
  shows "ps \<noteq> []" "\<forall>p \<in> set ps. wf_procinfo p"
    "\<exists>i. find_policy_loop (map (stmt_of gi) as) (pi_path (last ps)) [0..<length as] = Inr (Some i) \<and>
       cnth (map (stmt_of gi) as) i = Inr (stmt_of gi a)"
    "pica_verify_binaries mm tbl (Some ps) (int (length ps)) = Inr VERIFY_PICA_BINARIES"
    "pica_check_ichain (stmt_of gi a) ps (int (length ps)) = Inr VERIFY_PICA_CHAIN"
    "pica_check_uids (stmt_of gi a) ps (int (length ps)) = Inr VERIFY_PICA_UIDS"
proof -
  have ne: "ps \<noteq> []" and wf: "\<forall>p \<in> set ps. wf_procinfo p" and acc: "\<forall>p \<in> set ps. bin_accepted cnf p"
    and uids: "\<forall>p \<in> set ps. pi_ruid p \<in> set (map (\<lambda>n. gi (JInt n)) (as_uids a))"
    and a: "find (\<lambda>a. Some (as_path a) = pi_path (last ps)) as = Some a"
    using chain by (auto simp: chain_allowed_def)
  from chain obtain c cs where c: "as_chains a = c # cs" "map pi_path ps = map Some c"
    by (auto simp: chain_allowed_def)
  have "last ps \<in> set ps" using ne by simp
  then obtain path where path: "pi_path (last ps) = Some path" using wf by (auto elim: wf_procinfo_path)
  from a obtain i where i: "i < length as" "as ! i = a" "as_path a = path" "\<forall>j < i. as_path (as ! j) \<noteq> path"
    by (auto simp: find_Some_iff path)
  have "pica_find_policy (policy_of gi as) (last ps) = Inr (Some i)"
    using i by (subst find_policy_first [OF _ _ path]) (auto simp: policy_of_def)
  then have "find_policy_loop (map (stmt_of gi) as) (pi_path (last ps)) [0..<length as] = Inr (Some i)"
    by (simp add: pica_find_policy_def policy_of_def)
  moreover have "cnth (map (stmt_of gi) as) i = Inr (stmt_of gi a)" using i(1,2) by simp
  ultimately show "\<exists>i. find_policy_loop (map (stmt_of gi) as) (pi_path (last ps)) [0..<length as] = Inr (Some i) \<and>
       cnth (map (stmt_of gi) as) i = Inr (stmt_of gi a)" by blast
  show "pica_verify_binaries mm tbl (Some ps) (int (length ps)) = Inr VERIFY_PICA_BINARIES"
    using verify_binaries_loop_ok [OF tbl wf, of "length ps" VERIFY_PICA_BINARIES 0] acc
    by (simp add: pica_verify_binaries_def)
  show "pica_check_ichain (stmt_of gi a) ps (int (length ps)) = Inr VERIFY_PICA_CHAIN"
    by (rule stmt_of_first_chain [OF c])
  show "pica_check_uids (stmt_of gi a) ps (int (length ps)) = Inr VERIFY_PICA_UIDS"
    using check_uids_match [of "stmt_of gi a" "map (\<lambda>n. gi (JInt n)) (as_uids a)" ps] uids
    by (simp add: stmt_of_def)
qed (use chain in \<open>auto simp: chain_allowed_def\<close>)

lemma honest_decide:
  assumes tbl: "conf_table (cv_mm cv) tbl cnf" and chain: "chain_allowed gi cnf as a ps"
    and wire: "chain_faithful (cv_cl cv) ps"
  shows "pica_decide cv tbl (policy_of gi as) (Val (Some (cl_ser (cv_cl cv) (chain_item (cv_cl cv) ps))))
       (VERIFY_TPM2_FRESH OR VERIFY_TPM2_QUOTE) =
     Inr \<lparr>mo_rc = 0, mo_verified = 31, mo_allowed = Some (stmt_of gi a)\<rparr>"
proof -
  note ch = honest_checks [OF tbl chain]
  from ch(3) obtain i where i: "pica_find_policy (policy_of gi as) (last ps) = Inr (Some i)"
    "cnth (pp_stmt (policy_of gi as)) i = Inr (stmt_of gi a)"
    by (auto simp: pica_find_policy_def policy_of_def)
  have "cnth ps (nat (int (length ps)) - 1) = Inr (last ps)"
    using ch(1) by (simp add: last_conv_nth)
  then show ?thesis
    using extract_chain [OF wire ch(1,2), of "cv_junk cv"] ch(1,4-6) i
    by (simp add: pica_decide_def VERIFIED_ALL_def flag_simps Let_def)
qed

lemma stmt_of_exec_path: "st_exec_path (stmt_of gi a) = Val (Some (as_path a))"
  by (simp add: stmt_of_def)

text \<open>Registering the statements of a policy leaves the configuration's entries found.\<close>

lemma reg_policy_stable:
  assumes "htable_ok tbl" "conf_table mm tbl cnf"
  shows "\<exists>tbl'. reg_policy mm (policy_of gi as) tbl = Inr tbl' \<and> htable_ok tbl' \<and> conf_table mm tbl' cnf"
proof -
  let ?f = "\<lambda>tbl i. cbind (cnth (map (stmt_of gi) as) i) (\<lambda>stmt. cbind (rd (st_exec_path stmt)) (\<lambda>path.
              reg_hashtable mm PICA_ENT_CONF_POLICY (Some (RefStmt stmt)) path tbl))"
  have "\<exists>tbl'. cfold ?f tbl ks = Inr tbl' \<and> htable_ok tbl' \<and> conf_table mm tbl' cnf"
    if "\<forall>k \<in> set ks. k < length as" "htable_ok tbl" "conf_table mm tbl cnf" for ks tbl
    using that
  proof (induction ks arbitrary: tbl)
    case (Cons k ks)
    let ?t = "tbl_insert mm (PICA_ENT_CONF_POLICY, as_path (as ! k)) (RefStmt (stmt_of gi (as ! k))) tbl"
    have ok: "htable_ok ?t" using Cons.prems(2) by (rule htable_ok_insert)
    have "find_hashtable mm ?t (Some p) PICA_ENT_CONF_PROCINFO = find_hashtable mm tbl (Some p) PICA_ENT_CONF_PROCINFO" for p
      unfolding find_hashtable_lookup [OF ok] find_hashtable_lookup [OF Cons.prems(2)] pica_tbl.lookup_insert [OF Cons.prems(2)]
      by (simp add: PICA_ENT_CONF_PROCINFO_def PICA_ENT_CONF_POLICY_def)
    then have "conf_table mm ?t cnf" using Cons.prems(3) by (simp add: conf_table_def)
    then have "\<exists>tbl'. cfold ?f ?t ks = Inr tbl' \<and> htable_ok tbl' \<and> conf_table mm tbl' cnf"
      using Cons.prems(1) ok by (intro Cons.IH) simp_all
    then show ?case
      using Cons.prems(1,2) by (simp add: stmt_of_exec_path reg_hashtable_insert)
  qed simp
  from this [of "[0..<length as]" tbl] assms show ?thesis by (simp add: reg_policy_def policy_of_def)
qed

text \<open>
  The TPM side: whatever the state of the files, the key of \<open>ak_pub.pem\<close> and the
  registered quote are read, and the quote is signed and has its PCR selection.
\<close>

definition honest_tpm :: "('w, 'k) cenv \<Rightarrow> bytes \<Rightarrow> bytes \<Rightarrow> bytes \<Rightarrow> bool" where
  "honest_tpm cv q sg ah \<longleftrightarrow>
     length ah = 32 \<and> fst (un_signature (cv_ts cv) sg) = 0 \<and> cr_ms (cv_cr cv) = ms_good \<and>
     (\<forall>x. length (cr_sha256 (cv_cr cv) x) = 32) \<and>
     (\<exists>key r. (\<forall>w. \<exists>w1 w2. read_pubkey (cr_pem (cv_cr cv)) (cv_fo cv) ''ak_pub.pem'' None w = Inr ((0, key), w1) \<and>
          read_tpm2attest (cv_ts cv) (cv_fo cv) ''reg_quote.bin'' w1 = Inr ((0, Val r), w2)) \<and>
        verify_tpm2quote_sig (cr_evp (cv_cr cv)) q (snd (un_signature (cv_ts cv) sg)) key = Inr 0 \<and>
        (\<exists>at. un_attest (cv_ts cv) q = (0, at) \<and> 32 \<le> length (at_extra at) \<and>
          pcr_wf (at_pcrs r) \<and> pcr_wf (at_pcrs at) \<and> pcr_view (at_pcrs r) = pcr_view (at_pcrs at)))"

lemma honest_verify:
  assumes "honest_tpm cv q sg ah" "message_faithful (cv_cl cv) (ex_bundle q sg ah) body" "length nonce = 32"
  shows "\<exists>w'. pica_verify_tpm2all (cv_cl cv) (cv_ts cv) (cv_cr cv) (cv_fo cv)
       (cl_ser (cv_cl cv) (message_item (cv_cl cv) (ex_bundle q sg ah) body)) nonce True w =
     Inr ((VERIFY_TPM2_FRESH OR VERIFY_TPM2_QUOTE, Val (Some body)), w')"
proof -
  from assms(1) obtain key r at where h: "length ah = 32" "fst (un_signature (cv_ts cv) sg) = 0"
    "cr_ms (cv_cr cv) = ms_good" "\<forall>x. length (cr_sha256 (cv_cr cv) x) = 32"
    "verify_tpm2quote_sig (cr_evp (cv_cr cv)) q (snd (un_signature (cv_ts cv) sg)) key = Inr 0"
    "un_attest (cv_ts cv) q = (0, at)" "32 \<le> length (at_extra at)" "pcr_wf (at_pcrs r)" "pcr_wf (at_pcrs at)"
    "pcr_view (at_pcrs r) = pcr_view (at_pcrs at)"
    and files: "\<forall>w. \<exists>w1 w2. read_pubkey (cr_pem (cv_cr cv)) (cv_fo cv) ''ak_pub.pem'' None w = Inr ((0, key), w1) \<and>
          read_tpm2attest (cv_ts cv) (cv_fo cv) ''reg_quote.bin'' w1 = Inr ((0, Val r), w2)"
    by (auto simp: honest_tpm_def)
  from files obtain w1 w2 where f: "read_pubkey (cr_pem (cv_cr cv)) (cv_fo cv) ''ak_pub.pem'' None w = Inr ((0, key), w1)"
    "read_tpm2attest (cv_ts cv) (cv_fo cv) ''reg_quote.bin'' w1 = Inr ((0, Val r), w2)" by blast
  have "extract_tpm2evidence (cv_cl cv) (cv_ts cv) (cl_ser (cv_cl cv) (message_item (cv_cl cv) (ex_bundle q sg ah) body)) =
      Inr (EXTRACT_ALL, (full_evidence (cv_ts cv) q sg ah)\<lparr>ev_pica := Some body\<rparr>)"
    using extract_message [OF assms(2) bundle_loop_full [OF h(1)]] by (simp add: EXTRACT_ALL_val)
  from full_message_verified [OF this _ _ _ h(1) _ f(1) h(5-7) f(2) h(8-10,3,4) assms(3)] h(2)
  show ?thesis by (auto simp: full_evidence_def)
qed

lemma honest_session:
  assumes rand: "cv_rand cv w = ((0, nonce), w0)" "length nonce = 32"
    and net: "cv_so cv = net_ops" "length path \<le> 108" "108 \<le> length (path @ NUL # cv_slack cv)" "MEASURE_SZ \<le> cv_fuel cv"
    and tpm: "honest_tpm cv q sg ah"
    and wire: "chain_faithful (cv_cl cv) ps" "message_faithful (cv_cl cv) (ex_bundle q sg ah) (cl_ser (cv_cl cv) (chain_item (cv_cl cv) ps))"
    and msg: "msg = cl_ser (cv_cl cv) (message_item (cv_cl cv) (ex_bundle q sg ah) (cl_ser (cv_cl cv) (chain_item (cv_cl cv) ps)))"
      "0 < length msg" "length msg \<le> MEASURE_SZ"
    and reply: "net_unread w0 = enc_head h @ msg" "unat (th_len h) = length msg"
    and tbl: "conf_table (cv_mm cv) tbl cnf" and chain: "chain_allowed gi cnf as a ps" and op: "\<not> op_rflag op"
  shows "\<exists>w'. main_session cv op path tbl (policy_of gi as) w =
     Inr (\<lparr>mo_rc = 0, mo_verified = 31, mo_allowed = Some (stmt_of gi a)\<rparr>, w')"
proof -
  let ?buf = "replicate MEASURE_SZ (Val (0 :: byte))"
  have sz: "MEASURE_SZ = 131072" by (simp add: MEASURE_SZ_def)
  have "\<exists>w1. pica_request_measure (cv_fuel cv) net_ops (cv_slack cv) (cv_aux cv) nonce ?buf (of_nat MEASURE_SZ) path w0 =
      Inr ((0, map Val (take (length msg) msg) @ drop (length msg) ?buf, of_nat (length msg)), w1)"
    using request_reply [OF net(2,3) rand(2) _ _ _ reply(1) reply(2) [symmetric], of "cv_fuel cv" ?buf "cv_aux cv" "of_nat MEASURE_SZ"]
      net(4) msg(2,3) by (auto simp: sz)
  then obtain w1 where req: "pica_request_measure (cv_fuel cv) net_ops (cv_slack cv) (cv_aux cv) nonce ?buf (of_nat MEASURE_SZ) path w0 =
      Inr ((0, map Val msg @ drop (length msg) ?buf, of_nat (length msg)), w1)" by auto
  have get: "buf_get (map Val msg @ drop (length msg) ?buf) 0 (unat (of_nat (length msg) :: u64)) = Inr msg"
    using msg(3) by (simp add: buf_get_def sz cmapM_Inr_map [where g = id, simplified])
  from honest_verify [OF tpm wire(2) rand(2), of w1, folded msg(1)] obtain w2 where
    "pica_verify_tpm2all (cv_cl cv) (cv_ts cv) (cv_cr cv) (cv_fo cv) msg nonce True w1 =
     Inr ((VERIFY_TPM2_FRESH OR VERIFY_TPM2_QUOTE, Val (Some (cl_ser (cv_cl cv) (chain_item (cv_cl cv) ps)))), w2)" by blast
  with rand net(1) req get op honest_decide [OF tbl chain wire(1)] show ?thesis
    by (simp add: main_session_def)
qed

lemma honest_main:
  assumes opt: "getoption argv = Inr (Some (op, i))" "\<not> op_rflag op" "op_conf_path op = Some cpath"
      "op_pol_path op = Some ppath" "op_daemon_path op = Some dpath"
    and conf: "pica_read_config (cv_mm cv) (cv_fsize cv) (cv_sread cv) cpath Garbage htable_zero w = Inr (n, x, tbl0, w1)"
      "n \<noteq> 0" "htable_ok tbl0" "conf_table (cv_mm cv) tbl0 cnf"
    and pol: "file_size (cv_os cv) ppath w1 = ((fd, sz), w2)" "0 \<le> fd" "file_read_close (cv_os cv) fd sz w2 = ((sz, bs), w3)"
      "cv_tok cv" "cv_jp cv (buf_store (unat sz) bs) sz = Some (policy_json as)" "\<forall>a \<in> set as. astmt_ok a"
    and rand: "cv_rand cv w3 = ((0, nonce), w0)" "length nonce = 32"
    and net: "cv_so cv = net_ops" "length dpath \<le> 108" "108 \<le> length (dpath @ NUL # cv_slack cv)" "MEASURE_SZ \<le> cv_fuel cv"
    and tpm: "honest_tpm cv q sg ah"
    and wire: "chain_faithful (cv_cl cv) ps" "message_faithful (cv_cl cv) (ex_bundle q sg ah) (cl_ser (cv_cl cv) (chain_item (cv_cl cv) ps))"
    and msg: "msg = cl_ser (cv_cl cv) (message_item (cv_cl cv) (ex_bundle q sg ah) (cl_ser (cv_cl cv) (chain_item (cv_cl cv) ps)))"
      "0 < length msg" "length msg \<le> MEASURE_SZ"
    and reply: "net_unread w0 = enc_head h @ msg" "unat (th_len h) = length msg"
    and chain: "chain_allowed (cv_gi cv) cnf as a ps"
  shows "\<exists>w'. pica_main cv argv w = Inr (\<lparr>mo_rc = 0, mo_verified = 31, mo_allowed = Some (stmt_of (cv_gi cv) a)\<rparr>, w')"
proof -
  from reg_policy_stable [OF conf(3,4), of "cv_gi cv" as] obtain tbl where tbl:
    "reg_policy (cv_mm cv) (policy_of (cv_gi cv) as) tbl0 = Inr tbl" "conf_table (cv_mm cv) tbl cnf" by blast
  have "pica_read_policy (cv_mm cv) (cv_gi cv) (cv_jp cv) (cv_tok cv) (cv_os cv) ppath (Some policy_zero) tbl0 w1 =
      Inr (0, Some (policy_of (cv_gi cv) as), tbl, w3)"
    using pol(1-5) tbl(1) parse_policy_json [OF pol(6), of "cv_gi cv"] by (simp add: pica_read_policy_def)
  moreover have "main_config cv op w = Inr (Some tbl0, w1)"
    using opt(2,3) conf(1,2) by (simp add: main_config_def)
  moreover from honest_session [OF rand net tpm wire msg reply tbl(2) chain opt(2)] obtain w' where
    "main_session cv op dpath tbl (policy_of (cv_gi cv) as) w3 =
     Inr (\<lparr>mo_rc = 0, mo_verified = 31, mo_allowed = Some (stmt_of (cv_gi cv) a)\<rparr>, w')" by blast
  ultimately show ?thesis using opt by (simp add: pica_main_def)
qed

text \<open>
  C7.  An honest exchange is accepted: when configuration and policy can be
  read, the daemon's reply brings a chain that they allow, with a quote signed
  by the known key over the registered PCR selection, and the reply fits, the
  program ends with every verification flag and shows the actions of the
  statement for the executable at the end of the chain.
\<close>

theorem honest_client_accepts:
  assumes opt: "getoption argv = Inr (Some (op, i))" "\<not> op_rflag op" "op_conf_path op = Some cpath"
      "op_pol_path op = Some ppath" "op_daemon_path op = Some dpath"
    and conf: "pica_read_config (cv_mm cv) (cv_fsize cv) (cv_sread cv) cpath Garbage htable_zero w = Inr (n, x, tbl0, w1)"
      "n \<noteq> 0" "htable_ok tbl0" "conf_table (cv_mm cv) tbl0 cnf"
    and pol: "file_size (cv_os cv) ppath w1 = ((fd, sz), w2)" "0 \<le> fd" "file_read_close (cv_os cv) fd sz w2 = ((sz, bs), w3)"
      "cv_tok cv" "cv_jp cv (buf_store (unat sz) bs) sz = Some (policy_json as)" "\<forall>a \<in> set as. astmt_ok a"
    and rand: "cv_rand cv w3 = ((0, nonce), w0)" "length nonce = 32"
    and net: "cv_so cv = net_ops" "length dpath \<le> 108" "108 \<le> length (dpath @ NUL # cv_slack cv)" "MEASURE_SZ \<le> cv_fuel cv"
    and tpm: "honest_tpm cv q sg ah"
    and wire: "chain_faithful (cv_cl cv) ps" "message_faithful (cv_cl cv) (ex_bundle q sg ah) (cl_ser (cv_cl cv) (chain_item (cv_cl cv) ps))"
    and msg: "msg = cl_ser (cv_cl cv) (message_item (cv_cl cv) (ex_bundle q sg ah) (cl_ser (cv_cl cv) (chain_item (cv_cl cv) ps)))"
      "0 < length msg" "length msg \<le> MEASURE_SZ"
    and reply: "net_unread w0 = enc_head h @ msg" "unat (th_len h) = length msg"
    and chain: "chain_allowed (cv_gi cv) cnf as a ps"
  shows "\<exists>w'. pica_main cv argv w = Inr (\<lparr>mo_rc = 0, mo_verified = 31, mo_allowed = Some (stmt_of (cv_gi cv) a)\<rparr>, w')"
  by (rule honest_main) fact+

text \<open>A client that measures \<open>ex_conf\<close>, and the files and the message it meets.\<close>

definition ex_bundle_item :: cbor where
  "ex_bundle_item = bundle_item (ex_bundle [5] [6] (replicate 32 7))"

definition ex_message_item :: cbor where
  "ex_message_item = CMap True [(text_key ''tpm2_quote'', CBytes True [2]), (text_key ''pica'', CBytes True [0])]"

definition ex_client_cl :: cbor_lib where
  "ex_client_cl = \<lparr>
     cl_load = (\<lambda>bs. if bs = [2] then Some ex_bundle_item else if bs = [3] then Some ex_message_item else cl_load ex_wire bs),
     cl_ser = (\<lambda>x. if x = ex_bundle_item then [2] else if x = ex_message_item then [3] else cl_ser ex_wire x)\<rparr>"

definition ex_client_stmt :: astmt where
  "ex_client_stmt = \<lparr>as_sid = ''s'', as_allow = True, as_path = ''/i'', as_uids = [1000, 0], as_actions = [''f''],
     as_chains = [[''/b'', ''/i'']]\<rparr>"

definition ex_client_world :: "unit net" where
  "ex_client_world = ex_net [enc_head \<lparr>th_cmd = TPMD_RPL_PICA, th_aux = TPMD_AUX_OK, th_len = 1\<rparr>, [3]]"

definition ex_client :: "(unit net, unit) cenv" where
  "ex_client = \<lparr>cv_so = net_ops, cv_fuel = 200000, cv_slack = replicate 108 NUL, cv_aux = 0,
     cv_rand = (\<lambda>w. ((0, replicate 32 1), w)), cv_mm = (\<lambda>_. 1),
     cv_fsize = (\<lambda>_ w. ((Val 3, Val (of_nat (length (image_of ex_addrs ex_conf)))), w)),
     cv_sread = (\<lambda>_ n w. Inr ((n, Val (Some (map Val (image_of ex_addrs ex_conf)))), w)),
     cv_gi = ex_get_int, cv_jp = (\<lambda>_ _. Some (policy_json [ex_client_stmt])), cv_tok = True,
     cv_os = \<lparr>os_open = (\<lambda>_ _ _ w. (3, w)), os_read = (\<lambda>_ _ w. ((1, [0]), w)), os_write = (\<lambda>_ bs w. (int (length bs), w)),
       os_lseek = (\<lambda>_ _ _ w. (1, w)), os_close = (\<lambda>_ w. (0, w)), os_chmod = (\<lambda>_ _ w. (0, w)), os_malloc = (\<lambda>_ w. (True, w))\<rparr>,
     cv_cl = ex_client_cl, cv_ts = ex_tss, cv_cr = ex_crypto [6],
     cv_fo = \<lparr>fo_read_file = (\<lambda>_ _ w. ((Val 3, [0, 0, 0]), w)), fo_size = (\<lambda>_ w. ((Val 3, Val 3), w)),
       fo_read_close = (\<lambda>_ _ w. ((Val 3, [0, 0, 0]), w))\<rparr>,
     cv_junk = [], cv_ad = ex_addrs\<rparr>"

lemma ex_client_simps [simp]:
  "cv_so ex_client = net_ops" "cv_fuel ex_client = 200000" "cv_slack ex_client = replicate 108 NUL"
  "cv_rand ex_client w = ((0, replicate 32 1), w)" "cv_mm ex_client = (\<lambda>_. 1)" "cv_gi ex_client = ex_get_int"
  "cv_jp ex_client = (\<lambda>_ _. Some (policy_json [ex_client_stmt]))" "cv_tok ex_client"
  "cv_cl ex_client = ex_client_cl" "cv_ts ex_client = ex_tss" "cv_cr ex_client = ex_crypto [6]"
  "cv_fsize ex_client p w = ((Val 3, Val (of_nat (length (image_of ex_addrs ex_conf)))), w)"
  "cv_sread ex_client fd n w = Inr ((n, Val (Some (map Val (image_of ex_addrs ex_conf)))), w)"
  by (simp_all add: ex_client_def)

lemma ex_client_wire:
  "chain_faithful ex_client_cl ex_conf"
  "message_faithful ex_client_cl (ex_bundle [5] [6] (replicate 32 7)) (cl_ser ex_client_cl (chain_item ex_client_cl ex_conf))"
  "cl_ser ex_client_cl (message_item ex_client_cl (ex_bundle [5] [6] (replicate 32 7)) (cl_ser ex_client_cl (chain_item ex_client_cl ex_conf))) = [3]"
  by (simp_all add: chain_faithful_def message_faithful_def cbor_faithful_def chain_item_def message_item_def
      ex_client_cl_def ex_bundle_item_def ex_message_item_def bundle_item_def ex_bundle_def ex_wire_def ex_conf_def
      proc_pairs_def id_pair_def procinfo_zero_def)

lemma ex_client_tpm: "honest_tpm ex_client [5] [6] (replicate 32 7)"
proof -
  have "read_pubkey (cr_pem (ex_crypto [6])) (cv_fo ex_client) f None w = Inr ((0, Some ()), w)"
    "read_tpm2attest ex_tss (cv_fo ex_client) f w = Inr ((0, Val ex_attest), w)" for f w
    by (simp_all add: read_pubkey_def read_tpm2attest_def ex_client_def ex_crypto_def)
  then show ?thesis
    by (auto simp: honest_tpm_def ex_sha_def ex_verify_sig intro!: exI [of _ ex_attest])
      (simp add: ex_attest_def pcr_wf_def)+
qed

lemma ex_client_chain:
  "chain_allowed ex_get_int (\<lambda>path. find (\<lambda>p. pi_path p = Some path) ex_conf) [ex_client_stmt] ex_client_stmt ex_conf"
  by (simp add: chain_allowed_def ex_conf_wf(1) ex_client_stmt_def ex_get_int_def bin_accepted_def)
    (simp add: ex_conf_def procinfo_zero_def digest_accepts_def lib_agrees_def libs_of_def)

lemma ex_client_conf:
  "\<exists>tbl. pica_read_config (\<lambda>_. 1) (cv_fsize ex_client) (cv_sread ex_client) PICA_CONF_PATH Garbage htable_zero w =
       Inr (2, Val (Some ex_conf), tbl, w) \<and> htable_ok tbl \<and>
     conf_table (\<lambda>_. 1) tbl (\<lambda>path. find (\<lambda>p. pi_path p = Some path) ex_conf)"
proof -
  have paths: "\<forall>p \<in> set ex_conf. pi_path p \<noteq> None" using ex_conf_wf(1) by (auto elim: wf_procinfo_path)
  have n: "length ex_conf = 2" by (simp add: ex_conf_def)
  let ?t = "pica_tbl.insert_all (\<lambda>_. 1) (conf_entries ex_conf) htable_zero"
  have "pica_build_hashtable (\<lambda>_. 1) ex_conf = Inr ?t"
    unfolding pica_build_hashtable_def by (rule reg_fold_insert_all [OF htable_ok_zero paths])
  then have "conf_table (\<lambda>_. 1) ?t (\<lambda>path. find (\<lambda>p. pi_path p = Some path) ex_conf)"
    by (rule conf_table_built [OF ex_conf_wf(1)])
  moreover have "htable_ok ?t" by (rule pica_tbl.inv_insert_all [OF htable_ok_zero])
  ultimately show ?thesis
    using build_conf_image [OF ex_conf_wf, of ex_addrs] reg_entries_insert_all [OF htable_ok_zero paths, of 0 "\<lambda>_. 1"] n
    by (simp add: pica_read_config_def)
qed

lemma ex_client_options:
  "getoption [''client''] = Inr (Some (opts_zero\<lparr>op_pol_path := Some PICA_POLICY_PATH, op_conf_path := Some PICA_CONF_PATH,
     op_daemon_path := Some PICA_DAEMON_PATH\<rparr>, 1))"
  by (simp add: getoption_def getopt_loop.simps opts_zero_def or_default_def)

lemma ex_client_net:
  "net_unread ex_client_world = enc_head \<lparr>th_cmd = TPMD_RPL_PICA, th_aux = TPMD_AUX_OK, th_len = 1\<rparr> @ [3]"
  by (simp add: ex_client_world_def ex_net_def net_unread_def)

lemma ex_client_policy:
  "file_size (cv_os ex_client) p w = ((3, 1), w)" "file_read_close (cv_os ex_client) 3 1 w = ((1, [0]), w)"
  by (simp_all add: ex_client_def file_size_def file_read_close_def Let_def)

lemma ex_client_path: "length PICA_DAEMON_PATH \<le> 108"
  by (simp add: PICA_DAEMON_PATH_def)

lemma ex_client_ok: "astmt_ok ex_client_stmt"
  by (simp add: ex_client_stmt_def astmt_ok_def)

lemmas ex_client_facts = ex_client_wire ex_client_tpm ex_client_chain ex_client_net ex_client_policy ex_client_options

lemma ex_client_run:
  "\<exists>w'. pica_main ex_client [''client''] ex_client_world =
     Inr (\<lparr>mo_rc = 0, mo_verified = 31, mo_allowed = Some (stmt_of (cv_gi ex_client) ex_client_stmt)\<rparr>, w')"
proof -
  from ex_client_conf obtain tbl where tbl: "pica_read_config (\<lambda>_. 1) (cv_fsize ex_client) (cv_sread ex_client) PICA_CONF_PATH Garbage
      htable_zero ex_client_world = Inr (2, Val (Some ex_conf), tbl, ex_client_world)" "htable_ok tbl"
    "conf_table (\<lambda>_. 1) tbl (\<lambda>path. find (\<lambda>p. pi_path p = Some path) ex_conf)" by blast
  show ?thesis
    by (rule honest_main [OF ex_client_options, where n = 2 and dpath = PICA_DAEMON_PATH and cpath = PICA_CONF_PATH and ppath = PICA_POLICY_PATH and x = "Val (Some ex_conf)" and ?tbl0.0 = tbl
          and ?w1.0 = ex_client_world and cnf = "\<lambda>path. find (\<lambda>p. pi_path p = Some path) ex_conf" and fd = 3 and sz = 1 and bs = "[0]"
          and ?w2.0 = ex_client_world and ?w3.0 = ex_client_world and ?w0.0 = ex_client_world and nonce = "replicate 32 1"
          and ah = "replicate 32 7" and h = "\<lparr>th_cmd = TPMD_RPL_PICA, th_aux = TPMD_AUX_OK, th_len = 1\<rparr>"
          and msg = "[3]" and q = "[5]" and sg = "[6]" and ps = ex_conf and as = "[ex_client_stmt]"])
      (insert tbl ex_client_chain, simp_all add: ex_client_facts opts_zero_def ex_client_path MEASURE_SZ_def ex_client_ok)
qed

theorem honest_client_accepts_witness:
  "\<exists>w'. pica_main ex_client [''client''] ex_client_world =
     Inr (\<lparr>mo_rc = 0, mo_verified = 31, mo_allowed = Some (stmt_of (cv_gi ex_client) ex_client_stmt)\<rparr>, w')"
proof -
  from ex_client_conf obtain tbl where tbl: "pica_read_config (\<lambda>_. 1) (cv_fsize ex_client) (cv_sread ex_client) PICA_CONF_PATH Garbage
      htable_zero ex_client_world = Inr (2, Val (Some ex_conf), tbl, ex_client_world)" "htable_ok tbl"
    "conf_table (\<lambda>_. 1) tbl (\<lambda>path. find (\<lambda>p. pi_path p = Some path) ex_conf)" by blast
  show ?thesis
    by (rule honest_client_accepts [OF ex_client_options, where n = 2 and dpath = PICA_DAEMON_PATH and cpath = PICA_CONF_PATH and ppath = PICA_POLICY_PATH and x = "Val (Some ex_conf)" and ?tbl0.0 = tbl
          and ?w1.0 = ex_client_world and cnf = "\<lambda>path. find (\<lambda>p. pi_path p = Some path) ex_conf" and fd = 3 and sz = 1 and bs = "[0]"
          and ?w2.0 = ex_client_world and ?w3.0 = ex_client_world and ?w0.0 = ex_client_world and nonce = "replicate 32 1"
          and ah = "replicate 32 7" and h = "\<lparr>th_cmd = TPMD_RPL_PICA, th_aux = TPMD_AUX_OK, th_len = 1\<rparr>"
          and msg = "[3]" and q = "[5]" and sg = "[6]" and ps = ex_conf and as = "[ex_client_stmt]"])
      (insert tbl ex_client_chain, simp_all add: ex_client_facts opts_zero_def ex_client_path MEASURE_SZ_def ex_client_ok)
qed

theorem main_accepts_sound_witness:
  "\<exists>out w' w1 msg body ps. pica_main ex_client [''client''] ex_client_world = Inr (out, w') \<and>
     mo_allowed out = Some (stmt_of ex_get_int ex_client_stmt) \<and>
     evidence_signed ex_client msg body w1 \<and> pica_extract_pinfo ex_client_cl [] body = Inr (int (length ps), Some ps)"
proof -
  from ex_client_run obtain w' where run: "pica_main ex_client [''client''] ex_client_world =
     Inr (\<lparr>mo_rc = 0, mo_verified = 31, mo_allowed = Some (stmt_of (cv_gi ex_client) ex_client_stmt)\<rparr>, w')" by blast
  have junk: "cv_junk ex_client = []" by (simp add: ex_client_def)
  obtain w1 msg body ps where "evidence_signed ex_client msg body w1"
    "pica_extract_pinfo (cv_cl ex_client) (cv_junk ex_client) body = Inr (int (length ps), Some ps)"
    using main_accepts_sound [OF run, of "stmt_of (cv_gi ex_client) ex_client_stmt"] by auto
  with run show ?thesis unfolding junk ex_client_simps by fastforce
qed

end
