(* ===== verification/Attestation.thy ===== *)
theory Attestation
  imports Daemon_Protocol Pica_Main
begin

text \<open>
  Daemon and client together: the reply the daemon computes for a measurement
  request, byte by byte the message the client unpacks, and the run of both
  ends of an attestation.
\<close>

section \<open>The daemon's answer to a measurement request\<close>

text \<open>The digest the quote is made over: the measured chain, extended by the nonce.\<close>

definition chain_hash :: "'h denv \<Rightarrow> procinfo list \<Rightarrow> bytes" where
  "chain_hash d ps = m_sha256 (dv_ms d) (cl_ser (dv_cl d) (chain_item (dv_cl d) (rev ps)))"

definition quoted_data :: "'h denv \<Rightarrow> procinfo list \<Rightarrow> bytes \<Rightarrow> bytes" where
  "quoted_data d ps nonce = m_sha256 (dv_ms d) (chain_hash d ps @ nonce)"

text \<open>The chain can be measured, memory and digests work, and the TPM quotes with these bytes.\<close>

definition daemon_able ::
    "'h denv \<Rightarrow> int \<Rightarrow> fp_htable \<Rightarrow> 'h net \<Rightarrow> bytes \<Rightarrow> procinfo list \<Rightarrow> fp_htable \<Rightarrow> 'h net \<Rightarrow> bytes \<Rightarrow> bytes \<Rightarrow> bool" where
  "daemon_able d pid tbl w nonce ps tbl' w2 q sg \<longleftrightarrow>
     length ps \<le> dv_fuel d \<and> plenty (m_os (host_ms (dv_ms d))) \<and> dv_cmem d = (\<lambda>_. True) \<and> 0 < dv_fuel d \<and>
     m_md (dv_ms d) = ms_good \<and> (\<forall>x. length (m_sha256 (dv_ms d) x) = 32) \<and>
     (\<exists>w1 tq. ancestry (host_ms (dv_ms d)) pid tbl w ps tbl' w1 \<and>
        make_tpm2_quote (host_es (dv_es d)) (quoted_data d ps nonce) 32 TPM2_ALG_SHA256 daemon_pcrs 0x81018001
          (Some tpm2_quote_unset) w1 = Inr ((0, Some tq), w2) \<and> tq_quote tq = Val q \<and> tq_sign tq = Val sg) \<and>
     (\<exists>at. un_attest (dv_ts d) q = (0, at) \<and> at_type at = TPM2_ST_ATTEST_QUOTE)"

definition daemon_bundle :: "'h denv \<Rightarrow> bytes \<Rightarrow> bytes \<Rightarrow> procinfo list \<Rightarrow> (cbor \<times> cbor) list" where
  "daemon_bundle d q sg ps = ex_bundle q sg (chain_hash d ps)"

definition daemon_message :: "'h denv \<Rightarrow> bytes \<Rightarrow> bytes \<Rightarrow> procinfo list \<Rightarrow> bytes" where
  "daemon_message d q sg ps = cl_ser (dv_cl d)
     (message_item (dv_cl d) (daemon_bundle d q sg ps) (cl_ser (dv_cl d) (chain_item (dv_cl d) (rev ps))))"

text \<open>Neither the bundle nor the message is empty, and the bundle fits the daemon's buffer.\<close>

definition sizes_fit :: "'h denv \<Rightarrow> bytes \<Rightarrow> bytes \<Rightarrow> procinfo list \<Rightarrow> bool" where
  "sizes_fit d q sg ps \<longleftrightarrow>
     (let n = length (cl_ser (dv_cl d) (bundle_item (daemon_bundle d q sg ps))); m = length (daemon_message d q sg ps) in
      0 < n \<and> n \<le> QBUF_SZ \<and> 0 < m \<and> m \<le> MEASURE_SZ)"

lemma host_ms_simps [simp]: "m_sha256 (host_ms ms) = m_sha256 ms" "m_md (host_ms ms) = m_md ms"
  by (simp_all add: host_ms_def)

lemma daemon_quotes:
  assumes "daemon_able d pid tbl w nonce ps tbl' w2 q sg" "length nonce = 32" "sizes_fit d q sg ps"
  shows "make_tpm2_pica (net_env d) nonce QBUF_SZ pid tbl w =
     Inr ((Some (cl_ser (dv_cl d) (chain_item (dv_cl d) (rev ps))),
           length (cl_ser (dv_cl d) (bundle_item (daemon_bundle d q sg ps))),
           Val (cl_ser (dv_cl d) (bundle_item (daemon_bundle d q sg ps)))), tbl', w2)"
proof -
  from assms(1) obtain w1 tq at where able: "length ps \<le> dv_fuel d" "plenty (m_os (host_ms (dv_ms d)))" "dv_cmem d = (\<lambda>_. True)"
    "m_md (dv_ms d) = ms_good" "\<forall>x. length (m_sha256 (dv_ms d) x) = 32" "ancestry (host_ms (dv_ms d)) pid tbl w ps tbl' w1"
    and q: "make_tpm2_quote (host_es (dv_es d)) (quoted_data d ps nonce) 32 TPM2_ALG_SHA256 daemon_pcrs 0x81018001
          (Some tpm2_quote_unset) w1 = Inr ((0, Some tq), w2)" "tq_quote tq = Val q" "tq_sign tq = Val sg"
      "un_attest (dv_ts d) q = (0, at)" "at_type at = TPM2_ST_ATTEST_QUOTE"
    by (auto simp: daemon_able_def)
  have len: "length (chain_hash d ps) = 32" "length (quoted_data d ps nonce) = 32"
    using able(5) by (simp_all add: chain_hash_def quoted_data_def)
  have "hash_extend_sha256 (m_sha256 (dv_ms d)) (m_md (dv_ms d)) (chain_hash d ps) nonce = Inr (0, map Val (quoted_data d ps nonce))"
    using able(4,5) len assms(2) by (simp add: hash_extend_sha256_def ms_good_def quoted_data_def)
  moreover have "buf_get (map Val (quoted_data d ps nonce)) 0 32 = Inr (quoted_data d ps nonce)"
    using len(2) by (simp add: buf_get_Val)
  ultimately have "make_tpm2_quote_with_pid (net_env d) nonce 32 QBUF_SZ (chain_hash d ps) pid w1 =
      Inr ((0, length (cl_ser (dv_cl d) (bundle_item (daemon_bundle d q sg ps))),
        Val (cl_ser (dv_cl d) (bundle_item (daemon_bundle d q sg ps)))), w2)"
    using q able(3) len(1) assms(3)
    by (simp add: make_tpm2_quote_with_pid_def add_cbor_map_def bundle_item_def daemon_bundle_def ex_bundle_def
        text_key_def sizes_fit_def Let_def)
  then show ?thesis
    using pack_chain_item [OF able(6,2,1), of "dv_cl d"]
    by (simp add: make_tpm2_pica_def chain_hash_def)
qed

lemma daemon_answers:
  assumes "daemon_able d pid tbl w nonce ps tbl' w2 q sg" "length nonce = 32" "sizes_fit d q sg ps"
    and "th_cmd (pk_head pkt) = TPMD_REQ_PICA" "pk_data pkt = map Val nonce"
  shows "\<exists>h. unat (th_len h) = length (daemon_message d q sg ps) \<and>
     handle_packet (net_env d) con pid ah pkt tbl w = Inr (tbl', put_out (enc_head h @ daemon_message d q sg ps) w2)"
proof -
  let ?ser = "daemon_message d q sg ps" and ?b = "cl_ser (dv_cl d) (bundle_item (daemon_bundle d q sg ps))"
  let ?h = "\<lparr>th_cmd = TPMD_RPL_PICA, th_aux = TPMD_AUX_OK, th_len = of_nat (length ?ser)\<rparr>"
  have fit: "0 < length ?b" "length ?b \<le> QBUF_SZ" "0 < length ?ser" "length ?ser \<le> 131072"
    using assms(3) by (simp_all add: sizes_fit_def Let_def MEASURE_SZ_def)
  have env: "dv_cmem d = (\<lambda>_. True)" "0 < dv_fuel d" using assms(1) by (simp_all add: daemon_able_def)
  have n: "cmapM rd (take 32 (pk_data pkt)) = Inr nonce" using assms(2,5) by simp
  have send: "send_reply (net_env d) con TPMD_RPL_PICA ?ser w2 = Inr (put_out (enc_head ?h @ ?ser) w2)"
    using fit env(2) by (simp add: send_reply_def net_send_ok enc_head_nonempty put_out_put_out)
  have "reply_pica (net_env d) con (length ?b) (Val ?b) (Some (cl_ser (dv_cl d) (chain_item (dv_cl d) (rev ps)))) w2 =
      Inr (put_out (enc_head ?h @ ?ser) w2)"
    using fit env(1) send [unfolded daemon_message_def message_item_def]
    by (simp add: reply_pica_def qbuf_read_def add_cbor_map_def daemon_message_def message_item_def text_key_def Let_def)
  then have "handle_packet (net_env d) con pid ah pkt tbl w = Inr (tbl', put_out (enc_head ?h @ ?ser) w2)"
    using assms(4) n daemon_quotes [OF assms(1-3)]
    by (simp add: handle_packet_def handle_pica_def TPMD_REQ_HELLO_def TPMD_REQ_ATTEST_def TPMD_REQ_PICA_def)
  then show ?thesis using fit(4) by (intro exI [of _ ?h]) (simp add: unat_of_nat)
qed


section \<open>Both ends\<close>

text \<open>
  The client of an attestation: it is linked with the same libcbor and TSS2 as
  the daemon, talks over the network, knows the key the quote is signed with,
  and has registered the PCR selection.
\<close>

definition client_able :: "('g net, 'k) cenv \<Rightarrow> 'h denv \<Rightarrow> bytes \<Rightarrow> bytes \<Rightarrow> procinfo list \<Rightarrow> string \<Rightarrow> bool" where
  "client_able cv d q sg ps path \<longleftrightarrow>
     cv_so cv = net_ops \<and> cv_cl cv = dv_cl d \<and> cv_ts cv = dv_ts d \<and> MEASURE_SZ \<le> cv_fuel cv \<and>
     length path \<le> 108 \<and> 108 \<le> length (path @ NUL # cv_slack cv) \<and>
     honest_tpm cv q sg (chain_hash d ps) \<and>
     chain_faithful (dv_cl d) (rev ps) \<and>
     message_faithful (dv_cl d) (daemon_bundle d q sg ps) (cl_ser (dv_cl d) (chain_item (dv_cl d) (rev ps)))"

text \<open>
  C1.  Attestation from end to end: for a measurement request with a nonce the
  daemon answers one packet, and a client that drew this nonce and receives the
  packet, in whatever pieces, accepts the chain of its processes with every
  verification flag, provided the configuration and the policy allow it.
\<close>

theorem attestation_end_to_end:
  assumes "daemon_able d pid tbl w nonce ps tbl' w2 q sg" "length nonce = 32" "sizes_fit d q sg ps"
    and "th_cmd (pk_head pkt) = TPMD_REQ_PICA" "pk_data pkt = map Val nonce"
    and "client_able cv d q sg ps path"
    and "conf_table (cv_mm cv) ctbl cnf" "chain_allowed gi cnf as a (rev ps)" "\<not> op_rflag op"
  shows "\<exists>w3 reply. handle_packet (net_env d) con pid ah pkt tbl w = Inr (tbl', w3) \<and>
     net_sent w3 = net_sent w @ reply \<and>
     (\<forall>v v0. cv_rand cv v = ((0, nonce), v0) \<and> net_unread v0 = reply \<longrightarrow>
        (\<exists>v'. main_session cv op path ctbl (policy_of gi as) v =
          Inr (\<lparr>mo_rc = 0, mo_verified = 31, mo_allowed = Some (stmt_of gi a)\<rparr>, v')))"
proof -
  let ?msg = "daemon_message d q sg ps"
  from daemon_answers [OF assms(1-5), of con ah] obtain h where h: "unat (th_len h) = length ?msg"
    "handle_packet (net_env d) con pid ah pkt tbl w = Inr (tbl', put_out (enc_head h @ ?msg) w2)" by blast
  have cl: "cv_so cv = net_ops" "cv_cl cv = dv_cl d" "MEASURE_SZ \<le> cv_fuel cv"
    "length path \<le> 108" "108 \<le> length (path @ NUL # cv_slack cv)" "honest_tpm cv q sg (chain_hash d ps)"
    "chain_faithful (dv_cl d) (rev ps)"
    "message_faithful (dv_cl d) (ex_bundle q sg (chain_hash d ps)) (cl_ser (dv_cl d) (chain_item (dv_cl d) (rev ps)))"
    using assms(6) by (simp_all add: client_able_def daemon_bundle_def)
  have msg: "?msg = cl_ser (cv_cl cv) (message_item (cv_cl cv) (ex_bundle q sg (chain_hash d ps))
      (cl_ser (cv_cl cv) (chain_item (cv_cl cv) (rev ps))))" "0 < length ?msg" "length ?msg \<le> MEASURE_SZ"
    using assms(3) by (simp_all add: daemon_message_def daemon_bundle_def cl(2) sizes_fit_def Let_def)
  have "\<exists>v'. main_session cv op path ctbl (policy_of gi as) v =
      Inr (\<lparr>mo_rc = 0, mo_verified = 31, mo_allowed = Some (stmt_of gi a)\<rparr>, v')"
    if "cv_rand cv v = ((0, nonce), v0)" "net_unread v0 = enc_head h @ ?msg" for v v0
    by (rule honest_session [OF that(1) assms(2) cl(1,4,5,3,6) cl(7,8) [folded cl(2)] msg that(2) h(1) assms(7-9)])
  moreover have "net_sent w2 = net_sent w"
    using env_quiet(2) [OF daemon_quotes [OF assms(1-3)]] by (simp add: net_view_def net_sent_def)
  ultimately show ?thesis using h(2)
    by (intro exI [of _ "put_out (enc_head h @ ?msg) w2"] exI [of _ "enc_head h @ ?msg"])
      (simp add: put_out_def net_sent_def)
qed


section \<open>A concrete attestation\<close>

definition ex_hash :: bytes where "ex_hash = replicate 31 7 @ [1]"

definition ex_att_bundle :: cbor where
  "ex_att_bundle = bundle_item (ex_bundle [9] [8] ex_hash)"

definition ex_att_message :: cbor where
  "ex_att_message = CMap True [(text_key ''tpm2_quote'', CBytes True [2]), (text_key ''pica'', CBytes True [0])]"

definition ex_att_cl :: cbor_lib where
  "ex_att_cl = \<lparr>
     cl_load = (\<lambda>bs. if bs = [2] then Some ex_att_bundle else if bs = [3] then Some ex_att_message else cl_load ex_wire1 bs),
     cl_ser = (\<lambda>x. if x = ex_att_bundle then [2] else if x = ex_att_message then [3] else cl_ser ex_wire1 x)\<rparr>"

definition ex_att_daemon :: "unit denv" where
  "ex_att_daemon = (ex_denv 0)\<lparr>dv_cl := ex_att_cl, dv_ts := ex_tss\<rparr>"

definition ex_att_client :: "(unit net, unit) cenv" where
  "ex_att_client = ex_client\<lparr>cv_cl := ex_att_cl, cv_cr := ex_crypto [8]\<rparr>"

definition ex_att_stmt :: astmt where
  "ex_att_stmt = \<lparr>as_sid = ''s'', as_allow = True, as_path = ''/bin/sh'', as_uids = [5], as_actions = [], as_chains = [[''/bin/sh'']]\<rparr>"

lemma ex_att_daemon_simps [simp]:
  "dv_cl ex_att_daemon = ex_att_cl" "dv_ts ex_att_daemon = ex_tss" "dv_ms ex_att_daemon = ex_daemon"
  "dv_es ex_att_daemon = ex_es 0" "dv_fuel ex_att_daemon = 9" "dv_cmem ex_att_daemon = (\<lambda>_. True)"
  by (simp_all add: ex_att_daemon_def ex_denv_def)

lemma on_host_Pair [simp]: "on_host (Pair c) = Pair c"
  by (simp add: on_host_def fun_eq_iff)

lemma host_ex_daemon: "host_ms ex_daemon = ex_daemon"
  by (simp add: host_ms_def host_os_def ex_daemon_def ex_msys_def ex_mos_def on_host_def)

lemma ex_att_ser:
  "cl_ser ex_att_cl (chain_item ex_att_cl (rev [ex_proc])) = [0]" "cl_ser ex_att_cl ex_att_bundle = [2]"
  "cl_ser ex_att_cl ex_att_message = [3]"
  by (simp_all add: ex_att_cl_def chain_item_def ex_att_bundle_def ex_att_message_def bundle_item_def ex_wire1_def ex_bundle_def)

lemma ex_att_hash: "chain_hash ex_att_daemon [ex_proc] = ex_hash"
  by (simp add: chain_hash_def ex_att_ser [simplified] ex_daemon_def ex_msys_def ex_hash_def)

lemma ex_att_bundle_item: "bundle_item (daemon_bundle ex_att_daemon [9] [8] [ex_proc]) = ex_att_bundle"
  by (simp add: daemon_bundle_def ex_att_hash ex_att_bundle_def)

lemma ex_att_message: "daemon_message ex_att_daemon [9] [8] [ex_proc] = [3]"
  unfolding daemon_message_def message_item_def ex_att_bundle_item ex_att_daemon_simps ex_att_ser
  by (simp add: ex_att_ser flip: ex_att_message_def)

lemma ex_att_able:
  "\<exists>tbl'. daemon_able ex_att_daemon 42 filepath_htable w (replicate 32 1) [ex_proc] tbl' w [9] [8]"
proof -
  obtain tbl' where "ancestry ex_daemon 42 filepath_htable w [ex_proc] tbl' w" using ex_daemon_ancestry ..
  moreover have "length (quoted_data ex_att_daemon [ex_proc] (replicate 32 1)) = 32"
    by (simp add: quoted_data_def ex_daemon_def ex_msys_def)
  ultimately show ?thesis
    by (intro exI [of _ tbl'])
      (auto simp: daemon_able_def host_ex_daemon ex_daemon_plenty ex_quote_made Pica_Evidence.ex_attest_def
        ex_daemon_def [THEN arg_cong [where f = m_md]] ex_daemon_def [THEN arg_cong [where f = m_sha256]] ex_msys_def)
qed


lemma ex_att_fit: "sizes_fit ex_att_daemon [9] [8] [ex_proc]"
  by (simp add: sizes_fit_def ex_att_bundle_item ex_att_message ex_att_ser QBUF_SZ_def MEASURE_SZ_def)

lemma ex_att_client_simps [simp]:
  "cv_so ex_att_client = net_ops" "cv_cl ex_att_client = ex_att_cl" "cv_ts ex_att_client = ex_tss"
  "cv_cr ex_att_client = ex_crypto [8]" "cv_fuel ex_att_client = 200000" "cv_slack ex_att_client = replicate 108 NUL"
  "cv_mm ex_att_client = (\<lambda>_. 1)" "cv_rand ex_att_client v = ((0, replicate 32 1), v)" "cv_fo ex_att_client = cv_fo ex_client"
  by (simp_all add: ex_att_client_def)

lemma ex_att_wire:
  "chain_faithful ex_att_cl (rev [ex_proc])"
  "message_faithful ex_att_cl (daemon_bundle ex_att_daemon [9] [8] [ex_proc]) [0]"
  unfolding message_faithful_def message_item_def ex_att_bundle_item ex_att_ser
  by (simp_all add: chain_faithful_def cbor_faithful_def ex_att_ser [simplified] flip: ex_att_message_def)
    (simp_all add: ex_att_cl_def chain_item_def ex_wire1_def ex_att_bundle_def ex_att_message_def bundle_item_def ex_bundle_def
      proc_pairs_def id_pair_def text_key_def)

lemma ex_att_client_able: "client_able ex_att_client ex_att_daemon [9] [8] [ex_proc] PICA_DAEMON_PATH"
proof -
  have "read_pubkey (cr_pem (ex_crypto [8])) (cv_fo ex_client) f None w = Inr ((0, Some ()), w)"
    "read_tpm2attest ex_tss (cv_fo ex_client) f w = Inr ((0, Val Pica_Evidence.ex_attest), w)" for f w
    by (simp_all add: read_pubkey_def read_tpm2attest_def ex_client_def ex_crypto_def)
  then have "honest_tpm ex_att_client [9] [8] ex_hash"
    by (auto simp: honest_tpm_def ex_sha_def ex_verify_sig ex_hash_def intro!: exI [of _ Pica_Evidence.ex_attest])
      (simp add: Pica_Evidence.ex_attest_def pcr_wf_def)+
  then show ?thesis
    using ex_att_wire by (simp add: client_able_def ex_att_hash ex_att_ser [simplified] MEASURE_SZ_def ex_client_path)
qed


lemma ex_proc_wf: "wf_procinfo ex_proc"
  unfolding ex_proc_def by (rule wf_measured) (simp_all add: ex_digest_def)

lemma ex_att_chain:
  "chain_allowed ex_get_int (\<lambda>path. find (\<lambda>p. pi_path p = Some path) [ex_proc]) [ex_att_stmt] ex_att_stmt (rev [ex_proc])"
  by (simp add: chain_allowed_def ex_proc_wf ex_att_stmt_def ex_get_int_def bin_accepted_def)
    (simp add: ex_proc_def ex_creds_def digest_accepts_def lib_agrees_def)

lemma ex_att_table:
  "\<exists>tbl. conf_table (\<lambda>_. 1) tbl (\<lambda>path. find (\<lambda>p. pi_path p = Some path) [ex_proc])"
proof -
  have "pi_path ex_proc \<noteq> None" using ex_proc_wf by (auto elim: wf_procinfo_path)
  then have "pica_build_hashtable (\<lambda>_. 1) [ex_proc] = Inr (pica_tbl.insert_all (\<lambda>_. 1) (conf_entries [ex_proc]) htable_zero)"
    unfolding pica_build_hashtable_def by (intro reg_fold_insert_all [OF htable_ok_zero]) simp
  from conf_table_built [OF _ this] ex_proc_wf show ?thesis by auto
qed

theorem attestation_end_to_end_witness:
  "\<exists>tbl tbl' w3 reply v'. handle_packet (net_env ex_att_daemon) 4 42 Garbage
       \<lparr>pk_head = \<lparr>th_cmd = TPMD_REQ_PICA, th_aux = 0, th_len = 32\<rparr>, pk_data = map Val (replicate 32 1)\<rparr>
       filepath_htable (ex_net []) = Inr (tbl', w3) \<and>
     net_sent w3 = reply \<and>
     main_session ex_att_client opts_zero PICA_DAEMON_PATH tbl (policy_of ex_get_int [ex_att_stmt]) (ex_net [reply]) =
       Inr (\<lparr>mo_rc = 0, mo_verified = 31, mo_allowed = Some (stmt_of ex_get_int ex_att_stmt)\<rparr>, v')"
proof -
  let ?pkt = "\<lparr>pk_head = \<lparr>th_cmd = TPMD_REQ_PICA, th_aux = 0, th_len = 32\<rparr>, pk_data = map Val (replicate 32 1)\<rparr>"
  obtain tbl' where able: "daemon_able ex_att_daemon 42 filepath_htable (ex_net []) (replicate 32 1) [ex_proc] tbl' (ex_net []) [9] [8]"
    using ex_att_able by blast
  obtain tbl where tbl: "conf_table (cv_mm ex_att_client) tbl (\<lambda>path. find (\<lambda>p. pi_path p = Some path) [ex_proc])"
    using ex_att_table by auto
  have "length (replicate 32 1 :: bytes) = 32" "th_cmd (pk_head ?pkt) = TPMD_REQ_PICA" "pk_data ?pkt = map Val (replicate 32 1)"
    "\<not> op_rflag opts_zero" by (simp_all add: opts_zero_def)
  from attestation_end_to_end [OF able this(1) ex_att_fit this(2,3) ex_att_client_able tbl ex_att_chain this(4), of 4 Garbage]
  obtain w3 reply where r: "handle_packet (net_env ex_att_daemon) 4 42 Garbage ?pkt filepath_htable (ex_net []) = Inr (tbl', w3)"
    "net_sent w3 = net_sent (ex_net []) @ reply"
    and client: "\<forall>v v0. cv_rand ex_att_client v = ((0, replicate 32 1), v0) \<and> net_unread v0 = reply \<longrightarrow>
        (\<exists>v'. main_session ex_att_client opts_zero PICA_DAEMON_PATH tbl (policy_of ex_get_int [ex_att_stmt]) v =
          Inr (\<lparr>mo_rc = 0, mo_verified = 31, mo_allowed = Some (stmt_of ex_get_int ex_att_stmt)\<rparr>, v'))" by blast
  have "net_sent (ex_net []) = []" "net_unread (ex_net [reply]) = reply" by (simp_all add: ex_net_def net_sent_def net_unread_def)
  with r client show ?thesis by fastforce
qed

end
