(* ===== verification/Conftool.thy ===== *)
theory Conftool
  imports Pica_Read Measure
begin

text \<open>
  The configuration tool (\<open>src/conftool.c\<close>): it shows a configuration file,
  measures a command with its shared libraries, and appends the measured command
  to a configuration file.  \<open>pica_tools/conftool.c\<close> is the variant for sealed
  files, with the enclave calls of \<open>pica_tools/sgxtoollib.c\<close>.

  The C library is a parameter, the record \<open>ctsys\<close>: the text a file holds when
  it is opened for reading, the lines \<open>popen\<close> gives, \<open>stat\<close>, and \<open>fopen\<close> and
  \<open>fwrite\<close> for writing.  Timing and messages are left out; what is shown is a
  list of items.
\<close>

unbundle bit_operations_syntax

section \<open>Reading a configuration file\<close>

text \<open>
  \<open>fread (buf, sz, n, fp)\<close> into a fresh buffer: the buffer, where an element
  read in part is indeterminate, and what is left of the file.
\<close>

definition fread_items :: "nat \<Rightarrow> nat \<Rightarrow> bytes \<Rightarrow> bbuf \<times> bytes" where
  "fread_items sz n rest =
     (let k = min n (length rest div sz) in (buf_store (sz * n) (take (sz * k) rest), drop (sz * n) rest))"

text \<open>
  \<open>read_conf\<close>: \<open>None\<close> for the return value -1, where nothing is stored; else the
  entries and their number.  Neither the magic nor the size of the file is
  looked at.  A negative count makes the \<open>malloc\<close> size huge, and \<open>fread\<close> is given
  the NULL pointer.
\<close>

definition read_conf :: "bytes option \<Rightarrow> (procinfo list \<times> int) option cres" where
  "read_conf data =
     (case data of
        None \<Rightarrow> Inr None
      | Some bs \<Rightarrow>
          let (hb, rest) = fread_items CONFHEAD_SZ 1 bs in
          cbind (get_struct dec_confhead CONFHEAD_SZ hb 0 0) (\<lambda>head.
          let proc_cnt = sint (ch_proc_cnt head); fdig_cnt = sint (ch_fdig_cnt head);
              str_size = sint (ch_str_size head)
          in if proc_cnt < 0 \<or> fdig_cnt < 0 \<or> str_size < 0 then Inl LibContract
             else
               let (cpif, rest) = fread_items PROCINFO_SZ (nat proc_cnt) rest;
                   (fdp, rest) = fread_items FDIGEST_SZ (nat fdig_cnt) rest;
                   (sbuf, rest) = fread_items 1 (nat str_size) rest
               in cbind (cmapM (conf_entry (cpif @ fdp @ sbuf) 0 (length cpif) (nat fdig_cnt)
                           (length cpif + length fdp)) [0..<nat proc_cnt]) (\<lambda>ps.
                  Inr (Some (ps, proc_cnt)))))"

section \<open>Showing it\<close>

definition SHOW_BINARY :: int where "SHOW_BINARY = 1"
definition SHOW_LIBS :: int where "SHOW_LIBS = 2"
definition SHOW_DIGEST :: int where "SHOW_DIGEST = 4"
definition SHOW_UID :: int where "SHOW_UID = 8"
definition SHOW_ALL :: int where
  "SHOW_ALL = SHOW_BINARY OR SHOW_LIBS OR SHOW_DIGEST OR SHOW_UID"

datatype shown =
    ShownPath nat "string option"
  | ShownUid int
  | ShownDigest bytes
  | ShownCount int
  | ShownLib nat "string option"
  | ShownLibDigest nat bytes

definition show_lib :: "int \<Rightarrow> fdigest list option \<Rightarrow> nat \<Rightarrow> shown list cres" where
  "show_lib flg libs j =
     cbind (arr_get libs j) (\<lambda>f.
     Inr (ShownLib j (fd_path f) # (if flg AND SHOW_DIGEST \<noteq> 0 then [ShownLibDigest j (fd_digest f)] else [])))"

definition show_entry :: "int \<Rightarrow> procinfo list \<Rightarrow> nat \<Rightarrow> shown list cres" where
  "show_entry flg ps i =
     cbind (cnth ps i) (\<lambda>p.
     let front = ShownPath i (pi_path p) # (if flg AND SHOW_UID \<noteq> 0 then [ShownUid (sint (pi_ruid p))] else [])
                   @ (if flg AND SHOW_DIGEST \<noteq> 0 then [ShownDigest (pi_digest p)] else [])
     in if flg AND SHOW_LIBS \<noteq> 0 then
          cbind (cmapM (show_lib flg (pi_libs p)) [0..<nat (pi_count p)]) (\<lambda>ls.
          Inr (front @ ShownCount (pi_count p) # concat ls))
        else Inr front)"

definition show_conf :: "procinfo list \<Rightarrow> int \<Rightarrow> int \<Rightarrow> shown list cres" where
  "show_conf ps proc_cnt flg =
     cbind (cmapM (show_entry flg ps) [0..<nat proc_cnt]) (\<lambda>xs. Inr (concat xs))"

section \<open>Measuring a command\<close>

record digest_item =
  dl_path :: string
  dl_digest :: bytes
  dl_len :: nat

record 'w ctsys =
  ct_ms :: "'w msys"
  ct_stat :: "string \<Rightarrow> 'w \<Rightarrow> u32 option"
  ct_popen :: "string \<Rightarrow> 'w \<Rightarrow> string list option"
  ct_contents :: "string \<Rightarrow> 'w \<Rightarrow> bytes option"
  ct_fopen_w :: "string \<Rightarrow> 'w \<Rightarrow> bool \<times> 'w"
  ct_fwrite :: "string \<Rightarrow> bytes \<Rightarrow> 'w \<Rightarrow> 'w"
  ct_uid :: u32
  ct_gid :: u32

text \<open>An item whose file cannot be measured keeps the zeros of \<open>memset\<close>.\<close>

definition digest_of :: "string \<Rightarrow> bytes option \<Rightarrow> digest_item" where
  "digest_of path dig =
     (case dig of
        None \<Rightarrow> \<lparr>dl_path = path, dl_digest = replicate 32 0, dl_len = 0\<rparr>
      | Some d \<Rightarrow> \<lparr>dl_path = path, dl_digest = d, dl_len = length d\<rparr>)"

text \<open>The line \<open>fgets\<close> gives, cut at its newline.\<close>

definition line_path :: "string \<Rightarrow> string" where
  "line_path l = takeWhile (\<lambda>c. c \<noteq> CHR 0x0A) (c_str l)"

fun read_libs ::
    "'w msys \<Rightarrow> string list \<Rightarrow> fp_htable \<Rightarrow> 'w \<Rightarrow> (digest_item list \<times> fp_htable \<times> 'w) cres" where
  "read_libs ms [] tbl w = Inr ([], tbl, w)"
| "read_libs ms (l # ls) tbl w =
     cbind (sha256_file ms (line_path l) (line_path l) tbl w) (\<lambda>((rc, dig), tbl, w).
     cbind (read_libs ms ls tbl w) (\<lambda>(ds, tbl, w).
     Inr (digest_of (line_path l) dig # ds, tbl, w)))"

definition S_IFREG :: u32 where "S_IFREG = 0x8000"

text \<open>\<open>(mode & S_IFREG) != S_IFREG || (mode & 0100) != 0100\<close> is refused.\<close>

definition executable_file :: "u32 \<Rightarrow> bool" where
  "executable_file mode \<longleftrightarrow> mode AND S_IFREG = S_IFREG \<and> mode AND 0x40 = 0x40"

text \<open>
  \<open>read_binary\<close>: the number of libraries or an error, and the list of measured
  files, the command first.
\<close>

definition read_binary ::
    "'w ctsys \<Rightarrow> string \<Rightarrow> string \<Rightarrow> fp_htable \<Rightarrow> 'w \<Rightarrow>
     (int \<times> digest_item list \<times> fp_htable \<times> 'w) cres" where
  "read_binary ct getlibs_cmd fname tbl w =
     cbind (sha256_file (ct_ms ct) fname fname tbl w) (\<lambda>((rc, dig), tbl, w).
     let cmd = digest_of fname dig in
     if rc < 0 then Inr (-1, [cmd], tbl, w)
     else case ct_stat ct getlibs_cmd w of
       None \<Rightarrow> Inr (-2, [cmd], tbl, w)
     | Some mode \<Rightarrow>
         if \<not> executable_file mode then Inr (-2, [cmd], tbl, w)
         else case ct_popen ct (take 127 (getlibs_cmd @ '' '' @ fname)) w of
           None \<Rightarrow> Inr (-1, [cmd], tbl, w)
         | Some lines \<Rightarrow>
             cbind (read_libs (ct_ms ct) lines tbl w) (\<lambda>(ds, tbl, w).
             Inr (int (length ds), cmd # ds, tbl, w)))"

text \<open>The path and the digest printed for each file.\<close>

definition measure_bin ::
    "'w ctsys \<Rightarrow> string \<Rightarrow> string \<Rightarrow> fp_htable \<Rightarrow> 'w \<Rightarrow> ((string \<times> bytes) list \<times> fp_htable \<times> 'w) cres" where
  "measure_bin ct getlibs_path file tbl w =
     cbind (read_binary ct getlibs_path file tbl w) (\<lambda>(libs_cnt, ds, tbl, w).
     if libs_cnt \<le> 0 then Inr ([], tbl, w)
     else Inr (map (\<lambda>d. (dl_path d, take (dl_len d) (dl_digest d))) ds, tbl, w))"

section \<open>Appending a command\<close>

definition digest_entry :: "digest_item \<Rightarrow> fdigest" where
  "digest_entry d = \<lparr>fd_path = Some (dl_path d), fd_digest = take 32 (dl_digest d)\<rparr>"

definition new_entry :: "'w ctsys \<Rightarrow> digest_item \<Rightarrow> digest_item list \<Rightarrow> procinfo" where
  "new_entry ct cmd ds =
     \<lparr>pi_pid = 0, pi_ppid = 0, pi_ruid = ct_uid ct, pi_rgid = ct_gid ct, pi_euid = ct_uid ct,
      pi_egid = ct_gid ct, pi_suid = ct_uid ct, pi_sgid = ct_gid ct, pi_path = Some (dl_path cmd),
      pi_digest = take 32 (dl_digest cmd), pi_count = int (length ds),
      pi_libs = Some (map digest_entry ds)\<rparr>"

text \<open>
  \<open>append_conf\<close>.  When the configuration file cannot be opened the count of its
  entries is used all the same, and was never set.  The internal error of the copy
  cannot occur, since the list has as many items as were counted.  The file is
  rewritten from the start; the results of the four \<open>fwrite\<close> calls are not looked at.
\<close>

definition append_conf ::
    "addrs \<Rightarrow> 'w ctsys \<Rightarrow> string \<Rightarrow> string \<Rightarrow> string \<Rightarrow> fp_htable \<Rightarrow> 'w \<Rightarrow> (int \<times> fp_htable \<times> 'w) cres" where
  "append_conf ad ct getlibs_path ppath afile tbl w =
     cbind (read_binary ct getlibs_path afile tbl w) (\<lambda>(libs_cnt, ds, tbl, w).
     if libs_cnt \<le> 0 then Inr (libs_cnt, tbl, w)
     else
       cbind (read_conf (ct_contents ct ppath w)) (\<lambda>r.
       case r of
         None \<Rightarrow> Inl Uninit
       | Some (oinfo, proc_cnt) \<Rightarrow>
           let entries = proc_cnt + 1;
               newpinfo = oinfo @ [new_entry ct (hd ds) (tl ds)];
               (ok, w) = ct_fopen_w ct ppath w
           in if \<not> ok then Inr (-1, tbl, w)
              else cbind (conf_image ad newpinfo entries) (\<lambda>img.
                   Inr (0, tbl, ct_fwrite ct ppath img w))))"

section \<open>The program\<close>

text \<open>
  \<open>getopt\<close> is the C library's: the options it found, with their arguments.  The path of
  \<open>getlibs.sh\<close> is the one of a build without \<open>GETLIBS_CMD\<close>.
\<close>

record toolopts =
  to_sflag :: int
  to_ppath :: string
  to_afile :: "string option"
  to_mfile :: "string option"
  to_getlibs :: string

definition toolopts_zero :: toolopts where
  "toolopts_zero = \<lparr>to_sflag = 0, to_ppath = ''./pica.conf'', to_afile = None, to_mfile = None,
     to_getlibs = ''./getlibs.sh''\<rparr>"

definition tool_option :: "toolopts \<Rightarrow> char \<times> string \<Rightarrow> toolopts cres" where
  "tool_option op = (\<lambda>(opt, arg).
     if opt = CHR ''f'' then Inr (op\<lparr>to_ppath := arg\<rparr>)
     else if opt = CHR ''b'' then Inr (op\<lparr>to_sflag := to_sflag op OR SHOW_BINARY\<rparr>)
     else if opt = CHR ''d'' then Inr (op\<lparr>to_sflag := to_sflag op OR (SHOW_DIGEST OR SHOW_LIBS)\<rparr>)
     else if opt = CHR ''u'' then Inr (op\<lparr>to_sflag := to_sflag op OR (SHOW_UID OR SHOW_LIBS)\<rparr>)
     else if opt = CHR ''s'' then Inr (op\<lparr>to_sflag := SHOW_ALL\<rparr>)
     else if opt = CHR ''a'' then Inr (op\<lparr>to_afile := Some arg\<rparr>)
     else if opt = CHR ''m'' then Inr (op\<lparr>to_mfile := Some arg\<rparr>)
     else if opt = CHR ''c'' then Inr (op\<lparr>to_getlibs := arg\<rparr>)
     else Inl Abort)"

datatype tool_output =
    Measured "(string \<times> bytes) list"
  | Appended
  | Shown "shown list"
  | Nothing

text \<open>
  \<open>noargs\<close> is \<open>argc == 1\<close>.  When the file cannot be read the message is followed
  by \<open>show_conf\<close> all the same, with a count that was never set.
\<close>

definition conftool_main ::
    "addrs \<Rightarrow> 'w ctsys \<Rightarrow> bool \<Rightarrow> (char \<times> string) list \<Rightarrow> 'w \<Rightarrow> (tool_output \<times> 'w) cres" where
  "conftool_main ad ct noargs options w =
     cbind (cfold tool_option toolopts_zero options) (\<lambda>op.
     case to_mfile op of
       Some m \<Rightarrow> cbind (measure_bin ct (to_getlibs op) m filepath_htable w) (\<lambda>(out, tbl, w). Inr (Measured out, w))
     | None \<Rightarrow>
       case to_afile op of
         Some a \<Rightarrow> cbind (append_conf ad ct (to_getlibs op) (to_ppath op) a filepath_htable w) (\<lambda>(rc, tbl, w).
                   Inr (Appended, w))
       | None \<Rightarrow>
         if noargs \<or> to_sflag op \<noteq> 0 then
           cbind (read_conf (ct_contents ct (to_ppath op) w)) (\<lambda>r.
           case r of
             None \<Rightarrow> Inl Uninit
           | Some (cpif, proc_cnt) \<Rightarrow>
               cbind (show_conf cpif proc_cnt (to_sflag op)) (\<lambda>xs. Inr (Shown xs, w)))
         else Inr (Nothing, w))"

section \<open>Sealed configuration files\<close>

text \<open>
  The enclave of \<open>pica_tools\<close>.  The edge code hands the enclave a zeroed buffer of
  \<open>len_out\<close> bytes and copies it out whatever the status is.  The results are the
  status, that buffer and the length stored.
\<close>

definition SGX_ERROR_OUT_OF_MEMORY :: u32 where "SGX_ERROR_OUT_OF_MEMORY = 3"

definition tool_seal :: "sealer \<Rightarrow> bool \<Rightarrow> bytes \<Rightarrow> u32 \<Rightarrow> (u32 \<times> bytes \<times> u32) cres" where
  "tool_seal sl mem dat len_out =
     (let outp = replicate (unat len_out) 0; enclen = calc_sealed_size sl (of_nat (length dat)) in
      if \<not> mem then Inr (SGX_ERROR_OUT_OF_MEMORY, outp, 0)
      else case seal_data sl dat of (err, enc) \<Rightarrow>
        if err \<noteq> 0 then Inr (err, outp, 0)
        else cbind (buf_get (buf_store (unat enclen) enc) 0 (unat enclen)) (\<lambda>enc.
             cbind (buf_put outp 0 enc) (\<lambda>outp. Inr (0, outp, enclen))))"

definition tool_unseal :: "sealer \<Rightarrow> bool \<Rightarrow> bytes \<Rightarrow> u32 \<Rightarrow> (u32 \<times> bytes \<times> u32) cres" where
  "tool_unseal sl mem dat len_out =
     (let outp = replicate (unat len_out) 0; dlen = encrypt_txt_len sl dat in
      if \<not> mem then Inr (SGX_ERROR_OUT_OF_MEMORY, outp, 0)
      else case unseal_data sl dat of (st, dlen', dec) \<Rightarrow>
        if st \<noteq> 0 then Inr (st, outp, 0)
        else cbind (buf_get (buf_store (unat dlen) dec) 0 (unat dlen')) (\<lambda>dec.
             cbind (buf_put outp 0 dec) (\<lambda>outp. Inr (0, outp, dlen'))))"

text \<open>
  \<open>read_conf\<close> of \<open>pica_tools/conftool.c\<close>.  \<open>ecall\<close> says whether the edge call reaches the
  enclave, \<open>mem\<close> whether the enclave has memory; the status of neither call nor
  enclave is looked at, nor is the length unsealed.  The lengths are cut to 32 bits.
  The pointers are computed before any is used; the start of the string area has to stay
  within the buffer's address range when there are entries.
\<close>

definition sealed_read_conf ::
    "sealer \<Rightarrow> bool \<Rightarrow> bool \<Rightarrow> 'w os \<Rightarrow> string \<Rightarrow> 'w \<Rightarrow> ((procinfo list \<times> int) option \<times> 'w) cres" where
  "sealed_read_conf sl ecall mem os path w =
     (let ((fd, sz), w) = file_size os path w in
      if fd < 0 then Inr (None, w)
      else
        let ((rsz, encdat), w) = file_read_close os fd sz w in
        if rsz \<noteq> sz then Inr (None, w)
        else
          let len = (ucast rsz :: u32) in
          cbind (if ecall
                 then cbind (tool_unseal sl mem (take (unat len) encdat) len) (\<lambda>(st, outp, dec_sz). Inr outp)
                 else Inr []) (\<lambda>outp.
          let decdat = buf_store (unat rsz) outp in
          cbind (get_struct dec_confhead CONFHEAD_SZ decdat 0 0) (\<lambda>head.
          let proc_cnt = sint (ch_proc_cnt head); fdig_cnt = sint (ch_fdig_cnt head);
              fdp = CONFHEAD_SZ + PROCINFO_SZ * nat proc_cnt;
              sbuf = int fdp + int FDIGEST_SZ * fdig_cnt
          in if 0 < proc_cnt \<and> sbuf < 0 then Inl OutOfBounds
             else cbind (cmapM (conf_entry decdat CONFHEAD_SZ fdp (nat fdig_cnt) (nat sbuf)) [0..<nat proc_cnt]) (\<lambda>ps.
                  Inr (Some (ps, proc_cnt), w)))))"

text \<open>
  The sealed tool measures like the other one, and does not append.  \<open>created\<close> says
  whether its enclave can be created.
\<close>

definition sealed_main ::
    "sealer \<Rightarrow> bool \<Rightarrow> bool \<Rightarrow> bool \<Rightarrow> 'w ctsys \<Rightarrow> (char \<times> string) list \<Rightarrow> 'w \<Rightarrow> (tool_output \<times> 'w) cres" where
  "sealed_main sl created ecall mem ct options w =
     cbind (cfold tool_option toolopts_zero options) (\<lambda>op.
     case to_mfile op of
       Some m \<Rightarrow> cbind (measure_bin ct (to_getlibs op) m filepath_htable w) (\<lambda>(out, tbl, w). Inr (Measured out, w))
     | None \<Rightarrow>
       if \<not> created \<or> to_afile op \<noteq> None then Inr (Nothing, w)
       else
         cbind (sealed_read_conf sl ecall mem (m_os (ct_ms ct)) (to_ppath op) w) (\<lambda>(r, w).
         case r of
           None \<Rightarrow> Inl Uninit
         | Some (cpif, proc_cnt) \<Rightarrow>
             cbind (show_conf cpif proc_cnt (to_sflag op)) (\<lambda>xs. Inr (Shown xs, w))))"

section \<open>Typing\<close>

text \<open>
  The shape of an entry read from a file, whatever its bytes are: its strings are
  C strings, its digests have 32 bytes, and its library array has as many
  elements as its count says.
\<close>

definition typed_procinfo :: "procinfo \<Rightarrow> bool" where
  "typed_procinfo p \<longleftrightarrow>
     (\<exists>s. pi_path p = Some s \<and> nul_free s) \<and> length (pi_digest p) = 32 \<and>
     (if pi_count p > 0
      then \<exists>ls. pi_libs p = Some ls \<and> int (length ls) = pi_count p \<and> (\<forall>f \<in> set ls. wf_fdigest f)
      else pi_libs p = None)"

lemma conf_lib_wf: "conf_lib b fdp cnt sbuf k = Inr f \<Longrightarrow> wf_fdigest f"
  by (auto simp: conf_lib_def wf_fdigest_def get_struct_def dec_rfdigest_def cbind_eq_Inr
      split: if_splits dest!: buf_get_length dest: cstr_at_nul_free)

lemma conf_libs_wf:
  "cmapM (conf_lib b fdp cnt sbuf) is = Inr ls \<Longrightarrow> length ls = length is \<and> (\<forall>f \<in> set ls. wf_fdigest f)"
  using cmapM_length cmapM_set conf_lib_wf by metis

lemma get_struct_digest: "get_struct dec_rprocinfo PROCINFO_SZ b base i = Inr r \<Longrightarrow> length (rp_digest r) = 32"
  by (auto simp: get_struct_def dec_rprocinfo_def Let_def cbind_eq_Inr dest!: buf_get_length)

lemma conf_entry_typed:
  assumes "conf_entry b cpif fdp cnt sbuf i = Inr p"
  shows "typed_procinfo p"
proof -
  from assms obtain r path libs where r: "get_struct dec_rprocinfo PROCINFO_SZ b cpif i = Inr r"
    and path: "cstr_at b (sbuf + unat (rp_spos r)) = Inr path"
    and libs: "(if sint (rp_count r) > 0
            then cbind (cmapM (conf_lib b fdp cnt sbuf)
                          [unat (rp_fpos r)..<unat (rp_fpos r) + nat (sint (rp_count r))]) (\<lambda>ls. Inr (Some ls))
            else Inr None) = Inr libs"
    and p: "pi_path p = Some path" "pi_digest p = rp_digest r" "pi_count p = sint (rp_count r)" "pi_libs p = libs"
    unfolding conf_entry_def Let_def by (elim cbindE) auto
  show ?thesis
    using get_struct_digest [OF r] cstr_at_nul_free [OF path] libs
    by (cases "sint (rp_count r) > 0") (auto simp: typed_procinfo_def p cbind_eq_Inr dest!: conf_libs_wf)
qed

lemma conf_entries_typed:
  "cmapM (conf_entry b cpif fdp cnt sbuf) is = Inr ps \<Longrightarrow> length ps = length is \<and> (\<forall>p \<in> set ps. typed_procinfo p)"
  using cmapM_length cmapM_set conf_entry_typed by metis

lemma read_conf_typed:
  assumes "read_conf data = Inr (Some (ps, n))"
  shows "int (length ps) = n \<and> (\<forall>p \<in> set ps. typed_procinfo p)"
  using assms
  by (auto simp: read_conf_def Let_def case_prod_beta cbind_eq_Inr split: option.splits if_splits
      dest!: conf_entries_typed)

lemma show_entry_total:
  assumes "typed_procinfo (ps ! i)" "i < length ps"
  shows "\<exists>xs. show_entry flg ps i = Inr xs"
proof (cases "pi_count (ps ! i) > 0")
  case True
  then obtain ls where ls: "pi_libs (ps ! i) = Some ls" "int (length ls) = pi_count (ps ! i)"
    using assms(1) by (auto simp: typed_procinfo_def)
  then have "\<exists>ys. cmapM (show_lib flg (pi_libs (ps ! i))) [0..<nat (pi_count (ps ! i))] = Inr ys"
    by (intro cmapM_Inr_ex) (auto simp: show_lib_def)
  then show ?thesis using assms(2) by (auto simp: show_entry_def Let_def)
qed (use assms(2) in \<open>simp add: show_entry_def Let_def\<close>)


text \<open>The client's reader gives typed entries too.\<close>

lemma build_conf_typed:
  "build_conf buf sz = Inr (n, Val ps) \<Longrightarrow> \<forall>p \<in> set ps. typed_procinfo p"
  by (auto simp: build_conf_def Let_def cbind_eq_Inr split: if_splits dest!: conf_entries_typed)

section \<open>A file that \<open>reg_config\<close> or the tool wrote\<close>

lemma fread_items_exact:
  assumes "length bs = sz * n" "0 < sz"
  shows "fread_items sz n (bs @ rest) = (map Val bs, rest)"
proof -
  have "n \<le> length (bs @ rest) div sz" using assms by (simp add: less_eq_div_iff_mult_less_eq mult.commute)
  then have "min n (length (bs @ rest) div sz) = n" by simp
  then show ?thesis using assms(1) buf_store_full [of bs] by (simp add: fread_items_def)
qed

lemma read_conf_image:
  assumes wf: "\<forall>p \<in> set ps. wf_procinfo p" and b: "conf_bounds ps"
  shows "read_conf (Some (image_of ad ps)) = Inr (Some (ps, int (length ps)))"
proof -
  let ?h = "conf_header (int (length ps)) (int (length (all_libs ps))) (length (all_strs ps))"
  let ?A = "struct_array enc_rprocinfo (lay_procs ad 0 0 ps)" and ?B = "struct_array enc_rfdigest (lay_fdigs 0 ps)"
  have magic: "length (ch_magic ?h) = 8" by (simp add: conf_header_def PROCCONF_MAGIC_def)
  note lenh = ch_codec.length_enc [of ?h, OF magic]
  have lenA: "length ?A = PROCINFO_SZ * length ps"
    using pi_codec.length_array [OF lay_digests [OF wf]] by simp
  have lenB: "length ?B = FDIGEST_SZ * length (all_libs ps)"
    using fd_codec.length_array [OF lay_fdigs_digests [OF wf]] by simp
  have bounds: "length ps < 2 ^ 31" "length (all_libs ps) < 2 ^ 31" "length (all_strs ps) < 2 ^ 31"
    using b by (simp_all add: conf_bounds_def)
  have fields: "ch_proc_cnt ?h = word_of_nat (length ps)" "ch_fdig_cnt ?h = word_of_nat (length (all_libs ps))"
    "ch_str_size ?h = word_of_nat (length (all_strs ps))"
    by (simp_all add: conf_header_def)
  have parts: "fread_items CONFHEAD_SZ 1 (image_of ad ps) = (map Val (enc_confhead ?h), ?A @ ?B @ all_strs ps)"
    "fread_items PROCINFO_SZ (length ps) (?A @ ?B @ all_strs ps) = (map Val ?A, ?B @ all_strs ps)"
    "fread_items FDIGEST_SZ (length (all_libs ps)) (?B @ all_strs ps) = (map Val ?B, all_strs ps)"
    "fread_items 1 (length (all_strs ps)) (all_strs ps) = (map Val (all_strs ps), [])"
    unfolding image_of_def using lenh lenA lenB fread_items_exact [of "all_strs ps" 1 "length (all_strs ps)" "[]"]
    by (simp_all add: fread_items_exact)
  have head: "get_struct dec_confhead CONFHEAD_SZ (map Val (enc_confhead ?h)) 0 0 = Inr ?h"
    using ch_codec.get_struct_array [where xs = "[?h]" and i = 0 and base = 0 and pre = "[]" and post = "[]"] magic
    by (simp add: struct_array_def)
  have "conf_entry (map Val ((?A @ ?B) @ all_strs ps)) 0 (length ?A) (length (all_libs ps)) (length (?A @ ?B)) i
      = Inr (ps ! i)" if "i < length ps" for i
    by (rule conf_entry_image [OF wf b that, where hdr = "[]" and ad = ad]) simp_all
  then have "cmapM (conf_entry (map Val ?A @ map Val ?B @ map Val (all_strs ps)) 0 (length ?A)
      (length (all_libs ps)) (length ?A + length ?B)) [0..<length ps] = Inr (map (\<lambda>i. ps ! i) [0..<length ps])"
    by (intro cmapM_Inr_map) simp
  then show ?thesis
    using bounds by (simp add: read_conf_def parts head fields map_nth del: One_nat_def)
qed

section \<open>Appending\<close>

definition digest_ok :: "digest_item \<Rightarrow> bool" where
  "digest_ok d \<longleftrightarrow> nul_free (dl_path d) \<and> length (dl_digest d) = 32"

lemma nul_free_line_path [simp]: "nul_free (line_path l)"
  using nul_free_c_str [of l] by (auto simp: line_path_def nul_free_def dest: set_takeWhileD)

lemma digest_of_path [simp]: "dl_path (digest_of path dig) = path"
  by (simp add: digest_of_def split: option.splits)

lemma digest_of_ok:
  "nul_free path \<Longrightarrow> (case dig of None \<Rightarrow> rc = -1 | Some d \<Rightarrow> rc = 0 \<and> length d = 32) \<Longrightarrow> digest_ok (digest_of path dig)"
  by (auto simp: digest_ok_def digest_of_def split: option.splits)

lemma read_libs_ok:
  assumes "read_libs ms ls tbl w = Inr (ds, tbl', w')" "sized_cache tbl" "\<forall>x. length (m_sha256 ms x) = 32"
  shows "(\<forall>d \<in> set ds. digest_ok d) \<and> map dl_path ds = map line_path ls"
  using assms(1,2)
proof (induction ls arbitrary: tbl w ds)
  case (Cons l ls)
  from Cons.prems(1) obtain rc dig t1 w1 ds1 where
    run: "sha256_file ms (line_path l) (line_path l) tbl w = Inr ((rc, dig), t1, w1)"
      "read_libs ms ls t1 w1 = Inr (ds1, tbl', w')" "ds = digest_of (line_path l) dig # ds1"
    by (auto simp: cbind_eq_Inr)
  note s = sha256_file_sized [OF run(1) Cons.prems(2) assms(3)]
  then show ?case
    using Cons.IH [OF run(2)] digest_of_ok [OF nul_free_line_path] by (auto simp: run(3))
qed simp

lemma read_binary_ok:
  assumes "read_binary ct getlibs fname tbl w = Inr (n, ds, tbl', w')" "0 < n" "nul_free fname" "sized_cache tbl"
    and "\<forall>x. length (m_sha256 (ct_ms ct) x) = 32"
  shows "\<exists>cmd libs. ds = cmd # libs \<and> dl_path cmd = fname \<and> n = int (length libs) \<and> (\<forall>d \<in> set ds. digest_ok d)"
proof -
  from assms(1) obtain rc dig t1 w1 where m: "sha256_file (ct_ms ct) fname fname tbl w = Inr ((rc, dig), t1, w1)"
    by (auto simp: read_binary_def cbind_eq_Inr)
  note s = sha256_file_sized [OF m assms(4,5)]
  obtain lines libs where "read_libs (ct_ms ct) lines t1 w1 = Inr (libs, tbl', w')"
    "ds = digest_of fname dig # libs" "n = int (length libs)"
    using assms(1,2) by (auto simp: read_binary_def m Let_def cbind_eq_Inr split: if_splits option.splits)
  with s read_libs_ok [OF this(1) _ assms(5)] digest_of_ok [OF assms(3)] show ?thesis by auto
qed

lemma new_entry_wf:
  assumes "digest_ok cmd" "\<forall>d \<in> set libs. digest_ok d" "libs \<noteq> []"
  shows "wf_procinfo (new_entry ct cmd libs)"
  using assms by (auto simp: wf_procinfo_def new_entry_def wf_fdigest_def digest_entry_def digest_ok_def)

text \<open>
  C36.  Appending keeps the file and adds the command: when the configuration file
  is the image of completely filled entries and the command and at least one library
  could be listed, \<open>append_conf\<close> succeeds, and both the tool and \<open>build_conf\<close> read
  the old entries and after them the new one, with the digests just measured and
  the ids of the caller.
\<close>

theorem append_conf_appends:
  assumes cmd: "nul_free afile" and cache: "sized_cache tbl" and sha: "\<forall>x. length (m_sha256 (ct_ms ct) x) = 32"
    and measured: "read_binary ct getlibs afile tbl w = Inr (n, ds, tbl1, w1)" "0 < n"
    and conf: "ct_contents ct ppath w1 = Some (image_of ad0 ps)" "\<forall>p \<in> set ps. wf_procinfo p"
      "conf_bounds (ps @ [new_entry ct (hd ds) (tl ds)])"
    and opened: "ct_fopen_w ct ppath w1 = (True, w2)"
    and written: "\<forall>img. ct_contents ct ppath (ct_fwrite ct ppath img w2) = Some img"
  shows "\<exists>w3 img. append_conf ad ct getlibs ppath afile tbl w = Inr (0, tbl1, w3) \<and>
     ct_contents ct ppath w3 = Some img \<and>
     read_conf (Some img) = Inr (Some (ps @ [new_entry ct (hd ds) (tl ds)], int (length ps) + 1)) \<and>
     build_conf (Some (map Val img)) (of_nat (length img))
       = Inr (int (length ps) + 1, Val (ps @ [new_entry ct (hd ds) (tl ds)]))"
proof -
  let ?new = "new_entry ct (hd ds) (tl ds)" and ?ps = "ps @ [new_entry ct (hd ds) (tl ds)]"
  obtain c libs where ds: "ds = c # libs" "n = int (length libs)" "\<forall>d \<in> set ds. digest_ok d"
    using read_binary_ok [OF measured cmd cache sha] by blast
  with measured(2) have "wf_procinfo ?new" by (intro new_entry_wf) auto
  then have wf: "\<forall>p \<in> set ?ps. wf_procinfo p" using conf(2) by auto
  have "conf_bounds ps" using conf(3) by (simp add: conf_bounds_def)
  then have old: "read_conf (Some (image_of ad0 ps)) = Inr (Some (ps, int (length ps)))"
    by (rule read_conf_image [OF conf(2)])
  have img: "conf_image ad ?ps (int (length ps) + 1) = Inr (image_of ad ?ps)"
    using conf_image_wf [OF wf, of ad] by (simp add: add.commute)
  have "append_conf ad ct getlibs ppath afile tbl w = Inr (0, tbl1, ct_fwrite ct ppath (image_of ad ?ps) w2)"
    using measured opened by (simp add: append_conf_def conf(1) old img)
  then show ?thesis
    using written read_conf_image [OF wf conf(3), of ad] build_conf_image [OF wf conf(3), of ad]
    by (intro exI conjI) (assumption | simp add: add.commute)+
qed

text \<open>Without a file to start from the count that was never set is used.\<close>

lemma append_needs_file:
  assumes "read_binary ct getlibs afile tbl w = Inr (n, ds, tbl1, w1)" "0 < n" "ct_contents ct ppath w1 = None"
  shows "append_conf ad ct getlibs ppath afile tbl w = Inl Uninit"
  using assms by (simp add: append_conf_def read_conf_def)

section \<open>Reading sealed files\<close>

text \<open>What the enclave seals it unseals, when the SDK does.\<close>

lemma tool_unseal_seal:
  assumes "seal_data sl dat = (0, enc)" "calc_sealed_size sl (of_nat (length dat)) = of_nat (length enc)"
    and "length enc < 2 ^ 32" "length dat \<le> length enc"
    and "unseal_data sl enc = (0, of_nat (length dat), dat)" "encrypt_txt_len sl enc = of_nat (length dat)"
    and "tool_seal sl True dat (of_nat (length enc)) = Inr (st, outp, n)"
  shows "st = 0 \<and> n = of_nat (length enc) \<and>
     tool_unseal sl True outp (of_nat (length enc))
       = Inr (0, dat @ replicate (length enc - length dat) 0, of_nat (length dat))"
proof -
  have u: "unat (of_nat (length enc) :: u32) = length enc" "unat (of_nat (length dat) :: u32) = length dat"
    using assms(3,4) by (simp_all add: unat_of_nat)
  have "st = 0 \<and> n = of_nat (length enc) \<and> outp = enc"
    using assms(7) by (auto simp: tool_seal_def assms(1,2) u buf_get_Val buf_put_def)
  then show ?thesis
    using assms(4) by (simp add: tool_unseal_def assms(5,6) u buf_get_Val buf_put_def)
qed

text \<open>
  A file that does not unseal is shown as an empty configuration: the enclave
  leaves the zeroed buffer, and nobody looks at the status.
\<close>

lemma sealed_conf_bad_seal:
  assumes "file_size os path w = ((fd, sz), w1)" "0 \<le> fd" "file_read_close os fd sz w1 = ((sz, encdat), w2)"
    and "20 \<le> unat sz" "unat sz < 2 ^ 32"
    and "unseal_data sl (take (unat sz) encdat) = (st, n, dec)" "st \<noteq> 0"
  shows "sealed_read_conf sl True mem os path w = Inr (Some ([], 0), w2)"
proof -
  have len: "unat (ucast sz :: u32) = unat sz" using assms(5) by (simp add: unsigned_ucast_eq take_bit_nat_eq_self)
  have un: "\<exists>r n'. tool_unseal sl mem (take (unat sz) encdat) (ucast sz) = Inr (r, replicate (unat sz) 0, n')"
    using assms(6,7) by (simp add: tool_unseal_def len Let_def)
  have head: "get_struct dec_confhead CONFHEAD_SZ (map Val (replicate (unat sz) 0)) 0 0
      = Inr (dec_confhead (replicate 20 0))"
    using assms(4) by (simp add: get_struct_def buf_get_Val del: map_replicate)
  have zero: "ch_proc_cnt (dec_confhead (replicate 20 0)) = 0"
    by (simp add: dec_confhead_def numeral_eq_Suc)
  have "buf_store (unat sz) (replicate (unat sz) 0) = map Val (replicate (unat sz) 0)"
    using buf_store_full [of "replicate (unat sz) (0::byte)"] by simp
  with un head zero assms(2) show ?thesis
    by (auto simp: sealed_read_conf_def assms(1,3) len Let_def)
qed

section \<open>A concrete tool\<close>

text \<open>
  A world that is the text of the one configuration file, where every file has the same two
  bytes and each command needs one library.
\<close>

definition ex_tool :: "bytes ctsys" where
  "ex_tool = \<lparr>ct_ms = ex_msys 3, ct_stat = (\<lambda>_ _. Some 0x8040), ct_popen = (\<lambda>_ _. Some [''/l'' @ [CHR 0x0A]]),
     ct_contents = (\<lambda>_ w. Some w), ct_fopen_w = (\<lambda>_ _. (True, [])), ct_fwrite = (\<lambda>_ bs w. w @ bs),
     ct_uid = 1000, ct_gid = 100\<rparr>"

definition ex_digest :: bytes where "ex_digest = replicate 31 7 @ [2]"

definition ex_cache :: fp_htable where
  "ex_cache = filepath_htable[0 := [\<lparr>fe_path = MStr ''/b'', fe_digest = ex_digest\<rparr>]]"

lemma ex_measure: "measure_file (ex_msys 3) path w = (Some [1, 2], w)"
  by (simp add: measure_file_def ex_msys_def ex_mos_def ms_good_def Let_def)

lemma ex_sha: "m_sha256 (ex_msys 3) [1, 2] = ex_digest" "\<forall>x. length (m_sha256 (ex_msys 3) x) = 32"
  by (simp_all add: ex_msys_def ex_digest_def)

lemma ex_cmd: "sha256_file (ex_msys 3) ''/b'' ''/b'' filepath_htable w = Inr ((0, Some ex_digest), ex_cache, w)"
proof -
  have find: "find_hashentry (m_murmur (ex_msys 3)) filepath_htable ''/b'' = Inr (0, 0, filepath_htable)"
    by (simp add: find_hashentry_def mhash_def ex_msys_def filepath_htable_def MTABLE_SZ_def fp_zero_def)
  have fresh: "fe_path ((filepath_htable ! 0) ! 0) = MNone" "0 < length filepath_htable" "filepath_htable ! 0 = [fp_zero]"
    by (simp_all add: filepath_htable_def MTABLE_SZ_def fp_zero_def)
  show ?thesis
    by (simp add: sha256_file_fresh [OF find fresh(1)] ex_measure ex_sha Let_def)
      (simp add: set_entry_def filled_def cached_path_def ex_cache_def fresh fp_zero_def ex_digest_def)
qed

lemma ex_lib: "\<exists>tbl. sha256_file (ex_msys 3) ''/l'' ''/l'' ex_cache w = Inr ((0, Some ex_digest), tbl, w)"
proof -
  have b: "0 < length ex_cache" "ex_cache ! 0 = [\<lparr>fe_path = MStr ''/b'', fe_digest = ex_digest\<rparr>]"
    by (simp_all add: ex_cache_def filepath_htable_def MTABLE_SZ_def)
  have find: "find_hashentry (m_murmur (ex_msys 3)) ex_cache ''/l'' = Inr (0, 1, ex_cache[0 := ex_cache ! 0 @ [fp_zero]])"
    using b by (simp add: find_hashentry_def mhash_def ex_msys_def mpath_eq_def)
  have fresh: "fe_path ((ex_cache[0 := ex_cache ! 0 @ [fp_zero]]) ! 0 ! 1) = MNone"
    using b by (simp add: fp_zero_def)
  show ?thesis
    by (simp add: sha256_file_fresh [OF find fresh] ex_measure ex_sha Let_def)
qed

definition ex_item :: "string \<Rightarrow> digest_item" where
  "ex_item s = \<lparr>dl_path = s, dl_digest = ex_digest, dl_len = 32\<rparr>"

lemma ex_binary:
  "\<exists>tbl. read_binary ex_tool ''g'' ''/b'' filepath_htable w = Inr (1, [ex_item ''/b'', ex_item ''/l''], tbl, w)"
proof -
  have [simp]: "line_path (''/l'' @ [CHR 0x0A]) = ''/l''" by (simp add: line_path_def c_str_def)
  have item: "digest_of s (Some ex_digest) = ex_item s" for s
    by (simp add: digest_of_def ex_item_def ex_digest_def)
  obtain tbl where lib: "sha256_file (ex_msys 3) ''/l'' ''/l'' ex_cache w = Inr ((0, Some ex_digest), tbl, w)"
    using ex_lib [of w] by blast
  have libs: "read_libs (ex_msys 3) [''/l'' @ [CHR 0x0A]] ex_cache w = Inr ([ex_item ''/l''], tbl, w)"
    using lib by (simp only: read_libs.simps) (simp add: item line_path_def c_str_def)
  show ?thesis
    using libs ex_cmd [of w]
    by (intro exI [of _ tbl])
      (simp add: read_binary_def ex_tool_def executable_file_def S_IFREG_def item)
qed


theorem append_conf_appends_witness:
  "\<exists>tbl w3 img. append_conf ex_addrs ex_tool ''g'' ''c'' ''/b'' filepath_htable (image_of ex_addrs ex_conf) = Inr (0, tbl, w3) \<and>
     ct_contents ex_tool ''c'' w3 = Some img \<and>
     read_conf (Some img) = Inr (Some (ex_conf @ [new_entry ex_tool (ex_item ''/b'') [ex_item ''/l'']], 3)) \<and>
     build_conf (Some (map Val img)) (of_nat (length img))
       = Inr (3, Val (ex_conf @ [new_entry ex_tool (ex_item ''/b'') [ex_item ''/l'']]))"
proof -
  let ?img = "image_of ex_addrs ex_conf" and ?ds = "[ex_item ''/b'', ex_item ''/l'']"
  obtain tbl where run: "read_binary ex_tool ''g'' ''/b'' filepath_htable ?img = Inr (1, ?ds, tbl, ?img)"
    using ex_binary [of ?img] by blast
  have sha: "\<forall>x. length (m_sha256 (ct_ms ex_tool) x) = 32" using ex_sha(2) by (simp add: ex_tool_def)
  have files: "ct_contents ex_tool ''c'' ?img = Some ?img" "ct_fopen_w ex_tool ''c'' ?img = (True, [])"
    "\<forall>img. ct_contents ex_tool ''c'' (ct_fwrite ex_tool ''c'' img []) = Some img"
    by (simp_all add: ex_tool_def)
  have bounds: "conf_bounds (ex_conf @ [new_entry ex_tool (hd ?ds) (tl ?ds)])"
    by (simp add: conf_bounds_def ex_conf_def new_entry_def digest_entry_def ex_item_def all_libs_def all_strs_def
        proc_strs_def lib_strs_def libs_of_def zstr_def to_bytes_def procinfo_zero_def)
  have n: "int (length ex_conf) + 1 = 3" by (simp add: ex_conf_def)
  have cmd: "nul_free ''/b''" and pos: "0 < (1::int)" by simp_all
  from append_conf_appends [OF cmd sized_cache_init sha run pos files(1) ex_conf_wf(1) bounds files(2,3), of ex_addrs]
  show ?thesis by (simp only: n list.sel) blast
qed

end
