(* ===== verification/Cert.thy ===== *)
theory Cert
  imports Tpm2_Claims
begin

text \<open>
  Certificates that carry attestation evidence (\<open>src/libcert.c\<close>): how the key pair,
  the evidence and the self-signed certificate are made, and how the contents
  of a peer's certificate are verified.

  A certificate is its public key and the list of its extensions.  OpenSSL and
  the quoting enclave are the parameters \<open>certlib\<close> and \<open>qgen\<close>.
\<close>

unbundle bit_operations_syntax

section \<open>Certificates\<close>

record 'k cert =
  x_pubkey :: "'k option"
  x_exts :: "(string \<times> bytes) list"

record genkey =
  gk_new :: bool
  gk_ctx :: bool
  gk_init :: int
  gk_curve :: int
  gk_keygen :: int

text \<open>
  Results of OpenSSL: BIO creation, PEM text of keys (\<open>None\<close>: the call fails),
  object creation from an OID, allocation, \<open>X509_verify_cert\<close>, the three setters
  whose result is checked, the octets of a standard extension, and the two keys
  \<open>EVP_PKEY_keygen\<close> leaves when it succeeds and when it fails.
\<close>

record 'k certlib =
  cb_bio :: bool
  cb_pub_pem :: "'k \<Rightarrow> bytes option"
  cb_priv_pem :: "'k \<Rightarrow> bytes option"
  cb_obj :: "string \<Rightarrow> bool"
  cb_malloc :: "nat \<Rightarrow> bool"
  cb_verify :: "'k cert \<Rightarrow> bool"
  cb_set_pubkey :: bool
  cb_set_subject :: bool
  cb_set_issuer :: bool
  cb_ext :: "string \<Rightarrow> bytes option"
  cb_genkey :: genkey
  cb_key :: 'k
  cb_empty_key :: 'k

definition TCG_DICE_TAGGED_OID_STR :: string where "TCG_DICE_TAGGED_OID_STR = ''2.23.133.5.4.9''"
definition X509_OID_FOR_QUOTE_STRING :: string where "X509_OID_FOR_QUOTE_STRING = ''1.2.840.113741.1.13.1''"

text \<open>\<open>X509_get_ext_by_OBJ (x509, obj, -1)\<close>: index of the first extension with the OID, or \<open>-1\<close>.\<close>

fun ext_loc :: "(string \<times> bytes) list \<Rightarrow> string \<Rightarrow> int \<Rightarrow> int" where
  "ext_loc [] oid i = -1"
| "ext_loc (e # es) oid i = (if fst e = oid then i else ext_loc es oid (i + 1))"

text \<open>Bytes read from a memory BIO that holds them all; \<open>-1\<close> from an empty one.\<close>

definition bio_read :: "bytes \<Rightarrow> int" where
  "bio_read pem = (if pem = [] then -1 else int (length pem))"

section \<open>Verification of the contents\<close>

type_synonym 'w verify_func = "bytes \<Rightarrow> bytes \<Rightarrow> bytes \<Rightarrow> 'w \<Rightarrow> (int \<times> 'w) cres"

definition verify_tab :: "sgxenv \<Rightarrow> 'w qve \<Rightarrow> (string \<times> 'w verify_func) list" where
  "verify_tab env qe =
     [(TCG_DICE_TAGGED_OID_STR, verify_SGX_evidence env qe),
      (X509_OID_FOR_QUOTE_STRING, \<lambda>oct pem nonce w. Inr (verify_SGX_quote oct pem nonce, w))]"

text \<open>
  The loop over the table.  \<open>rc\<close> enters with the result of \<open>BIO_read\<close>, which is
  returned when no entry is found.
\<close>

fun verify_loop ::
    "('k certlib) \<Rightarrow> (string \<times> 'w verify_func) list \<Rightarrow> 'k cert \<Rightarrow> bytes \<Rightarrow> bytes \<Rightarrow> int \<Rightarrow> 'w \<Rightarrow> (int \<times> 'w) cres" where
  "verify_loop cb [] x509 pubkey nonce rc w = Inr (rc, w)"
| "verify_loop cb ((oid, verify_func) # tab) x509 pubkey nonce rc w =
     (if \<not> cb_obj cb oid then verify_loop cb tab x509 pubkey nonce rc w
      else
        let loc = ext_loc (x_exts x509) oid 0 in
        if loc > 0 then verify_func (snd (x_exts x509 ! nat loc)) pubkey nonce w
        else verify_loop cb tab x509 pubkey nonce rc w)"

definition verify_contents ::
    "sgxenv \<Rightarrow> 'w qve \<Rightarrow> 'k certlib \<Rightarrow> 'k cert \<Rightarrow> bytes \<Rightarrow> 'w \<Rightarrow> (int \<times> 'w) cres" where
  "verify_contents env qe cb x509 nonce w =
     (case x_pubkey x509 of
        None \<Rightarrow> Inr (0, w)
      | Some pkey \<Rightarrow>
          if \<not> cb_bio cb then Inr (0, w)
          else case cb_pub_pem cb pkey of
             None \<Rightarrow> Inr (0, w)
           | Some pem \<Rightarrow>
               if \<not> cb_malloc cb (length pem + 1) then Inr (1, w)
               else verify_loop cb (verify_tab env qe) x509 pem nonce (bio_read pem) w)"

datatype side = WHICH_SERVERSIDE | WHICH_CLIENTSIDE

definition verify_cert ::
    "sgxenv \<Rightarrow> 'w qve \<Rightarrow> 'k certlib \<Rightarrow> 'k cert \<Rightarrow> bytes \<Rightarrow> side \<Rightarrow> 'w \<Rightarrow> (int \<times> 'w) cres" where
  "verify_cert env qe cb x509 nonce which w =
     (if \<not> cb_verify cb x509 then Inr (-1, w)
      else if which = WHICH_CLIENTSIDE then Inr (VERIFIED_EVIDENCE, w)
      else verify_contents env qe cb x509 nonce w)"

section \<open>Keys\<close>

text \<open>When \<open>EVP_PKEY_keygen\<close> fails, the empty key made before it is returned.\<close>

definition genpkey :: "'k certlib \<Rightarrow> 'k option" where
  "genpkey cb =
     (let g = cb_genkey cb in
      if \<not> gk_new g then None
      else if \<not> gk_ctx g then None
      else if gk_init g \<noteq> 1 then None
      else if gk_curve g \<noteq> 1 then None
      else if gk_keygen g \<noteq> 1 then Some (cb_empty_key cb)
      else Some (cb_key cb))"

text \<open>The key with the PEM texts of its public and private part; \<open>None\<close>: NULL, and the outputs are cleared.\<close>

definition make_keypair :: "'k certlib \<Rightarrow> ('k \<times> bytes \<times> bytes) option" where
  "make_keypair cb =
     (case genpkey cb of
        None \<Rightarrow> None
      | Some pkey \<Rightarrow>
          if \<not> cb_bio cb then None
          else case cb_pub_pem cb pkey of
             None \<Rightarrow> None
           | Some pubkey \<Rightarrow>
               if \<not> cb_malloc cb (length pubkey + 1) then None
               else case cb_priv_pem cb pkey of
                  None \<Rightarrow> None
                | Some privkey \<Rightarrow>
                    if \<not> cb_malloc cb (length privkey + 1) then None
                    else Some (pkey, pubkey, privkey))"

section \<open>Evidence\<close>

text \<open>
  The quoting enclave: each call has a status, and those that leave the enclave
  a \<open>quote3_error_t\<close> too; \<open>qg_quote\<close> fills the buffer of the given size, or does
  not (\<open>Garbage\<close>).
\<close>

record 'w qgen =
  qg_target :: "'w \<Rightarrow> (int \<times> int \<times> bytes) \<times> 'w"
  qg_report :: "bytes \<Rightarrow> bytes \<Rightarrow> int \<times> bytes"
  qg_size :: "'w \<Rightarrow> (int \<times> int \<times> nat) \<times> 'w"
  qg_quote :: "bytes \<Rightarrow> nat \<Rightarrow> 'w \<Rightarrow> (int \<times> bytes slot) \<times> 'w"

text \<open>What the caller's \<open>quote\<close> and \<open>evidence\<close> point to; the values passed in stay where nothing is stored.\<close>

record ev_out =
  eo_quote :: "bytes slot option"
  eo_evidence :: "bytes option slot"

text \<open>
  The steps after the claims, the same in both enclave versions.  The
  \<open>quote3_error_t\<close> of the last call is not looked at.
\<close>

definition quote_claims ::
    "sgxenv \<Rightarrow> 'w qgen \<Rightarrow> (nat \<Rightarrow> bool) \<Rightarrow> (bytes \<Rightarrow> bytes) \<Rightarrow> u64 \<Rightarrow> bytes \<Rightarrow> ev_out \<Rightarrow> 'w \<Rightarrow>
     ((int \<times> ev_out) \<times> 'w) cres" where
  "quote_claims env qg cmem sha tag claims eo w =
     (let report_data = sha claims @ replicate 32 0;
          ((rc, qrc, target), w) = qg_target qg w
      in if rc \<noteq> 0 then Inr ((-1, eo), w)
      else if qrc \<noteq> 0 then Inr ((-1, eo), w)
      else
        let (rc, report) = qg_report qg target report_data in
        if rc \<noteq> 0 then Inr ((-1, eo), w)
        else
          let ((rc, qrc, qsz), w) = qg_size qg w in
          if rc \<noteq> 0 then Inr ((-1, eo), w)
          else if qrc \<noteq> 0 then Inr ((-1, eo), w)
          else if \<not> sg_malloc env qsz then Inr ((-1, eo\<lparr>eo_quote := None\<rparr>), w)
          else
            let ((rc, quote), w) = qg_quote qg report qsz w; eo = eo\<lparr>eo_quote := Some quote\<rparr> in
            if rc \<noteq> 0 then Inr ((-1, eo), w)
            else
              cbind (rd quote) (\<lambda>q.
              cbind (make_cbor_sgx_evidence env q claims tag cmem) (\<lambda>(rc, evi).
              let eo = eo\<lparr>eo_evidence := Val evi\<rparr> in
              if rc < 0 then Inr ((-1, eo), w) else Inr ((0, eo), w))))"

definition make_certificate_evidence_sgx ::
    "sgxenv \<Rightarrow> 'w qgen \<Rightarrow> (nat \<Rightarrow> bool) \<Rightarrow> (bytes \<Rightarrow> bytes) \<Rightarrow> bytes \<Rightarrow> bytes \<Rightarrow> ev_out \<Rightarrow> 'w \<Rightarrow>
     ((int \<times> ev_out) \<times> 'w) cres" where
  "make_certificate_evidence_sgx env qg cmem sha pubkey nonce eo w =
     cbind (make_cbor_sgx_claims env pubkey cmem) (\<lambda>(rc, claims).
     if rc < 0 then Inr ((-1, eo), w)
     else cbind (deref claims) (\<lambda>claims. quote_claims env qg cmem sha TEE_QUOTE_CBOR_TAG claims eo w))"

text \<open>The enclave with a TPM does not look at the result of making the claims.\<close>

definition make_certificate_evidence_tpm2 ::
    "sgxenv \<Rightarrow> 'w tpm2env \<Rightarrow> 'w qgen \<Rightarrow> (nat \<Rightarrow> bool) \<Rightarrow> (bytes \<Rightarrow> bytes) \<Rightarrow> bool \<Rightarrow> bytes \<Rightarrow> bytes \<Rightarrow> ev_out \<Rightarrow> 'w \<Rightarrow>
     ((int \<times> ev_out) \<times> 'w) cres" where
  "make_certificate_evidence_tpm2 env te qg cmem sha atflag pubkey nonce eo w =
     cbind (make_cbor_tpm2_claims_from_enclave te cmem atflag pubkey nonce w) (\<lambda>((rc, claims), w).
     case claims of
       None \<Rightarrow> Inl Uninit
     | Some claims \<Rightarrow> quote_claims env qg cmem sha TEE_TPM2_QUOTE_TAG claims eo w)"

text \<open>The version for a TPM alone ends in \<open>make_cbor_tpm2_evidence\<close>; \<open>tpm2_quote\<close> stands for \<open>make_tpm2_quote\<close>.\<close>

definition make_certificate_evidence_plain ::
    "'w tpm2env \<Rightarrow> (nat \<Rightarrow> bool) \<Rightarrow> (bytes \<Rightarrow> 'w \<Rightarrow> 'w) \<Rightarrow> bytes \<Rightarrow> bytes \<Rightarrow> ev_out \<Rightarrow> 'w \<Rightarrow> ((int \<times> ev_out) \<times> 'w) cres" where
  "make_certificate_evidence_plain te cmem tpm2_quote pubkey nonce eo w =
     cbind (make_cbor_tpm2_claims te cmem pubkey nonce) (\<lambda>(rc, claims).
     if rc < 0 then Inr ((-1, eo), w)
     else case claims of
       None \<Rightarrow> Inl Uninit
     | Some claims \<Rightarrow>
         let w = tpm2_quote (te_sha256 te claims) w; rc = make_cbor_tpm2_evidence None None
         in Inr ((rc, eo), w))"

section \<open>The certificate\<close>

text \<open>An extension that cannot be made or added is left out.\<close>

definition add_ext :: "'k certlib \<Rightarrow> string \<Rightarrow> (string \<times> bytes) list \<Rightarrow> (string \<times> bytes) list" where
  "add_ext cb nid exts = (case cb_ext cb nid of None \<Rightarrow> exts | Some oct \<Rightarrow> exts @ [(nid, oct)])"

definition octets :: "bytes option \<Rightarrow> bytes" where
  "octets p = (case p of None \<Rightarrow> [] | Some bs \<Rightarrow> bs)"

text \<open>
  The return value and the certificate stored.  \<open>quote\<close> and \<open>evidence\<close> are the
  pointers passed; testing one that was never set is the fault \<open>Uninit\<close>.
\<close>

definition make_x509cert ::
    "'k certlib \<Rightarrow> 'k option \<Rightarrow> bytes slot option \<Rightarrow> bytes option slot \<Rightarrow> (int \<times> 'k cert option) cres" where
  "make_x509cert cb pkey quote evidence =
     (if pkey = None \<or> \<not> cb_set_pubkey cb then Inr (0, None)
      else if \<not> cb_set_subject cb then Inr (0, None)
      else if \<not> cb_set_issuer cb then Inr (0, None)
      else
        let exts = add_ext cb ''2.5.29.35'' (add_ext cb ''2.5.29.14'' (add_ext cb ''2.5.29.19'' [])) in
        cbind (if quote = None then rd evidence else Inr None) (\<lambda>e.
        if quote = None \<and> e = None then Inr (1, Some \<lparr>x_pubkey = pkey, x_exts = exts\<rparr>)
        else if \<not> cb_obj cb X509_OID_FOR_QUOTE_STRING then Inr (0, None)
        else
          cbind (case quote of None \<Rightarrow> Inr [] | Some q \<Rightarrow> rd q) (\<lambda>q.
          cbind (rd evidence) (\<lambda>evi.
          if \<not> cb_obj cb TCG_DICE_TAGGED_OID_STR then Inr (0, None)
          else Inr (1, Some \<lparr>x_pubkey = pkey,
             x_exts = exts @ [(X509_OID_FOR_QUOTE_STRING, q), (TCG_DICE_TAGGED_OID_STR, octets evi)]\<rparr>)))))"

end
