(* ===== verification/Tls_Ra.thy ===== *)
theory Tls_Ra
  imports Cert
begin

text \<open>
  Remote attestation in the TLS handshake (\<open>src/libtlsra.c\<close>): the callback that
  verifies the peer's certificate on either side, the hooks that make the own
  certificate when the hello or the certificate request arrives, and the
  functions that keep certificates and keys in files.

  The maker of evidence is a parameter of the hooks: each build links one of the
  three versions of \<open>make_certificate_evidence\<close>.
\<close>

unbundle bit_operations_syntax

section \<open>Verification callback\<close>

record hs =
  hs_server_random :: bytes
  hs_client_random :: bytes

definition X509_V_ERR_DEPTH_ZERO_SELF_SIGNED_CERT :: int where
  "X509_V_ERR_DEPTH_ZERO_SELF_SIGNED_CERT = 18"

text \<open>
  \<open>err\<close> and \<open>depth\<close> are what the store context holds for the certificate under
  verification; \<open>ssl\<close> is \<open>None\<close> when the context knows no connection.
\<close>

definition verify ::
    "sgxenv \<Rightarrow> 'w qve \<Rightarrow> 'k certlib \<Rightarrow> int \<Rightarrow> 'k cert option \<Rightarrow> hs option \<Rightarrow> nat \<Rightarrow> int \<Rightarrow> side \<Rightarrow> 'w \<Rightarrow>
     (int \<times> 'w) cres" where
  "verify env qe cb ok x509 ssl depth err which w =
     (case (x509, ssl) of
        (Some x509, Some ssl) \<Rightarrow>
          if ok = 1 then Inr (ok, w)
          else if depth = 0 \<and> err = X509_V_ERR_DEPTH_ZERO_SELF_SIGNED_CERT then
            let nonce = (if which = WHICH_SERVERSIDE then hs_server_random ssl else hs_client_random ssl)
            in cbind (verify_cert env qe cb x509 nonce which w) (\<lambda>(rc, w).
               Inr (if rc AND (VERIFIED_QUOTE OR VERIFIED_EVIDENCE) \<noteq> 0 then 1 else 0, w))
          else Inr (ok, w)
      | _ \<Rightarrow> Inr (0, w))"

definition client_verify ::
    "sgxenv \<Rightarrow> 'w qve \<Rightarrow> 'k certlib \<Rightarrow> int \<Rightarrow> 'k cert option \<Rightarrow> hs option \<Rightarrow> nat \<Rightarrow> int \<Rightarrow> 'w \<Rightarrow> (int \<times> 'w) cres" where
  "client_verify env qe cb ok x509 ssl depth err w = verify env qe cb ok x509 ssl depth err WHICH_CLIENTSIDE w"

definition server_verify ::
    "sgxenv \<Rightarrow> 'w qve \<Rightarrow> 'k certlib \<Rightarrow> int \<Rightarrow> 'k cert option \<Rightarrow> hs option \<Rightarrow> nat \<Rightarrow> int \<Rightarrow> 'w \<Rightarrow> (int \<times> 'w) cres" where
  "server_verify env qe cb ok x509 ssl depth err w = verify env qe cb ok x509 ssl depth err WHICH_SERVERSIDE w"

section \<open>Certificates and keys in files\<close>

text \<open>
  The file system maps names to contents; \<open>op\<close> says whether a file can be opened.
  \<open>pem\<close> is the PEM text of the object (\<open>None\<close>: the conversion fails) and \<open>parse\<close>
  the reading of PEM text.
\<close>

type_synonym fs = "string \<Rightarrow> bytes option"

definition pem_write_host :: "(string \<Rightarrow> bool) \<Rightarrow> int \<Rightarrow> int \<Rightarrow> bytes option \<Rightarrow> string \<Rightarrow> fs \<Rightarrow> int \<times> fs" where
  "pem_write_host op good bad pem fname fs =
     (if \<not> op fname then (0, fs)
      else case pem of None \<Rightarrow> (bad, fs(fname := Some [])) | Some bs \<Rightarrow> (good, fs(fname := Some bs)))"

text \<open>\<open>TLSRA_X509_write\<close> returns 0 after writing and 1 when the conversion fails.\<close>

definition TLSRA_X509_write :: "(string \<Rightarrow> bool) \<Rightarrow> bytes option \<Rightarrow> string \<Rightarrow> fs \<Rightarrow> int \<times> fs" where
  "TLSRA_X509_write op pem = pem_write_host op 0 1 pem"

definition TLSRA_PUBKEY_write :: "(string \<Rightarrow> bool) \<Rightarrow> bytes option \<Rightarrow> string \<Rightarrow> fs \<Rightarrow> int \<times> fs" where
  "TLSRA_PUBKEY_write op pem = pem_write_host op 1 0 pem"

definition TLSRA_PrivateKey_write :: "(string \<Rightarrow> bool) \<Rightarrow> bytes option \<Rightarrow> string \<Rightarrow> fs \<Rightarrow> int \<times> fs" where
  "TLSRA_PrivateKey_write op pem = pem_write_host op 1 0 pem"

definition TLSRA_X509_read :: "(string \<Rightarrow> bool) \<Rightarrow> (bytes \<Rightarrow> 'x option) \<Rightarrow> string \<Rightarrow> fs \<Rightarrow> 'x option" where
  "TLSRA_X509_read op parse fname fs =
     (if \<not> op fname then None else case fs fname of None \<Rightarrow> None | Some bs \<Rightarrow> parse bs)"

definition TLSRA_PKEY_read :: "(string \<Rightarrow> bool) \<Rightarrow> (bytes \<Rightarrow> 'x option) \<Rightarrow> string \<Rightarrow> fs \<Rightarrow> 'x option" where
  "TLSRA_PKEY_read op parse fname fs =
     (if \<not> op fname then None else case fs fname of None \<Rightarrow> None | Some bs \<Rightarrow> parse bs)"

section \<open>Hooks\<close>

text \<open>Pointers as the two hooks declare them: the client leaves \<open>evidence\<close> unset.\<close>

definition server_out :: ev_out where
  "server_out = \<lparr>eo_quote = None, eo_evidence = Val None\<rparr>"

definition client_out :: ev_out where
  "client_out = \<lparr>eo_quote = None, eo_evidence = Garbage\<rparr>"

type_synonym 'w evidence_maker = "bytes \<Rightarrow> bytes \<Rightarrow> ev_out \<Rightarrow> 'w \<Rightarrow> ((int \<times> ev_out) \<times> 'w) cres"

text \<open>Key and PEM text of a pair that may be missing.\<close>

definition keypair_key :: "('k \<times> bytes \<times> bytes) option \<Rightarrow> 'k option" where
  "keypair_key kp = map_option fst kp"

definition keypair_pem :: "('k \<times> bytes \<times> bytes) option \<Rightarrow> bytes" where
  "keypair_pem kp = (case kp of None \<Rightarrow> [] | Some (_, pub, _) \<Rightarrow> pub)"

text \<open>The certificate is made whether or not the evidence was.\<close>

definition on_client_cert ::
    "'k certlib \<Rightarrow> 'w evidence_maker \<Rightarrow> hs \<Rightarrow> 'w \<Rightarrow> ((int \<times> 'k cert option \<times> 'k option) \<times> 'w) cres" where
  "on_client_cert cb mk ssl w =
     (let kp = make_keypair cb in
      cbind (mk (keypair_pem kp) (hs_server_random ssl) client_out w) (\<lambda>((rc, eo), w).
      cbind (make_x509cert cb (keypair_key kp) (eo_quote eo) (eo_evidence eo)) (\<lambda>(rc, cert).
      Inr ((1, cert, keypair_key kp), w))))"

definition SSL_CLIENT_HELLO_SUCCESS :: int where "SSL_CLIENT_HELLO_SUCCESS = 1"
definition SSL_CLIENT_HELLO_ERROR :: int where "SSL_CLIENT_HELLO_ERROR = 0"

text \<open>
  \<open>SSL_use_certificate\<close> and \<open>SSL_use_PrivateKey\<close> with what they are given (\<open>None\<close>:
  NULL, which both refuse); the result is 1 when they succeed.
\<close>

record 'k ssluse =
  su_cert :: "'k cert \<Rightarrow> int"
  su_key :: "'k \<Rightarrow> int"

definition use_pair :: "'k ssluse \<Rightarrow> 'k cert option \<Rightarrow> 'k option \<Rightarrow> int \<times> 'k cert option" where
  "use_pair su cert pkey =
     (case cert of None \<Rightarrow> (SSL_CLIENT_HELLO_ERROR, None)
      | Some c \<Rightarrow>
          if su_cert su c \<noteq> 1 then (SSL_CLIENT_HELLO_ERROR, None)
          else case pkey of None \<Rightarrow> (SSL_CLIENT_HELLO_ERROR, Some c)
             | Some k \<Rightarrow> if su_key su k \<noteq> 1 then (SSL_CLIENT_HELLO_ERROR, Some c)
                 else (SSL_CLIENT_HELLO_SUCCESS, Some c))"

text \<open>\<open>stored\<close> are the certificate and the key of \<open>server.crt\<close> and \<open>server.key\<close>.\<close>

definition on_client_hello ::
    "'k certlib \<Rightarrow> 'w evidence_maker \<Rightarrow> 'k ssluse \<Rightarrow> 'k cert option \<times> 'k option \<Rightarrow> int \<Rightarrow> hs \<Rightarrow> 'w \<Rightarrow>
     ((int \<times> 'k cert option) \<times> 'w) cres" where
  "on_client_hello cb mk su stored rflag ssl w =
     (if rflag \<noteq> 0 then
        let kp = make_keypair cb in
        cbind (if rflag = 2 then Inr ((0, server_out), w)
               else mk (keypair_pem kp) (hs_client_random ssl) server_out w) (\<lambda>((rc, eo), w).
        cbind (make_x509cert cb (keypair_key kp) (eo_quote eo) (eo_evidence eo)) (\<lambda>(rc, cert).
        Inr (use_pair su cert (keypair_key kp), w)))
      else Inr (use_pair su (fst stored) (snd stored), w))"

section \<open>Initialisation\<close>

record tls_cfg =
  tc_mode :: int
  tc_verify :: "side option"
  tc_hello_cb :: bool
  tc_cert_cb :: bool
  tc_depth :: nat
  tc_rflag :: int

definition SSL_VERIFY_PEER :: int where "SSL_VERIFY_PEER = 1"
definition SSL_VERIFY_FAIL_IF_NO_PEER_CERT :: int where "SSL_VERIFY_FAIL_IF_NO_PEER_CERT = 2"

definition TLSRA_server_init :: "int \<Rightarrow> tls_cfg \<Rightarrow> tls_cfg" where
  "TLSRA_server_init flag ctx = ctx\<lparr>tc_rflag := flag,
     tc_mode := SSL_VERIFY_PEER OR SSL_VERIFY_FAIL_IF_NO_PEER_CERT, tc_verify := Some WHICH_SERVERSIDE,
     tc_hello_cb := True\<rparr>"

definition TLSRA_client_init :: "int \<Rightarrow> tls_cfg \<Rightarrow> int \<times> tls_cfg" where
  "TLSRA_client_init flag ctx = (1, ctx\<lparr>tc_cert_cb := True, tc_mode := SSL_VERIFY_PEER,
     tc_verify := Some WHICH_CLIENTSIDE, tc_depth := 10, tc_rflag := flag\<rparr>)"

text \<open>\<open>SSL_shutdown\<close> is repeated while it returns 0; \<open>shut\<close> gives its results in order.\<close>

fun myssl_shutdown :: "nat \<Rightarrow> ('w \<Rightarrow> int \<times> 'w) \<Rightarrow> nat \<Rightarrow> 'w \<Rightarrow> (int \<times> nat \<times> 'w) cres" where
  "myssl_shutdown 0 shut cnt w = Inl Diverges"
| "myssl_shutdown (Suc n) shut cnt w =
     (let (rc, w) = shut w in if rc = 0 then myssl_shutdown n shut (cnt + 1) w else Inr (rc, cnt + 1, w))"

section \<open>Who is accepted\<close>

lemma flag_bits:
  "VERIFIED_QUOTE OR VERIFIED_EVIDENCE = 3" "VERIFIED_EVIDENCE AND 3 = 2" "int n AND 3 = int (n mod 4)"
proof -
  have "int n AND 3 = take_bit 2 (int n)" by (simp add: take_bit_eq_mask mask_eq_exp_minus_1)
  then show "int n AND 3 = int (n mod 4)" by (simp add: take_bit_eq_mod zmod_int)
qed (simp_all add: VERIFIED_QUOTE_def VERIFIED_EVIDENCE_def)

abbreviation "self_signed \<equiv> X509_V_ERR_DEPTH_ZERO_SELF_SIGNED_CERT"

text \<open>
  The client never rejects a self-signed server certificate: whatever the
  certificate holds, and whether or not its signature verifies, the callback
  turns the error into success.
\<close>

theorem client_accepts_any:
  "client_verify env qe cb 0 (Some x509) (Some ssl) 0 self_signed w = Inr (1, w)"
  by (simp add: client_verify_def verify_def verify_cert_def flag_bits)

text \<open>
  On the server a self-signed certificate that \<open>X509_verify_cert\<close> refuses is
  accepted: the code \<open>-1\<close> has both verification bits.
\<close>

theorem server_accepts_unverified:
  assumes "\<not> cb_verify cb x509"
  shows "server_verify env qe cb 0 (Some x509) (Some ssl) 0 self_signed w = Inr (1, w)"
  using assms by (simp add: server_verify_def verify_def verify_cert_def flag_bits)

text \<open>The certificate has a key, whose PEM text can be made, and OpenSSL has memory.\<close>

definition cert_ready :: "'k certlib \<Rightarrow> 'k cert \<Rightarrow> bytes \<Rightarrow> bool" where
  "cert_ready cb x509 pem \<longleftrightarrow> (\<exists>k. x_pubkey x509 = Some k \<and> cb_pub_pem cb k = Some pem) \<and> cb_bio cb \<and>
     cb_malloc cb (length pem + 1) \<and> cb_obj cb TCG_DICE_TAGGED_OID_STR \<and> cb_obj cb X509_OID_FOR_QUOTE_STRING \<and>
     cb_verify cb x509"

lemma verify_contents_ready:
  assumes "cert_ready cb x509 pem"
  shows "verify_contents env qe cb x509 nonce w =
     (let loc = ext_loc (x_exts x509) TCG_DICE_TAGGED_OID_STR 0 in
      if loc > 0 then verify_SGX_evidence env qe (snd (x_exts x509 ! nat loc)) pem nonce w
      else if ext_loc (x_exts x509) X509_OID_FOR_QUOTE_STRING 0 > 0 then Inr (VERIFIED_QUOTE, w)
      else Inr (bio_read pem, w))"
  using assms
  by (auto simp: verify_contents_def cert_ready_def verify_tab_def verify_SGX_quote_def Let_def)

text \<open>
  On the server the verdict on a certificate without attestation evidence,
  or with all of it in the first extension, is that the length of the PEM text
  of its key is no multiple of 4: the result of \<open>BIO_read\<close> is taken for the
  verification flags.
\<close>

theorem no_evidence_verdict:
  assumes "cert_ready cb x509 pem" "pem \<noteq> []"
    and "ext_loc (x_exts x509) TCG_DICE_TAGGED_OID_STR 0 \<le> 0" "ext_loc (x_exts x509) X509_OID_FOR_QUOTE_STRING 0 \<le> 0"
  shows "server_verify env qe cb 0 (Some x509) (Some ssl) 0 self_signed w =
     Inr (if length pem mod 4 \<noteq> 0 then 1 else 0, w)"
proof -
  have "verify_contents env qe cb x509 nonce w = Inr (int (length pem), w)" for nonce
    using assms(2-4) by (simp add: verify_contents_ready [OF assms(1)] bio_read_def Let_def)
  moreover have "cb_verify cb x509" using assms(1) by (simp add: cert_ready_def)
  ultimately show ?thesis
    by (simp add: server_verify_def verify_def verify_cert_def flag_bits)
qed


section \<open>A handshake that goes well\<close>

text \<open>OpenSSL makes the key and the certificate of the client.\<close>

definition honest_lib :: "'k certlib \<Rightarrow> bytes \<Rightarrow> bool" where
  "honest_lib cb pem \<longleftrightarrow> cb_bio cb \<and> cb_obj cb = (\<lambda>_. True) \<and> cb_malloc cb = (\<lambda>_. True) \<and>
     cb_verify cb = (\<lambda>_. True) \<and> cb_set_pubkey cb \<and> cb_set_subject cb \<and> cb_set_issuer cb \<and>
     cb_genkey cb = \<lparr>gk_new = True, gk_ctx = True, gk_init = 1, gk_curve = 1, gk_keygen = 1\<rparr> \<and>
     cb_pub_pem cb (cb_key cb) = Some pem \<and> cb_priv_pem cb (cb_key cb) \<noteq> None"

text \<open>Both ends hash alike, and read the same DER bytes from the PEM text of the key.\<close>

definition honest_keys :: "sgxenv \<Rightarrow> 'w tpm2env \<Rightarrow> (bytes \<Rightarrow> bytes) \<Rightarrow> bytes \<Rightarrow> bytes \<Rightarrow> bool" where
  "honest_keys env te sha pem der \<longleftrightarrow> te_der te pem = Some der \<and>
     PEM2DER True PUB_KEY_MAX_SIZE (Some pem) = Inr (0, Some (length der), der) \<and>
     sg_sha256 env = (\<lambda>x. Some (sha x)) \<and> te_sha256 te = sha \<and> (\<forall>x. length (sha x) = 32) \<and>
     te_cl te = sg_cl env \<and> sg_malloc env = (\<lambda>_. True)"

text \<open>The quoting enclave puts the report data where the verifier reads it.\<close>

definition honest_quotes :: "'w qgen \<Rightarrow> bytes \<Rightarrow> bytes \<Rightarrow> bool" where
  "honest_quotes qg report_data quote \<longleftrightarrow>
     (\<exists>target report n. qg_target qg = (\<lambda>w. ((0, 0, target), w)) \<and> qg_report qg target report_data = (0, report) \<and>
        qg_size qg = (\<lambda>w. ((0, 0, n), w)) \<and> qg_quote qg report n = (\<lambda>w. ((0, Val quote), w))) \<and>
     quote_type quote = 0 \<and> QUOTE_MIN_SIZE \<le> length quote \<and> length quote \<le> RAW_QUOTE_MAX_SIZE \<and>
     take 32 (drop 368 quote) = take 32 report_data"

definition wire_faithful :: "sgxenv \<Rightarrow> bytes \<Rightarrow> cbor \<Rightarrow> cbor \<Rightarrow> bool" where
  "wire_faithful env h claims evi \<longleftrightarrow> cbor_faithful (sg_cl env) (own_entry env h) \<and>
     cbor_faithful (sg_cl env) claims \<and> cbor_faithful (sg_cl env) evi \<and>
     cl_ser (sg_cl env) (own_entry env h) \<noteq> [] \<and> cl_ser (sg_cl env) claims \<noteq> [] \<and> cl_ser (sg_cl env) evi \<noteq> []"

lemma ext_loc_append: "\<forall>e \<in> set es. fst e \<noteq> oid \<Longrightarrow> ext_loc (es @ fs) oid i = ext_loc fs oid (i + int (length es))"
  by (induction es arbitrary: i) (simp_all add: algebra_simps)

lemma cert_ext_loc:
  assumes "make_x509cert cb (Some k) (Some (Val q)) (Val (Some e)) = Inr (1, Some x509)"
  shows "x_pubkey x509 = Some k \<and> 0 < ext_loc (x_exts x509) TCG_DICE_TAGGED_OID_STR 0 \<and>
     snd (x_exts x509 ! nat (ext_loc (x_exts x509) TCG_DICE_TAGGED_OID_STR 0)) = e"
proof -
  let ?pre = "add_ext cb ''2.5.29.35'' (add_ext cb ''2.5.29.14'' (add_ext cb ''2.5.29.19'' [])) @ [(X509_OID_FOR_QUOTE_STRING, q)]"
  have x: "x509 = \<lparr>x_pubkey = Some k, x_exts = ?pre @ [(TCG_DICE_TAGGED_OID_STR, e)]\<rparr>"
    using assms by (simp add: make_x509cert_def octets_def Let_def split: if_split_asm)
  have "\<forall>p \<in> set ?pre. fst p \<noteq> TCG_DICE_TAGGED_OID_STR"
    by (auto simp: add_ext_def TCG_DICE_TAGGED_OID_STR_def X509_OID_FOR_QUOTE_STRING_def split: option.splits)
  from ext_loc_append [OF this, of "[(TCG_DICE_TAGGED_OID_STR, e)]" 0]
  have "ext_loc (?pre @ [(TCG_DICE_TAGGED_OID_STR, e)]) TCG_DICE_TAGGED_OID_STR 0 = int (length ?pre)" by simp
  moreover have "(?pre @ [(TCG_DICE_TAGGED_OID_STR, e)]) ! length ?pre = (TCG_DICE_TAGGED_OID_STR, e)"
    by (rule nth_append_length)
  ultimately show ?thesis by (simp add: x nat_add_distrib)
qed

lemma honest_compare:
  assumes "honest_quotes qg (sha claims @ replicate 32 0) quote" "honest_keys env te sha pem der"
  shows "sgx_tls_compare_quote_hash env (Some quote) claims = Inr SGX_SUCCESS"
proof -
  have "length (sha claims) = 32" "sg_sha256 env claims = Some (sha claims)" "sg_malloc env 64"
    using assms(2) by (simp_all add: honest_keys_def)
  then show ?thesis
    using assms(1)
    by (auto simp: sgx_tls_compare_quote_hash_def honest_quotes_def quote_hash_eq_def memcmp_eq_def QUOTE_MIN_SIZE_def)
qed

text \<open>The claims of an enclave with TPM, and the state the verifier's loop reaches on them.\<close>

lemma tpm2_claims_loop:
  assumes key: "pubkey_claim env pem (CBytes True (cl_ser (sg_cl env) (own_entry env h))) = Inr SGX_SUCCESS"
    and "length nonce = 32" "length tq \<le> MAXSIZE_SER_TPM2_QUOTE"
    and kvs: "tpm2_claims_item (sg_cl env) h nonce tq = CMap True kvs"
  shows "claims_loop env pem kvs st =
     Inr (SGX_SUCCESS, st\<lparr>so_nonce := Val nonce, so_sersz := length tq, so_ser := Val tq\<rparr>)"
proof -
  have keys: "\<not> key_matches ''pubkey-hash'' (to_bytes ''tpm2-quote'')" "key_matches ''tpm2-quote'' (to_bytes ''tpm2-quote'')"
    "to_bytes ''tpm2-quote'' \<noteq> []"
    using strncmp_eq_refl [of "''tpm2-quote''"] by (simp_all add: key_matches_to_bytes) (simp add: to_bytes_def)
  show ?thesis
    using kvs assms(2,3) key [unfolded own_entry_def] key_pubkey ex_nonce_key keys
    by (auto simp: tpm2_claims_item_def)
qed

lemma honest_evidence:
  assumes "honest_keys env te sha pem der" "honest_quotes qg (sha claims @ replicate 32 0) quote"
    and "claims = cl_ser (sg_cl env) (tpm2_claims_item (sg_cl env) (sha der) nonce tq)"
    and "get_tpm2_quote te (\<lambda>_. True) atflag nonce w = Inr (Val tq, w1)" "tq \<noteq> []"
  shows "make_certificate_evidence_tpm2 env te qg (\<lambda>_. True) sha atflag pem nonce eo w =
     Inr ((0, \<lparr>eo_quote = Some (Val quote), eo_evidence = Val (Some (cl_ser (sg_cl env)
       (own_evidence env TEE_TPM2_QUOTE_TAG quote claims)))\<rparr>), w1)"
proof -
  have te: "te_der te pem = Some der" "te_cl te = sg_cl env" "te_sha256 te = sha" "sg_malloc env = (\<lambda>_. True)"
    using assms(1) by (simp_all add: honest_keys_def)
  obtain target report n where qg: "qg_target qg = (\<lambda>w. ((0, 0, target), w))"
    "qg_report qg target (sha claims @ replicate 32 0) = (0, report)"
    "qg_size qg = (\<lambda>w. ((0, 0, n), w))" "qg_quote qg report n = (\<lambda>w. ((0, Val quote), w))"
    using assms(2) by (auto simp: honest_quotes_def)
  have claims: "make_cbor_tpm2_claims_from_enclave te (\<lambda>_. True) atflag pem nonce w = Inr ((0, Some claims), w1)"
    using enclave_claims_ok [OF te(1) refl assms(4,5)] by (simp add: te(2,3) assms(3))
  have "quote_claims env qg (\<lambda>_. True) sha TEE_TPM2_QUOTE_TAG claims eo w1 =
     Inr ((0, \<lparr>eo_quote = Some (Val quote), eo_evidence = Val (Some (cl_ser (sg_cl env)
       (own_evidence env TEE_TPM2_QUOTE_TAG quote claims)))\<rparr>), w1)"
    by (simp add: quote_claims_def qg te(4) make_cbor_sgx_evidence_def own_evidence_def Let_def)
  then show ?thesis by (simp add: make_certificate_evidence_tpm2_def claims)
qed

text \<open>The made certificate holds what the verification wants; a positive verdict is accepted.\<close>

lemma verify_cert_server:
  "verify_cert env qe cb x509 (hs_server_random ssl) WHICH_SERVERSIDE w = Inr (VERIFIED_EVIDENCE, w') \<Longrightarrow>
     server_verify env qe cb 0 (Some x509) (Some ssl) 0 self_signed w = Inr (1, w')"
  by (simp add: server_verify_def verify_def flag_bits)

lemma attested_certificate:
  assumes lib: "honest_lib cb pem" and keys: "honest_keys env te sha pem der"
    and nonce: "length (hs_server_random ssl) = 32"
    and tq: "get_tpm2_quote te (\<lambda>_. True) atflag (hs_server_random ssl) w = Inr (Val tq, w1)"
      "tq \<noteq> []" "length tq \<le> MAXSIZE_SER_TPM2_QUOTE"
    and claims: "claims = tpm2_claims_item (sg_cl env) (sha der) (hs_server_random ssl) tq"
    and quote: "honest_quotes qg (sha (cl_ser (sg_cl env) claims) @ replicate 32 0) quote"
    and wire: "wire_faithful env (sha der) claims (own_evidence env TEE_TPM2_QUOTE_TAG quote (cl_ser (sg_cl env) claims))"
    and qe: "qe_accepts qe m quote" "qe_verify_tpm2 qe tq (hs_server_random ssl) w1 = ((0, orc), w2)" "0 \<le> orc"
  shows "\<exists>x509. on_client_cert cb (make_certificate_evidence_tpm2 env te qg (\<lambda>_. True) sha atflag) ssl w =
       Inr ((1, Some x509, Some (cb_key cb)), w1) \<and>
     verify_cert env qe cb x509 (hs_server_random ssl) WHICH_SERVERSIDE w1 = Inr (VERIFIED_EVIDENCE, w2)"
proof -
  let ?n = "hs_server_random ssl" and ?c = "cl_ser (sg_cl env) claims"
  let ?evi = "own_evidence env TEE_TPM2_QUOTE_TAG quote ?c"
  let ?e = "cl_ser (sg_cl env) ?evi"
  have pair: "keypair_pem (make_keypair cb) = pem" "keypair_key (make_keypair cb) = Some (cb_key cb)"
    using lib by (auto simp: honest_lib_def make_keypair_def genpkey_def keypair_pem_def keypair_key_def)
  have made: "make_certificate_evidence_tpm2 env te qg (\<lambda>_. True) sha atflag pem ?n client_out w =
      Inr ((0, \<lparr>eo_quote = Some (Val quote), eo_evidence = Val (Some ?e)\<rparr>), w1)"
    by (rule honest_evidence [OF keys quote _ tq(1,2)]) (simp add: claims)
  obtain x509 where x: "make_x509cert cb (Some (cb_key cb)) (Some (Val quote)) (Val (Some ?e)) = Inr (1, Some x509)"
    using lib by (simp add: honest_lib_def make_x509cert_def Let_def)
  note x509 = cert_ext_loc [OF x]
  have run: "on_client_cert cb (make_certificate_evidence_tpm2 env te qg (\<lambda>_. True) sha atflag) ssl w =
      Inr ((1, Some x509, Some (cb_key cb)), w1)"
    by (simp add: on_client_cert_def pair made x)
  obtain kvs where kvs: "claims = CMap True kvs" "kvs \<noteq> []" by (simp add: claims tpm2_claims_item_def)
  have key: "pubkey_claim env pem (CBytes True (cl_ser (sg_cl env) (own_entry env (sha der)))) = Inr SGX_SUCCESS"
    by (rule pubkey_claim_own) (use keys wire in \<open>simp_all add: honest_keys_def wire_faithful_def\<close>)
  note loop = tpm2_claims_loop [OF key nonce tq(3) kvs(1) [unfolded claims]]
  have mem: "sg_malloc env k" for k using keys by (simp add: honest_keys_def)
  have load: "cl_load (sg_cl env) ?e = Some (CTag TEE_TPM2_QUOTE_TAG (CArr True [CBytes True quote, CBytes True ?c]))"
    "cl_load (sg_cl env) ?c = Some (CMap True kvs)" "?e \<noteq> []" "?c \<noteq> []"
    using wire by (simp_all add: wire_faithful_def cbor_faithful_def own_evidence_def kvs(1))
  have size: "QUOTE_MIN_SIZE \<le> length quote" "length quote \<le> RAW_QUOTE_MAX_SIZE"
    using quote by (simp_all add: honest_quotes_def)
  note ext = extract_run [OF load kvs(2) disjI2 [OF refl] size mem honest_compare [OF quote keys] loop]
  have ver: "verify_SGX_evidence env qe ?e pem ?n w1 = Inr (VERIFIED_EVIDENCE, w2)"
    by (rule verify_run [OF ext _ qe(1) mem mem _ nonce _ _ _ qe(2,3)]) simp_all
  have ready: "cert_ready cb x509 pem"
    using lib x509 by (simp add: cert_ready_def honest_lib_def)
  have vc: "verify_cert env qe cb x509 ?n WHICH_SERVERSIDE w1 = Inr (VERIFIED_EVIDENCE, w2)"
    using ready x509 ver by (simp add: verify_cert_def verify_contents_ready [OF ready] cert_ready_def)
  then show ?thesis using run by blast
qed

text \<open>
  C8.  Attestation completes: when libraries and quoting enclave work, the
  certificate an enclave with TPM makes for the server's random value is
  verified by the server with \<open>VERIFIED_EVIDENCE\<close>, so that the callback accepts it.
\<close>

theorem client_attestation_completes:
  assumes lib: "honest_lib cb pem" and keys: "honest_keys env te sha pem der"
    and nonce: "length (hs_server_random ssl) = 32"
    and tq: "get_tpm2_quote te (\<lambda>_. True) atflag (hs_server_random ssl) w = Inr (Val tq, w1)"
      "tq \<noteq> []" "length tq \<le> MAXSIZE_SER_TPM2_QUOTE"
    and claims: "claims = tpm2_claims_item (sg_cl env) (sha der) (hs_server_random ssl) tq"
    and quote: "honest_quotes qg (sha (cl_ser (sg_cl env) claims) @ replicate 32 0) quote"
    and wire: "wire_faithful env (sha der) claims (own_evidence env TEE_TPM2_QUOTE_TAG quote (cl_ser (sg_cl env) claims))"
    and qe: "qe_accepts qe m quote" "qe_verify_tpm2 qe tq (hs_server_random ssl) w1 = ((0, orc), w2)" "0 \<le> orc"
  shows "\<exists>x509. on_client_cert cb (make_certificate_evidence_tpm2 env te qg (\<lambda>_. True) sha atflag) ssl w =
       Inr ((1, Some x509, Some (cb_key cb)), w1) \<and>
     verify_cert env qe cb x509 (hs_server_random ssl) WHICH_SERVERSIDE w1 = Inr (VERIFIED_EVIDENCE, w2) \<and>
     server_verify env qe cb 0 (Some x509) (Some ssl) 0 self_signed w1 = Inr (1, w2)"
  using attested_certificate [OF assms] by (auto dest: verify_cert_server)

section \<open>Concrete handshakes\<close>

definition ex_certlib :: "bool \<Rightarrow> unit certlib" where
  "ex_certlib v = \<lparr>cb_bio = True, cb_pub_pem = (\<lambda>_. Some ex_pem), cb_priv_pem = (\<lambda>_. Some [1]), cb_obj = (\<lambda>_. True),
     cb_malloc = (\<lambda>_. True), cb_verify = (\<lambda>_. v), cb_set_pubkey = True, cb_set_subject = True, cb_set_issuer = True,
     cb_ext = (\<lambda>_. Some [0]),
     cb_genkey = \<lparr>gk_new = True, gk_ctx = True, gk_init = 1, gk_curve = 1, gk_keygen = 1\<rparr>, cb_key = (), cb_empty_key = ()\<rparr>"

definition ex_hs :: hs where
  "ex_hs = \<lparr>hs_server_random = replicate 32 5, hs_client_random = replicate 32 6\<rparr>"

definition ex_cert :: "(string \<times> bytes) list \<Rightarrow> unit cert" where
  "ex_cert exts = \<lparr>x_pubkey = Some (), x_exts = exts\<rparr>"

lemma ex_ready: "cert_ready (ex_certlib True) (ex_cert exts) ex_pem"
  by (simp add: cert_ready_def ex_certlib_def ex_cert_def)

theorem server_accepts_unverified_witness:
  "server_verify (ex_env []) ex_qe (ex_certlib False) 0 (Some (ex_cert [])) (Some ex_hs) 0 self_signed () = Inr (1, ())"
  by (rule server_accepts_unverified) (simp add: ex_certlib_def)

theorem no_evidence_verdict_witness:
  "server_verify (ex_env []) ex_qe (ex_certlib True) 0 (Some (ex_cert [])) (Some ex_hs) 0 self_signed () = Inr (1, ())"
proof -
  have len: "length ex_pem = 11" by (simp add: ex_pem_def pem_file_def pem_body_def)
  then have "ex_pem \<noteq> []" by auto
  from no_evidence_verdict [OF ex_ready this, of "[]" "ex_env []" ex_qe ex_hs "()"] show ?thesis
    by (simp add: ex_cert_def len)
qed


definition ex_tpm_kvs :: "(cbor \<times> cbor) list" where
  "ex_tpm_kvs = [(CText True (to_bytes ''pubkey-hash''), CBytes True [3]),
     (CText True (to_bytes ''nonce''), CBytes True (replicate 32 5)), (CText True (to_bytes ''tpm2-quote''), CBytes True [9])]"

definition ex_tpm_env :: sgxenv where
  "ex_tpm_env = (ex_env ex_tpm_kvs)\<lparr>sg_cl := \<lparr>cl_load = (\<lambda>bs.
       if bs = [1] then Some (CTag 60004 (CArr True [CBytes True ex_quote, CBytes True [2]]))
       else cl_load (sg_cl (ex_env ex_tpm_kvs)) bs), cl_ser = cl_ser (sg_cl (ex_env ex_tpm_kvs))\<rparr>\<rparr>"

definition ex_te :: "unit tpm2env" where
  "ex_te = \<lparr>te_cl = sg_cl ex_tpm_env, te_der = (\<lambda>_. Some [1, 2, 3]), te_sha256 = (\<lambda>_. replicate 32 0),
     te_seal = Some, te_unseal = Some, te_daemon_quote = (\<lambda>_ w. (Val [9], w)), te_quote = (\<lambda>_ w. (Val [9], w))\<rparr>"

definition ex_qg :: "unit qgen" where
  "ex_qg = \<lparr>qg_target = (\<lambda>w. ((0, 0, []), w)), qg_report = (\<lambda>_ r. (0, r)), qg_size = (\<lambda>w. ((0, 0, 1020), w)),
     qg_quote = (\<lambda>_ _ w. ((0, Val ex_quote), w))\<rparr>"

lemma ex_tpm_ser:
  "cl_ser (sg_cl ex_tpm_env) (CMap d ps) = [2]" "cl_ser (sg_cl ex_tpm_env) (CTag t x) = [1]"
  "cl_ser (sg_cl ex_tpm_env) (CArr d xs) = [3]"
  by (simp_all add: ex_tpm_env_def ex_env_def)

lemma ex_tpm_item: "tpm2_claims_item (sg_cl ex_tpm_env) h (replicate 32 5) [9] = CMap True ex_tpm_kvs"
  by (simp add: tpm2_claims_item_def ex_tpm_kvs_def ex_tpm_ser)

lemma ex_tpm_load:
  "cl_load (sg_cl ex_tpm_env) [3] = Some (CArr True [CUint 1 1, CBytes True (replicate 32 0)])"
  "cl_load (sg_cl ex_tpm_env) [2] = Some (CMap True ex_tpm_kvs)"
  "cl_load (sg_cl ex_tpm_env) [1] = Some (CTag 60004 (CArr True [CBytes True ex_quote, CBytes True [2]]))"
  by (simp_all add: ex_tpm_env_def ex_env_def)

lemma ex_tpm_wire:
  "wire_faithful ex_tpm_env (replicate 32 0) (CMap True ex_tpm_kvs) (own_evidence ex_tpm_env TEE_TPM2_QUOTE_TAG ex_quote [2])"
  by (simp add: wire_faithful_def cbor_faithful_def own_entry_def own_evidence_def ex_tpm_ser ex_tpm_load
      TEE_TPM2_QUOTE_TAG_def del: One_nat_def)

lemma ex_tpm_keys: "honest_keys ex_tpm_env ex_te (\<lambda>_. replicate 32 0) ex_pem [1, 2, 3]"
proof -
  have "PEM2DER True PUB_KEY_MAX_SIZE (Some ex_pem) = Inr (0, Some (length [1, 2, 3 :: byte]), [1, 2, 3])"
    using ex_pem_der [of "[]" 0] by (simp add: ex_env_def)
  then show ?thesis
    by (simp add: honest_keys_def ex_te_def) (simp add: ex_tpm_env_def ex_env_def)
qed

lemma ex_tpm_quotes: "honest_quotes ex_qg (replicate 32 0 @ replicate 32 0) ex_quote"
  unfolding honest_quotes_def
  by (intro conjI exI [of _ "[]"] exI [of _ "replicate 32 0 @ replicate 32 0"] exI [of _ 1020])
    (simp_all add: ex_qg_def ex_quote_def quote_type_def QUOTE_MIN_SIZE_def RAW_QUOTE_MAX_SIZE_def numeral_eq_Suc)

text \<open>What the concrete client, key and quoting enclave satisfy, whoever verifies.\<close>

lemma ex_tpm_setting:
  "honest_lib (ex_certlib True) ex_pem"
  "honest_keys ex_tpm_env ex_te (\<lambda>_. replicate 32 0) ex_pem [1, 2, 3]"
  "length (hs_server_random ex_hs) = 32"
  "get_tpm2_quote ex_te (\<lambda>_. True) True (hs_server_random ex_hs) () = Inr (Val [9], ())"
  "[9 :: byte] \<noteq> []" "length [9 :: byte] \<le> MAXSIZE_SER_TPM2_QUOTE"
  "CMap True ex_tpm_kvs = tpm2_claims_item (sg_cl ex_tpm_env) (replicate 32 0) (hs_server_random ex_hs) [9]"
  "honest_quotes ex_qg (replicate 32 0 @ replicate 32 0) ex_quote"
  "wire_faithful ex_tpm_env (replicate 32 0) (CMap True ex_tpm_kvs)
     (own_evidence ex_tpm_env TEE_TPM2_QUOTE_TAG ex_quote (cl_ser (sg_cl ex_tpm_env) (CMap True ex_tpm_kvs)))"
  "qe_accepts ex_qe 16 ex_quote"
proof -
  show "honest_lib (ex_certlib True) ex_pem" by (simp add: honest_lib_def ex_certlib_def)
  show "qe_accepts ex_qe 16 ex_quote"
    unfolding qe_accepts_def by (intro conjI exI [of _ SGX_QL_QV_RESULT_OK]) (simp_all add: ex_qe_def qv_fatal_def)
  show "wire_faithful ex_tpm_env (replicate 32 0) (CMap True ex_tpm_kvs)
     (own_evidence ex_tpm_env TEE_TPM2_QUOTE_TAG ex_quote (cl_ser (sg_cl ex_tpm_env) (CMap True ex_tpm_kvs)))"
    using ex_tpm_wire by (simp add: ex_tpm_ser)
qed (simp_all add: ex_hs_def get_tpm2_quote_def myseal_def ex_te_def MAXSIZE_SER_TPM2_QUOTE_def ex_tpm_item
      ex_tpm_keys [unfolded ex_te_def] ex_tpm_quotes)

theorem client_attestation_completes_witness:
  "\<exists>x509. on_client_cert (ex_certlib True) (make_certificate_evidence_tpm2 ex_tpm_env ex_te ex_qg (\<lambda>_. True)
       (\<lambda>_. replicate 32 0) True) ex_hs () = Inr ((1, Some x509, Some ()), ()) \<and>
     server_verify ex_tpm_env ex_qe (ex_certlib True) 0 (Some x509) (Some ex_hs) 0 self_signed () = Inr (1, ())"
proof -
  have qe: "qe_verify_tpm2 ex_qe [9] (hs_server_random ex_hs) () = ((0, 0), ())" "(0::int) \<le> 0"
    by (simp_all add: ex_qe_def)
  have key: "cb_key (ex_certlib True) = ()" by simp
  show ?thesis
    using client_attestation_completes [OF ex_tpm_setting(1-7) _ _ ex_tpm_setting(10) qe] ex_tpm_setting(8,9)
    unfolding key by (simp add: ex_tpm_ser) blast
qed

end
