(* ===== verification/Tls_Enclave.thy ===== *)
theory Tls_Enclave
  imports Tls_Ra
begin

text \<open>
  The functions of \<open>src/libtlsra.c\<close> that keep certificates and keys in files, in a
  build for an enclave: PEM text goes through edge calls to the host
  (\<open>tls_sgx/Host/host_lib.c\<close>).  The edge calls are taken to reach the host.  Also the
  check of the report extension that no callback uses, \<open>mysslra_verify\<close>.
\<close>

section \<open>The host\<close>

text \<open>
  Opening with \<open>O_CREAT\<close> keeps what an existing file holds; \<open>op\<close> says whether the file
  can be opened.
\<close>

definition ocall_open :: "(string \<Rightarrow> bool) \<Rightarrow> string \<Rightarrow> fs \<Rightarrow> bool \<times> fs" where
  "ocall_open op path fs =
     (if \<not> op path then (False, fs)
      else (True, fs(path := Some (case fs path of None \<Rightarrow> [] | Some bs \<Rightarrow> bs))))"

text \<open>A write at the start of the open file that takes \<open>n\<close> of the bytes.\<close>

definition ocall_write :: "nat \<Rightarrow> string \<Rightarrow> bytes \<Rightarrow> fs \<Rightarrow> nat \<times> fs" where
  "ocall_write n path buf fs =
     (let k = min n (length buf) in
      (k, fs(path := Some (take k buf @ drop k (case fs path of None \<Rightarrow> [] | Some bs \<Rightarrow> bs)))))"

text \<open>
  The bytes stored, none on an error: a file that does not open or does not fit the buffer
  of \<open>ilen\<close> bytes.
\<close>

definition ocall_readfile :: "(string \<Rightarrow> bool) \<Rightarrow> string \<Rightarrow> nat \<Rightarrow> fs \<Rightarrow> bytes" where
  "ocall_readfile op fname ilen fs =
     (if \<not> op fname then []
      else case fs fname of None \<Rightarrow> [] | Some bs \<Rightarrow> if length bs > ilen then [] else bs)"

section \<open>The enclave\<close>

definition X509_SIZE :: nat where "X509_SIZE = 32 * 1024"
definition KEY_PEM_SIZE :: nat where "KEY_PEM_SIZE = 32 * 1024"

text \<open>
  The three writers differ in the conversion to PEM only.  \<open>n\<close> is what the write takes;
  whatever happens the result is 0.
\<close>

definition pem_write_enclave :: "(string \<Rightarrow> bool) \<Rightarrow> nat \<Rightarrow> bytes option \<Rightarrow> string \<Rightarrow> fs \<Rightarrow> int \<times> fs" where
  "pem_write_enclave op n pem fname fs =
     (let (fd, fs) = ocall_open op fname fs in
      if \<not> fd then (0, fs)
      else case pem of
        None \<Rightarrow> (0, fs)
      | Some buf \<Rightarrow> let (wsz, fs) = ocall_write n fname buf fs in (0, fs))"

definition enclave_X509_write :: "(string \<Rightarrow> bool) \<Rightarrow> nat \<Rightarrow> bytes option \<Rightarrow> string \<Rightarrow> fs \<Rightarrow> int \<times> fs" where
  "enclave_X509_write op n pem fname fs = pem_write_enclave op n pem fname fs"

definition enclave_PUBKEY_write :: "(string \<Rightarrow> bool) \<Rightarrow> nat \<Rightarrow> bytes option \<Rightarrow> string \<Rightarrow> fs \<Rightarrow> int \<times> fs" where
  "enclave_PUBKEY_write op n pem fname fs = pem_write_enclave op n pem fname fs"

definition enclave_PrivateKey_write :: "(string \<Rightarrow> bool) \<Rightarrow> nat \<Rightarrow> bytes option \<Rightarrow> string \<Rightarrow> fs \<Rightarrow> int \<times> fs" where
  "enclave_PrivateKey_write op n pem fname fs = pem_write_enclave op n pem fname fs"

text \<open>\<open>mem\<close>: the buffer could be allocated.\<close>

definition pem_read_enclave ::
    "(string \<Rightarrow> bool) \<Rightarrow> bool \<Rightarrow> nat \<Rightarrow> (bytes \<Rightarrow> 'x option) \<Rightarrow> string \<Rightarrow> fs \<Rightarrow> 'x option" where
  "pem_read_enclave op mem cap parse fname fs =
     (if \<not> mem then None
      else let buf = ocall_readfile op fname cap fs in
        if length buf > 0 then parse buf else None)"

definition enclave_X509_read :: "(string \<Rightarrow> bool) \<Rightarrow> bool \<Rightarrow> (bytes \<Rightarrow> 'x option) \<Rightarrow> string \<Rightarrow> fs \<Rightarrow> 'x option" where
  "enclave_X509_read op mem parse fname fs = pem_read_enclave op mem X509_SIZE parse fname fs"

definition enclave_PKEY_read :: "(string \<Rightarrow> bool) \<Rightarrow> bool \<Rightarrow> (bytes \<Rightarrow> 'x option) \<Rightarrow> string \<Rightarrow> fs \<Rightarrow> 'x option" where
  "enclave_PKEY_read op mem parse fname fs = pem_read_enclave op mem KEY_PEM_SIZE parse fname fs"

section \<open>The report extension\<close>

text \<open>
  \<open>target\<close>: the object identifier could be made; \<open>ext\<close>: the certificate's extension.  The
  extension is printed, not compared with anything.
\<close>

definition mysslra_verify :: "bool \<Rightarrow> bytes option \<Rightarrow> int \<Rightarrow> bytes \<Rightarrow> int" where
  "mysslra_verify target ext ok nonce =
     (if \<not> target then 0 else case ext of None \<Rightarrow> ok | Some val \<Rightarrow> ok)"

lemma mysslra_verify_ignores: "mysslra_verify True ext ok nonce = ok"
  by (simp add: mysslra_verify_def split: option.splits)

text \<open>
  \<open>mysslra_x509\<close>, which makes a certificate with a report extension and is called by
  nobody.  \<open>ca\<close> is the certificate and the key read from the files of an authority, if
  one is given; the last result is the key stored, which precedes the later errors.  The
  signature is not modelled.
\<close>

record rsagen =
  rg_ctx :: bool
  rg_init :: int
  rg_bits :: int
  rg_keygen :: int

definition REPORT_OID :: string where "REPORT_OID = ''1.2.840.113741.1337.2''"

definition mysslra_x509 ::
    "'k certlib \<Rightarrow> rsagen \<Rightarrow> ('k cert option \<times> 'k option) option \<Rightarrow> bytes \<Rightarrow>
     (int \<times> 'k cert option \<times> 'k option) cres" where
  "mysslra_x509 cb rg ca report =
     (if \<not> rg_ctx rg \<or> rg_init rg \<noteq> 1 \<or> rg_bits rg \<noteq> 1 \<or> rg_keygen rg \<noteq> 1 then Inr (0, None, None)
      else
        let pkey = Some (cb_key cb) in
        if \<not> cb_set_pubkey cb then Inr (0, None, pkey)
        else
          let report_ext = (\<lambda>exts. if \<not> cb_obj cb REPORT_OID then Inr (0, None, pkey)
                 else Inr (1, Some \<lparr>x_pubkey = pkey, x_exts = exts @ [(REPORT_OID, report)]\<rparr>, pkey))
          in case ca of
            Some (cert, crtkey) \<Rightarrow>
              cbind (deref cert) (\<lambda>_.
              if \<not> cb_set_issuer cb then Inr (0, None, pkey)
              else if crtkey = None then Inr (0, None, pkey)
              else report_ext [])
          | None \<Rightarrow>
              let exts = add_ext cb ''2.5.29.15'' (add_ext cb ''2.5.29.19'' []) in
              if \<not> cb_set_issuer cb then Inr (0, None, pkey)
              else report_ext exts)"

text \<open>The report it stores is the one \<open>mysslra_verify\<close> finds.\<close>

lemma mysslra_x509_report:
  assumes "mysslra_x509 cb rg ca report = Inr (1, Some cert, pkey)"
  shows "last (x_exts cert) = (REPORT_OID, report) \<and> x_pubkey cert = pkey"
  using assms by (auto simp: mysslra_x509_def Let_def cbind_eq_Inr split: if_splits option.splits)

section \<open>Files written in an enclave\<close>

lemmas enclave_writers = enclave_X509_write_def enclave_PUBKEY_write_def enclave_PrivateKey_write_def

text \<open>The result is 0 for every outcome; on the host it distinguishes them.\<close>

lemma enclave_write_result:
  "fst (enclave_X509_write op n pem fname fs) = 0" "fst (enclave_PUBKEY_write op n pem fname fs) = 0"
  "fst (enclave_PrivateKey_write op n pem fname fs) = 0"
  by (simp_all add: enclave_writers pem_write_enclave_def ocall_open_def ocall_write_def Let_def split: option.splits)

lemma enclave_write_contents:
  assumes "op fname" "length bs \<le> n"
  shows "snd (pem_write_enclave op n (Some bs) fname fs)
     = fs(fname := Some (bs @ drop (length bs) (case fs fname of None \<Rightarrow> [] | Some old \<Rightarrow> old)))"
  using assms by (simp add: pem_write_enclave_def ocall_open_def ocall_write_def Let_def min_def)

text \<open>
  A key written to a new file is read back; written over a longer file it is
  followed by what is left of the old contents, on the host it is not.
\<close>

lemma enclave_key_roundtrip:
  assumes "op fname" "length bs \<le> n" "fs fname = None" "bs \<noteq> []" "length bs \<le> KEY_PEM_SIZE"
  shows "enclave_PKEY_read op True parse fname (snd (enclave_PrivateKey_write op n (Some bs) fname fs)) = parse bs"
  using assms
  by (simp add: enclave_PKEY_read_def pem_read_enclave_def enclave_writers enclave_write_contents ocall_readfile_def)

lemma enclave_write_keeps_tail:
  assumes "op fname" "length bs \<le> n" "fs fname = Some old" "length bs < length old"
  shows "snd (enclave_PrivateKey_write op n (Some bs) fname fs) fname = Some (bs @ drop (length bs) old)"
    "bs @ drop (length bs) old \<noteq> bs" "snd (TLSRA_PrivateKey_write op (Some bs) fname fs) fname = Some bs"
  using assms by (simp_all add: enclave_writers enclave_write_contents TLSRA_PrivateKey_write_def pem_write_host_def)

text \<open>A file longer than the buffer counts as missing.\<close>

lemma enclave_read_too_long:
  "fs fname = Some bs \<Longrightarrow> KEY_PEM_SIZE < length bs \<Longrightarrow> enclave_PKEY_read op mem parse fname fs = None"
  by (simp add: enclave_PKEY_read_def pem_read_enclave_def ocall_readfile_def)

end
