(* ===== verification/Enclave_Libc.thy ===== *)
theory Enclave_Libc
  imports Io
begin

text \<open>
  The C library of the enclave (\<open>src/libio.c\<close>): the system calls and the output
  functions that enclave code and OpenSSL find instead of those of libc, and the host
  functions they reach.  The functions that print a message and return \<open>-1\<close> are
  left out.

  \<open>okc\<close> says whether an edge call reaches the host.  What the process prints is a
  string, to which every call appends.
\<close>

unbundle bit_operations_syntax

section \<open>System calls\<close>

text \<open>A result variable without an initial value is read whether or not the host has set it.\<close>

definition libc_open :: "('w \<Rightarrow> bool) \<Rightarrow> 'w os \<Rightarrow> string \<Rightarrow> int \<Rightarrow> int \<Rightarrow> 'w \<Rightarrow> (int \<times> 'w) cres" where
  "libc_open okc os path flags mode w =
     (let (ret, w) = (if okc w then let (r, w) = ocall_file_open os path flags mode w in (Val r, w) else (Garbage, w))
      in cbind (rd ret) (\<lambda>ret. Inr (ret, w)))"

definition libc_close :: "('w \<Rightarrow> bool) \<Rightarrow> 'w os \<Rightarrow> int \<Rightarrow> 'w \<Rightarrow> (int \<times> 'w) cres" where
  "libc_close okc os fd w =
     (let (ret, w) = (if okc w then let (r, w) = ocall_file_close os fd w in (Val r, w) else (Garbage, w))
      in cbind (rd ret) (\<lambda>ret. Inr (ret, w)))"

definition libc_chmod :: "('w \<Rightarrow> bool) \<Rightarrow> 'w os \<Rightarrow> string \<Rightarrow> int \<Rightarrow> 'w \<Rightarrow> (int \<times> 'w) cres" where
  "libc_chmod okc os path mode w =
     (let (ret, w) = (if okc w then let (r, w) = ocall_file_chmod os path mode w in (Val r, w) else (Garbage, w))
      in cbind (rd ret) (\<lambda>ret. Inr (ret, w)))"

text \<open>\<open>write\<close> cuts the \<open>size_t\<close> of the host to an \<open>int\<close>; \<open>read\<close> keeps all of it.\<close>

definition libc_write :: "('w \<Rightarrow> bool) \<Rightarrow> 'w os \<Rightarrow> int \<Rightarrow> bytes \<Rightarrow> 'w \<Rightarrow> int \<times> 'w" where
  "libc_write okc os fd buf w =
     (let (rsz, w) = (if okc w then ocall_file_write os fd buf w else (0, w))
      in (sint (ucast rsz :: u32), w))"

definition libc_read :: "('w \<Rightarrow> bool) \<Rightarrow> 'w os \<Rightarrow> int \<Rightarrow> u64 \<Rightarrow> 'w \<Rightarrow> (int \<times> bytes) \<times> 'w" where
  "libc_read okc os fd sz w =
     (let ((rsz, bs), w) = (if okc w then ocall_file_read os fd sz w else ((0, []), w))
      in ((sint rsz, bs), w))"

text \<open>
  The host stores an \<open>int\<close> where the enclave has a 64-bit \<open>off_t\<close>: the upper half of
  the result is never set.
\<close>

definition libc_lseek :: "('w \<Rightarrow> bool) \<Rightarrow> 'w os \<Rightarrow> int \<Rightarrow> int \<Rightarrow> int \<Rightarrow> 'w \<Rightarrow> (int \<times> 'w) cres" where
  "libc_lseek okc os fd offset whence w =
     (let (low, w) = (if okc w then let (r, w) = ocall_file_lseek os fd offset whence w in (Val r, w) else (Garbage, w));
          high = (Garbage :: int slot)
      in cbind (rd low) (\<lambda>low. cbind (rd high) (\<lambda>high.
         Inr (high * 2 ^ 32 + low mod 2 ^ 32, w))))"

section \<open>Output\<close>

definition ocall_print :: "string \<Rightarrow> string \<Rightarrow> string" where
  "ocall_print s out = out @ c_str s"

definition ocall_putchar :: "char \<Rightarrow> string \<Rightarrow> int \<times> string" where
  "ocall_putchar c out = (of_char c, out @ [c])"

text \<open>The number of objects written, 1 or 0, is counted once more for the newline.\<close>

definition ocall_putn :: "string \<Rightarrow> string \<Rightarrow> u64 \<times> string" where
  "ocall_putn s out = ((if s = [] then 0 else 1) + 1, out @ s @ [CHR 0x0A])"

text \<open>
  The formatted printers.  \<open>text\<close> is what \<open>vsnprintf\<close> makes of the arguments
  (\<open>None\<close>: it fails and returns -1).  A failure makes the size 0, and the empty
  buffer is printed.
\<close>

definition libc_printf :: "string option \<Rightarrow> string \<Rightarrow> (int \<times> string) cres" where
  "libc_printf text out =
     (case text of
        None \<Rightarrow> Inl OutOfBounds
      | Some s \<Rightarrow> Inr (sint (of_nat (length s) :: u32), ocall_print (s @ [NUL]) out))"

definition libc_fprintf :: "string option \<Rightarrow> string \<Rightarrow> (int \<times> string) cres" where
  "libc_fprintf text out = libc_printf text out"

definition libc_fputc :: "char \<Rightarrow> string \<Rightarrow> (int \<times> string) cres" where
  "libc_fputc ch out = libc_printf (Some [ch]) out"

definition libc_fputs :: "string \<Rightarrow> string \<Rightarrow> (int \<times> string) cres" where
  "libc_fputs str out = libc_printf (Some (str @ [CHR 0x0A])) out"

definition libc_putchar :: "bool \<Rightarrow> char \<Rightarrow> string \<Rightarrow> (int \<times> string) cres" where
  "libc_putchar okc c out =
     (let (rc, out) = (if okc then let (r, out) = ocall_putchar c out in (Val r, out) else (Garbage, out))
      in cbind (rd rc) (\<lambda>rc. Inr (rc, out)))"

definition libc_perror :: "string \<Rightarrow> string \<Rightarrow> string" where
  "libc_perror m out = ocall_print m out"

text \<open>The length reaches the host as an \<open>int\<close>; \<open>ptr\<close> holds the \<open>sz * nm\<close> bytes.\<close>

definition libc_fwrite :: "bool \<Rightarrow> string \<Rightarrow> string \<Rightarrow> u64 \<times> string" where
  "libc_fwrite okc ptr out = (if okc then ocall_putn ptr out else (0, out))"

section \<open>Calls of the SGX port of OpenSSL\<close>

definition u_sgxssl_write :: "'w os \<Rightarrow> int \<Rightarrow> bytes \<Rightarrow> 'w \<Rightarrow> int \<times> 'w" where
  "u_sgxssl_write os fd buf w = os_write os fd buf w"

definition u_sgxssl_read :: "'w os \<Rightarrow> int \<Rightarrow> u64 \<Rightarrow> 'w \<Rightarrow> (int \<times> bytes) \<times> 'w" where
  "u_sgxssl_read os fd count w = os_read os fd count w"

definition u_sgxssl_close :: "'w os \<Rightarrow> int \<Rightarrow> 'w \<Rightarrow> int \<times> 'w" where
  "u_sgxssl_close os fd w = os_close os fd w"

text \<open>The fields of a \<open>struct timeb\<close>; \<open>clock\<close> is the real-time clock, or its failure.\<close>

record timeb =
  tb_time :: int
  tb_millitm :: u16
  tb_timezone :: int
  tb_dstflag :: int

definition TIMEB_SZ :: nat where "TIMEB_SZ = 16"

definition u_sgxssl_ftime :: "(int \<times> int) option \<Rightarrow> nat \<Rightarrow> timeb option \<Rightarrow> timeb option" where
  "u_sgxssl_ftime clock timeb_len timeptr =
     (case timeptr of
        None \<Rightarrow> None
      | Some tb \<Rightarrow>
          if timeb_len < TIMEB_SZ then Some tb
          else case clock of
            None \<Rightarrow> Some tb
          | Some (sec, nsec) \<Rightarrow>
              Some (tb\<lparr>tb_time := sec, tb_millitm := word_of_int (nsec div 1000000), tb_timezone := 0,
                       tb_dstflag := 0\<rparr>))"

section \<open>The calls of enclave and host\<close>

lemma sint_u64_small: "- (2 ^ 63) \<le> n \<Longrightarrow> n < 2 ^ 63 \<Longrightarrow> sint (word_of_int n :: u64) = n"
  by (simp add: signed_of_int signed_take_bit_int_eq_self)

lemma sint_u32_small: "- (2 ^ 31) \<le> n \<Longrightarrow> n < 2 ^ 31 \<Longrightarrow> sint (ucast (word_of_int n :: u64) :: u32) = n"
  by (simp add: unsigned_of_int signed_of_int signed_take_bit_take_bit signed_take_bit_int_eq_self)

lemma enclave_calls_agree:
  assumes "okc w"
  shows "libc_open okc os path flags mode w = Inr (os_open os path flags mode w) \<and>
     libc_close okc os fd w = Inr (os_close os fd w) \<and>
     libc_chmod okc os path mode w = Inr (os_chmod os path mode w) \<and>
     (\<forall>n w'. os_write os fd buf w = (n, w') \<longrightarrow> - (2 ^ 31) \<le> n \<longrightarrow> n < 2 ^ 31 \<longrightarrow> libc_write okc os fd buf w = (n, w')) \<and>
     (\<forall>n bs w'. os_read os fd sz w = ((n, bs), w') \<longrightarrow> - (2 ^ 63) \<le> n \<longrightarrow> n < 2 ^ 63 \<longrightarrow>
        libc_read okc os fd sz w = ((n, bs), w')) \<and>
     libc_lseek okc os fd off whence w = Inl Uninit"
  using assms
  by (auto simp: libc_open_def libc_close_def libc_chmod_def libc_write_def libc_read_def libc_lseek_def
      ocall_file_open_def file_open_def ocall_file_close_def file_close_def ocall_file_chmod_def file_chmod_def
      ocall_file_write_def file_write_def ocall_file_read_def file_read_def Let_def case_prod_beta
      sint_u32_small sint_u64_small)

text \<open>A write of two gibibytes is reported to the enclave as a negative number.\<close>

lemma libc_write_wraps:
  "okc w \<Longrightarrow> os_write os fd buf w = (2 ^ 31, w') \<Longrightarrow> libc_write okc os fd buf w = (- (2 ^ 31), w')"
  by (simp add: libc_write_def ocall_file_write_def file_write_def)

text \<open>A caller that compares the result of \<open>fwrite\<close> with the number of objects never finds it equal to one.\<close>

lemma libc_fwrite_count: "fst (libc_fwrite okc ptr out) \<noteq> 1 \<or> ptr = []"
  by (simp add: libc_fwrite_def ocall_putn_def)

lemma c_str_terminated: "nul_free s \<Longrightarrow> c_str (s @ [NUL]) = s"
  by (induction s) (simp_all add: c_str_def)

lemma libc_printf_text:
  "nul_free s \<Longrightarrow> length s < 2 ^ 31 \<Longrightarrow> libc_printf (Some s) out = Inr (int (length s), out @ s)"
  by (simp add: libc_printf_def ocall_print_def c_str_terminated)

end
