(* ===== verification/Host_Tpm2.thy ===== *)
theory Host_Tpm2
  imports Tpm_Daemon Tls_Ra
begin

text \<open>
  The host side of TLS attestation with a TPM (\<open>tls_sgx/Host/tpm2.c\<close>): the edge
  calls by which \<open>libtpm2.c\<close> gets a quote, from the TPM or through the attester daemon,
  and \<open>ocall_verify_tpm2_quote\<close>, by which \<open>libintel.c\<close> has the quote of its peer
  verified.

  The generated edge code hands the host a zeroed buffer of \<open>qbsize\<close> bytes and copies it
  to the enclave.  Files are read whole; OpenSSL, TSS2 and libcbor are parameters.
\<close>

unbundle bit_operations_syntax

section \<open>Making a quote\<close>

text \<open>
  The direct access measures the own process and then runs the same code as the daemon,
  whose size result it returns.  The result of the measurement is not looked at.
\<close>

definition ocall_make_tpm2_quote ::
    "'w denv \<Rightarrow> int \<Rightarrow> bytes \<Rightarrow> nat \<Rightarrow> nat \<Rightarrow> fp_htable \<Rightarrow> 'w \<Rightarrow> ((nat \<times> bytes slot) \<times> fp_htable \<times> 'w) cres" where
  "ocall_make_tpm2_quote dv pid nonce nsize qbsize tbl w =
     cbind (sha256_pid (dv_ms dv) pid 0 tbl w) (\<lambda>((rc, dig, _), tbl, w).
     cbind (rd (case dig of None \<Rightarrow> Garbage | Some d \<Rightarrow> Val d)) (\<lambda>apphash.
     cbind (make_tpm2_quote_with_pid dv nonce nsize qbsize apphash pid w) (\<lambda>((_, sz, buf), w).
     Inr ((sz, buf), tbl, w))))"

text \<open>What the loop over the reply finds: the last \<open>tpm2_quote\<close> (\<open>Garbage\<close> size: none).\<close>

fun reply_loop :: "(cbor \<times> cbor) list \<Rightarrow> bytes slot \<Rightarrow> bytes slot cres" where
  "reply_loop [] q = Inr q"
| "reply_loop ((key, val) # kvs) q =
     cbind (cbor_string (Some key)) (\<lambda>k.
     if key_matches ''nonce'' k then cbind (cbor_bytestring (Some val)) (\<lambda>_. reply_loop kvs q)
     else if key_matches ''tpm2_quote'' k then cbind (cbor_bytestring (Some val)) (\<lambda>v. reply_loop kvs (Val v))
     else reply_loop kvs q)"

text \<open>
  \<open>ocall_make_tpm2_quote_via_daemon\<close>: the size stored and the buffer.  \<open>nonce\<close> is sealed;
  \<open>aux\<close> is what the unset field of the request holds.  The size is that of the whole
  reply and not of the quote copied.  The result of the second receive is looked at when
  its data has been used.
\<close>

definition ocall_make_tpm2_quote_via_daemon ::
    "nat \<Rightarrow> 'w sockops \<Rightarrow> cbor_lib \<Rightarrow> string \<Rightarrow> u16 \<Rightarrow> bytes \<Rightarrow> nat \<Rightarrow> string \<Rightarrow> 'w \<Rightarrow> ((nat \<times> bytes) \<times> 'w) cres" where
  "ocall_make_tpm2_quote_via_daemon fuel so cl slack aux nonce qbsize dpath w =
     (if length nonce > 1024 then Inl Abort
      else
        cbind (sock_connect_daemon so slack dpath w) (\<lambda>(con, w).
        if con < 0 then Inl Abort
        else
          cbind (sock_send fuel so con
                   (enc_head \<lparr>th_cmd = TPMD_REQ_ATTEST, th_aux = aux, th_len = of_nat (length nonce)\<rparr> @ nonce) w)
            (\<lambda>(rc, w).
          if rc < 0 then Inl Abort
          else
            cbind (sock_recv fuel so con (replicate HEAD_SZ Garbage) w) (\<lambda>((rc, hb), w).
            if rc < 0 then Inl Abort
            else
              cbind (buf_get hb 0 HEAD_SZ) (\<lambda>bs.
              let len = unat (th_len (dec_head bs)) in
              if 1024 < len then Inl Abort
              else
                cbind (sock_recv fuel so con (replicate len Garbage) w) (\<lambda>((rc, data), w).
                cbind (buf_get data 0 len) (\<lambda>pkt.
                case cl_load cl pkt of
                  Some (CMap d kvs) \<Rightarrow>
                    cbind (reply_loop kvs Garbage) (\<lambda>q.
                    cbind (rd q) (\<lambda>quote.
                    if qbsize < length quote then Inl Abort
                    else if rc < 0 then Inl Abort
                    else Inr ((len, quote @ replicate (qbsize - length quote) 0), w)))
                | _ \<Rightarrow> Inl Abort)))))))"

section \<open>Verifying a quote\<close>

record ('w, 'k) hostv =
  hv_cl :: cbor_lib
  hv_ts :: tss
  hv_ev :: "'k evp"
  hv_pem :: "bytes \<Rightarrow> 'k option"
  hv_open :: "string \<Rightarrow> 'w \<Rightarrow> bytes option"
  hv_fread :: "bytes \<Rightarrow> nat"

text \<open>\<open>hv_fread\<close> is how many of the bytes of a file \<open>fread\<close> delivers.\<close>

record tpm2_parts =
  tp_quote :: "bytes option"
  tp_attest :: "attest slot"
  tp_sig :: "signature slot"

definition tpm2_parts_init :: tpm2_parts where
  "tpm2_parts_init = \<lparr>tp_quote = None, tp_attest = Garbage, tp_sig = Garbage\<rparr>"

text \<open>
  The loop over the map.  Handle and length of a key are taken before its type is looked
  at.  The codes of the unmarshalling are not looked at.
\<close>

fun parts_loop :: "tss \<Rightarrow> (cbor \<times> cbor) list \<Rightarrow> tpm2_parts \<Rightarrow> tpm2_parts cres" where
  "parts_loop ts [] st = Inr st"
| "parts_loop ts ((key, val) # kvs) st =
     cbind (cbor_string (Some key)) (\<lambda>k.
     if key_matches ''quote'' k then
       cbind (cbor_bytestring (Some val)) (\<lambda>q.
       let (rc, at) = un_attest ts q in
       parts_loop ts kvs (st\<lparr>tp_quote := Some q, tp_attest := (if rc = 0 then Val at else Garbage)\<rparr>))
     else if key_matches ''sign'' k then
       cbind (cbor_bytestring (Some val)) (\<lambda>s.
       let (rc, sig) = un_signature ts s in
       parts_loop ts kvs (st\<lparr>tp_sig := (if rc = 0 then Val sig else Garbage)\<rparr>))
     else if key_matches ''app-hash'' k then cbind (cbor_bytestring (Some val)) (\<lambda>_. parts_loop ts kvs st)
     else parts_loop ts kvs st)"

definition AK_FILE :: string where "AK_FILE = ''ak_pub.pem''"
definition REG_FILE :: string where "REG_FILE = ''reg_quote.bin''"

text \<open>
  From the registered quote on: \<open>rc\<close> is the value that the code has there, and what the
  jumps to the end return when they do not set it.
\<close>

definition check_registered :: "('w, 'k) hostv \<Rightarrow> attest slot \<Rightarrow> int \<Rightarrow> 'w \<Rightarrow> int cres" where
  "check_registered hv at rc w =
     (case hv_open hv REG_FILE w of
        None \<Rightarrow> Inr (-1)
      | Some ser_qt \<Rightarrow>
          if hv_fread hv ser_qt \<noteq> length ser_qt then Inr (-1)
          else
            let (trc, reg) = un_attest (hv_ts hv) ser_qt in
            if trc \<noteq> 0 then Inr rc
            else if at_type reg \<noteq> TPM2_ST_ATTEST_QUOTE then Inr rc
            else
              cbind (rd at) (\<lambda>peer.
              cbind (comp_pcr_selection (at_pcrs reg) (at_pcrs peer)) (\<lambda>c.
              if c \<noteq> 0 then Inr rc else Inr 0)))"

text \<open>
  \<open>ocall_verify_tpm2_quote\<close>.  A signature that does not verify is reported and nothing else;
  neither the nonce nor the application hash is compared with anything.
\<close>

definition ocall_verify_tpm2_quote :: "('w, 'k) hostv \<Rightarrow> bytes \<Rightarrow> bytes \<Rightarrow> 'w \<Rightarrow> int cres" where
  "ocall_verify_tpm2_quote hv sertpm2 nonce w =
     (case cl_load (hv_cl hv) sertpm2 of
        Some (CMap d kvs) \<Rightarrow>
          cbind (parts_loop (hv_ts hv) kvs tpm2_parts_init) (\<lambda>st.
          case hv_open hv AK_FILE w of
            None \<Rightarrow> Inr (-1)
          | Some pem \<Rightarrow>
              (case hv_pem hv pem of
                 None \<Rightarrow> Inr (-1)
               | Some key \<Rightarrow>
                   cbind (rd (tp_sig st)) (\<lambda>sig.
                   cbind (verify_tpm2_quote (hv_ev hv) (case tp_quote st of None \<Rightarrow> [] | Some q \<Rightarrow> q) sig (Some key)) (\<lambda>rc.
                   check_registered hv (tp_attest st) rc w))))
      | _ \<Rightarrow> Inr (-1))"

section \<open>What the host's verdict says\<close>

text \<open>The three parts that both ends put in the map, in the order of \<open>make_tpm2_quote\<close>.\<close>

lemma parts_loop_bundle:
  assumes "un_attest ts q = (0, at)" "un_signature ts sg = (0, sig)"
  shows "parts_loop ts (ex_bundle q sg h) tpm2_parts_init =
     Inr \<lparr>tp_quote = Some q, tp_attest = Val at, tp_sig = Val sig\<rparr>"
  using assms by (simp add: ex_bundle_def tpm2_parts_init_def)

definition host_files :: "('w, 'k) hostv \<Rightarrow> 'k \<Rightarrow> attest \<Rightarrow> 'w \<Rightarrow> bool" where
  "host_files hv key reg w \<longleftrightarrow>
     (\<exists>pem qt. hv_open hv AK_FILE w = Some pem \<and> hv_pem hv pem = Some key \<and>
        hv_open hv REG_FILE w = Some qt \<and> hv_fread hv qt = length qt \<and> un_attest (hv_ts hv) qt = (0, reg) \<and>
        at_type reg = TPM2_ST_ATTEST_QUOTE)"

lemma check_registered_files:
  assumes "host_files hv key reg w" "pcr_wf (at_pcrs reg)" "pcr_wf (at_pcrs at)"
  shows "check_registered hv (Val at) rc w = Inr (if pcr_view (at_pcrs reg) = pcr_view (at_pcrs at) then 0 else rc)"
  using assms by (auto simp: host_files_def check_registered_def comp_pcr_selection_eq)

text \<open>
  The verdict of the host on a well-formed quote: 0 when the selections of PCRs agree,
  whatever the signature check said, and the result of the signature check when they
  differ, so that other PCRs with a good signature are a success too.  Only a bad
  signature with other PCRs is refused.  The nonce has no part in it.
\<close>

lemma host_verdict:
  assumes "cl_load (hv_cl hv) ser = Some (CMap d (ex_bundle q sg h))"
    and "un_attest (hv_ts hv) q = (0, at)" "un_signature (hv_ts hv) sg = (0, sig)"
    and "host_files hv key reg w" "pcr_wf (at_pcrs reg)" "pcr_wf (at_pcrs at)"
    and "verify_tpm2_quote (hv_ev hv) q sig (Some key) = Inr v"
  shows "ocall_verify_tpm2_quote hv ser nonce w = Inr (if pcr_view (at_pcrs reg) = pcr_view (at_pcrs at) then 0 else v)"
  using assms check_registered_files [OF assms(4-6)]
  by (auto simp: ocall_verify_tpm2_quote_def parts_loop_bundle host_files_def)

text \<open>
  The calls of an enclave whose host is this one.  A host that stops ends the enclave
  too; that case, a failed call here, is not used below.
\<close>

definition host_qve :: "'w qve \<Rightarrow> ('w, 'k) hostv \<Rightarrow> 'w qve" where
  "host_qve qe hv = qe\<lparr>qe_verify_tpm2 := \<lambda>ser nonce w.
     case ocall_verify_tpm2_quote hv ser nonce w of Inr orc \<Rightarrow> ((0, orc), w) | Inl _ \<Rightarrow> ((1, 0), w)\<rparr>"

lemma host_qve_accepts: "qe_accepts (host_qve qe hv) n quote = qe_accepts qe n quote"
  by (simp add: qe_accepts_def host_qve_def)

text \<open>
  C9.  A forged TPM quote is accepted: for a TLS client whose enclave passes on a TPM
  quote with a signature that does not verify, the host of the server reports 0 as long
  as the PCR selection is the registered one, and the callback of the server accepts
  the certificate.
\<close>

theorem forged_tpm_quote_accepted:
  assumes "honest_lib cb pem" "honest_keys env te sha pem der" "length (hs_server_random ssl) = 32"
    and "get_tpm2_quote te (\<lambda>_. True) atflag (hs_server_random ssl) w = Inr (Val tq, w1)"
      "tq \<noteq> []" "length tq \<le> MAXSIZE_SER_TPM2_QUOTE"
    and "claims = tpm2_claims_item (sg_cl env) (sha der) (hs_server_random ssl) tq"
    and "honest_quotes qg (sha (cl_ser (sg_cl env) claims) @ replicate 32 0) quote"
    and "wire_faithful env (sha der) claims (own_evidence env TEE_TPM2_QUOTE_TAG quote (cl_ser (sg_cl env) claims))"
    and "qe_accepts qe m quote"
    and load: "cl_load (hv_cl hv) tq = Some (CMap d (ex_bundle q sg h))"
    and un: "un_attest (hv_ts hv) q = (0, at)" "un_signature (hv_ts hv) sg = (0, sig)"
    and pcrs: "host_files hv key reg w1" "pcr_wf (at_pcrs reg)" "pcr_wf (at_pcrs at)"
      "pcr_view (at_pcrs reg) = pcr_view (at_pcrs at)"
    and forged: "verify_tpm2_quote (hv_ev hv) q sig (Some key) = Inr (-1)"
  shows "\<exists>x509. on_client_cert cb (make_certificate_evidence_tpm2 env te qg (\<lambda>_. True) sha atflag) ssl w =
       Inr ((1, Some x509, Some (cb_key cb)), w1) \<and>
     server_verify env (host_qve qe hv) cb 0 (Some x509) (Some ssl) 0 self_signed w1 = Inr (1, w1)"
proof -
  have "ocall_verify_tpm2_quote hv tq (hs_server_random ssl) w1 = Inr 0"
    using host_verdict [OF load un pcrs(1-3) forged] pcrs(4) by simp
  then have "qe_verify_tpm2 (host_qve qe hv) tq (hs_server_random ssl) w1 = ((0, 0), w1)"
    by (simp add: host_qve_def)
  from attested_certificate [OF assms(1-9) _ this, of m] assms(10) show ?thesis
    by (auto simp: host_qve_accepts dest: verify_cert_server)
qed

section \<open>A concrete host\<close>

definition ex_hostv :: "bytes \<Rightarrow> (unit, unit) hostv" where
  "ex_hostv good = \<lparr>hv_cl = \<lparr>cl_load = (\<lambda>_. Some (CMap True (ex_bundle [1] [4] (replicate 32 7)))), cl_ser = (\<lambda>_. [])\<rparr>,
     hv_ts = ex_tss, hv_ev = cr_evp (ex_crypto good), hv_pem = (\<lambda>_. Some ()), hv_open = (\<lambda>_ _. Some [0]),
     hv_fread = (\<lambda>bs. length bs)\<rparr>"

lemma ex_host_facts:
  "cl_load (hv_cl (ex_hostv g)) ser = Some (CMap True (ex_bundle [1] [4] (replicate 32 7)))"
  "un_attest (hv_ts (ex_hostv g)) q = (0, ex_attest)"
  "un_signature (hv_ts (ex_hostv g)) [4] = (0, SigRsaSsa TPM2_ALG_SHA256 [4])"
  "host_files (ex_hostv g) () ex_attest ()" "pcr_wf (at_pcrs ex_attest)"
  "verify_tpm2_quote (hv_ev (ex_hostv g)) q (SigRsaSsa TPM2_ALG_SHA256 [4]) (Some ()) = Inr (if [4] = g then 0 else -1)"
  by (simp_all add: ex_hostv_def host_files_def ex_tss_def ex_attest_def pcr_wf_def verify_tpm2_quote_def
      sig_parts_def known_hash_def padding_ok_def ex_crypto_def)

theorem forged_tpm_quote_accepted_witness:
  "\<exists>x509. on_client_cert (ex_certlib True) (make_certificate_evidence_tpm2 ex_tpm_env ex_te ex_qg (\<lambda>_. True)
       (\<lambda>_. replicate 32 0) True) ex_hs () = Inr ((1, Some x509, Some ()), ()) \<and>
     server_verify ex_tpm_env (host_qve ex_qe (ex_hostv [5])) (ex_certlib True) 0 (Some x509) (Some ex_hs) 0 self_signed () =
       Inr (1, ())"
proof -
  have bad: "verify_tpm2_quote (hv_ev (ex_hostv [5])) [1] (SigRsaSsa TPM2_ALG_SHA256 [4]) (Some ()) = Inr (-1)"
    by (simp add: ex_host_facts)
  have key: "cb_key (ex_certlib True) = ()" by simp
  show ?thesis
    using forged_tpm_quote_accepted [OF ex_tpm_setting ex_host_facts(1-5) ex_host_facts(5) refl bad]
    unfolding key by blast
qed

end
