(* ===== verification/Enclave_Args.thy ===== *)
theory Enclave_Args
  imports Sgx_Evidence
begin

text \<open>
  How the host of a TLS enclave hands over its command line
  (\<open>tls_sgx/Host/host_lib.c\<close>, \<open>tls_sgx/Enclave/enclave_client.c\<close>): \<open>makeargs\<close> packs the
  arguments into one buffer with their positions, the edge call copies both, and
  \<open>makeargv\<close> turns the positions back into an argument vector for \<open>main\<close>.  Also the
  option scanners of host, client and server, and the address parser of the client.

  An argument vector is a list of pointers to C strings that ends with \<open>None\<close>.  Sums of
  argument lengths are taken to fit in an \<open>int\<close>; the allocations succeed.
\<close>

unbundle bit_operations_syntax

section \<open>Packing and unpacking\<close>

type_synonym argvec = "string option list"

definition arg :: "argvec \<Rightarrow> nat \<Rightarrow> string cres" where
  "arg argv i = cbind (cnth argv i) deref"

text \<open>\<open>strcpy (buf + pos, s)\<close>\<close>

definition strcpy_at :: "bbuf \<Rightarrow> nat \<Rightarrow> string \<Rightarrow> bbuf cres" where
  "strcpy_at b pos s =
     (let n = length s + 1 in
      if pos + n \<le> length b then Inr (take pos b @ map Val (to_bytes s @ [0]) @ drop (pos + n) b)
      else Inl OutOfBounds)"

definition makeargs_len :: "argvec \<Rightarrow> nat \<Rightarrow> nat \<Rightarrow> nat cres" where
  "makeargs_len argv len i = cbind (arg argv i) (\<lambda>s. Inr (len + (length s + 1)))"

definition makeargs_step :: "argvec \<Rightarrow> bbuf \<times> nat list \<times> nat \<Rightarrow> nat \<Rightarrow> (bbuf \<times> nat list \<times> nat) cres" where
  "makeargs_step argv st i =
     (let (tbuf, targpos, pos) = st in
      cbind (arg argv i) (\<lambda>s.
      cbind (strcpy_at tbuf pos s) (\<lambda>tbuf.
      Inr (tbuf, targpos @ [pos], pos + (length s + 1)))))"

text \<open>The positions, the buffer and its length; \<open>targpos\<close> is filled from its start.\<close>

definition makeargs :: "nat \<Rightarrow> argvec \<Rightarrow> (nat list \<times> bbuf \<times> nat) cres" where
  "makeargs argc argv =
     cbind (cfold (makeargs_len argv) 0 [0..<argc]) (\<lambda>len.
     cbind (cfold (makeargs_step argv) (replicate len Garbage, [], 0) [0..<argc]) (\<lambda>(tbuf, targpos, pos).
     Inr (targpos, tbuf, len)))"

text \<open>
  A pointer into the buffer is its offset.  The positions come from the host and are not
  compared with the size of the buffer.
\<close>

definition makeargv :: "nat \<Rightarrow> int list \<Rightarrow> bbuf \<Rightarrow> nat option list cres" where
  "makeargv argc argpos buf =
     cbind (cmapM (\<lambda>i. cbind (cnth argpos i) (\<lambda>p.
       if 0 \<le> p \<and> p \<le> int (length buf) then Inr (Some (nat p)) else Inl OutOfBounds)) [0..<argc]) (\<lambda>ps.
     Inr (ps @ [None]))"

text \<open>\<open>e_main\<close>; \<open>prog\<close> is the program's \<open>main\<close>, which sees the strings at the pointers.\<close>

definition argv_strings :: "bbuf \<Rightarrow> nat option list \<Rightarrow> argvec cres" where
  "argv_strings buf ptrs =
     cmapM (\<lambda>p. case p of None \<Rightarrow> Inr None | Some off \<Rightarrow> cbind (cstr_at buf off) (\<lambda>s. Inr (Some s))) ptrs"

definition e_main :: "(nat \<Rightarrow> argvec \<Rightarrow> 'w \<Rightarrow> 'w cres) \<Rightarrow> nat \<Rightarrow> int list \<Rightarrow> bbuf \<Rightarrow> 'w \<Rightarrow> (sgx_status \<times> 'w) cres" where
  "e_main prog argc argpos buf w =
     cbind (makeargv argc argpos buf) (\<lambda>ptrs.
     cbind (argv_strings buf ptrs) (\<lambda>argv.
     cbind (prog argc argv w) (\<lambda>w. Inr (SGX_SUCCESS, w))))"

section \<open>Options\<close>

definition c_isspace :: "char \<Rightarrow> bool" where
  "c_isspace c \<longleftrightarrow> c = CHR '' '' \<or> (9 \<le> (of_char c :: nat) \<and> (of_char c :: nat) \<le> 13)"

definition digit :: "char \<Rightarrow> int option" where
  "digit c = (let n = of_char c :: int in if 48 \<le> n \<and> n \<le> 57 then Some (n - 48) else None)"

fun digits_val :: "string \<Rightarrow> int \<Rightarrow> int" where
  "digits_val [] acc = acc"
| "digits_val (c # s) acc = (case digit c of None \<Rightarrow> acc | Some d \<Rightarrow> digits_val s (10 * acc + d))"

text \<open>\<open>atol\<close> of the C library, on a 64-bit \<open>long\<close>.\<close>

definition atol :: "string \<Rightarrow> int cres" where
  "atol s =
     (let s = dropWhile c_isspace s;
          v = (case s of
                 [] \<Rightarrow> 0
               | c # r \<Rightarrow> if c = CHR ''-'' then - digits_val r 0 else if c = CHR ''+'' then digits_val r 0
                          else digits_val s 0)
      in if - (2 ^ 63) \<le> v \<and> v < 2 ^ 63 then Inr v else Inl LibContract)"

definition to_int :: "int \<Rightarrow> int" where
  "to_int v = sint (word_of_int v :: u32)"

text \<open>The \<open>i\<close>-th argument as a number; past the last one it is NULL.\<close>

definition arg_num :: "argvec \<Rightarrow> nat \<Rightarrow> int cres" where
  "arg_num argv i = cbind (arg argv i) atol"

text \<open>A character of an argument; the end of the list is the terminating NUL.\<close>

definition arg_char :: "string \<Rightarrow> nat \<Rightarrow> char" where
  "arg_char s i = (if i < length s then s ! i else NUL)"

record tlsopts =
  op_Cflag :: bool
  op_count :: int
  op_dflag :: bool
  op_atflag :: bool
  op_dpath :: "string option"
  op_port :: u16
  op_rflag :: int
  op_tflag :: int
  op_vflag :: bool
  op_Vflag :: bool
  op_server :: "string option"

definition tlsopts_init :: tlsopts where
  "tlsopts_init = \<lparr>op_Cflag = False, op_count = 1, op_dflag = False, op_atflag = False, op_dpath = None,
     op_port = 1100, op_rflag = 0, op_tflag = 0, op_vflag = False, op_Vflag = False, op_server = None\<rparr>"

text \<open>
  The \<open>switch\<close> of the host's \<open>getoption\<close>, at index \<open>i\<close>: the options and the index that the
  loop goes on from.  The test \<open>i > argc\<close> is never true inside the loop.
\<close>

definition host_option :: "nat \<Rightarrow> argvec \<Rightarrow> char \<Rightarrow> nat \<Rightarrow> tlsopts \<Rightarrow> (nat option \<times> tlsopts) cres" where
  "host_option argc argv c i op =
     (if c = CHR ''C'' then Inr (Some i, op\<lparr>op_Cflag := True\<rparr>)
      else if c = CHR ''c'' then
        if argc < i then Inr (None, op)
        else cbind (arg_num argv (i + 1)) (\<lambda>v. Inr (Some (i + 1), op\<lparr>op_count := to_int v\<rparr>))
      else if c = CHR ''d'' then Inr (Some i, op\<lparr>op_dflag := True\<rparr>)
      else if c = CHR ''D'' then
        cbind (arg argv (i + 1)) (\<lambda>s. Inr (Some (i + 1), op\<lparr>op_atflag := True, op_dpath := Some (take 108 s)\<rparr>))
      else if c = CHR ''p'' then
        if argc < i then Inr (None, op)
        else cbind (arg_num argv (i + 1)) (\<lambda>v. Inr (Some (i + 1), op\<lparr>op_port := word_of_int v\<rparr>))
      else if c = CHR ''r'' then
        if argc < i then Inr (None, op)
        else cbind (arg_num argv (i + 1)) (\<lambda>v. Inr (Some (i + 1), op\<lparr>op_rflag := to_int v\<rparr>))
      else if c = CHR ''t'' then
        if argc < i then Inr (None, op)
        else cbind (arg_num argv (i + 1)) (\<lambda>v. Inr (Some (i + 1), op\<lparr>op_tflag := to_int v\<rparr>))
      else if c = CHR ''v'' then Inr (Some i, op\<lparr>op_vflag := True\<rparr>)
      else if c = CHR ''V'' then Inr (Some i, op\<lparr>op_Vflag := True\<rparr>)
      else Inr (Some i, op))"

text \<open>The client of \<open>tls_sgx/Enclave/tlsra_client.c\<close>.\<close>

definition client_option :: "nat \<Rightarrow> argvec \<Rightarrow> char \<Rightarrow> nat \<Rightarrow> tlsopts \<Rightarrow> (nat option \<times> tlsopts) cres" where
  "client_option argc argv c i op =
     (if c = CHR ''d'' then Inr (Some i, op\<lparr>op_dflag := True\<rparr>)
      else if c = CHR ''D'' then
        cbind (arg argv (i + 1)) (\<lambda>s. Inr (Some (i + 1), op\<lparr>op_atflag := True, op_dpath := Some (take 108 s)\<rparr>))
      else if c = CHR ''r'' then
        cbind (arg_num argv (i + 1)) (\<lambda>v. Inr (Some (i + 1), op\<lparr>op_rflag := to_int v\<rparr>))
      else if c = CHR ''s'' then
        cbind (arg argv (i + 1)) (\<lambda>s. Inr (Some (i + 1), op\<lparr>op_server := Some (take 80 s)\<rparr>))
      else if c = CHR ''t'' then
        if argc < i then Inr (None, op)
        else cbind (arg_num argv (i + 1)) (\<lambda>v. Inr (Some (i + 1), op\<lparr>op_tflag := to_int v\<rparr>))
      else if c = CHR ''v'' then Inr (Some i, op\<lparr>op_vflag := True\<rparr>)
      else Inr (Some i, op))"

text \<open>The server of \<open>test/tlsra_server.c\<close>: \<open>-r\<close> takes no number.\<close>

definition server_option :: "nat \<Rightarrow> argvec \<Rightarrow> char \<Rightarrow> nat \<Rightarrow> tlsopts \<Rightarrow> (nat option \<times> tlsopts) cres" where
  "server_option argc argv c i op =
     (if c = CHR ''C'' then Inr (Some i, op\<lparr>op_Cflag := True\<rparr>)
      else if c = CHR ''c'' then
        if argc < i then Inr (None, op)
        else cbind (arg_num argv (i + 1)) (\<lambda>v. Inr (Some (i + 1), op\<lparr>op_count := to_int v\<rparr>))
      else if c = CHR ''d'' then Inr (Some i, op\<lparr>op_dflag := True\<rparr>)
      else if c = CHR ''p'' then
        if argc < i then Inr (None, op)
        else cbind (arg_num argv (i + 1)) (\<lambda>v. Inr (Some (i + 1), op\<lparr>op_port := word_of_int v\<rparr>))
      else if c = CHR ''r'' then Inr (Some i, op\<lparr>op_rflag := 1\<rparr>)
      else if c = CHR ''t'' then
        if argc < i then Inr (None, op)
        else cbind (arg_num argv (i + 1)) (\<lambda>v. Inr (Some (i + 1), op\<lparr>op_tflag := to_int v\<rparr>))
      else if c = CHR ''v'' then Inr (Some i, op\<lparr>op_vflag := True\<rparr>)
      else if c = CHR ''V'' then Inr (Some i, op\<lparr>op_Vflag := True\<rparr>)
      else Inr (Some i, op))"

text \<open>
  The loop, which the three share: \<open>k\<close> is how many arguments are left.  An option that
  takes a number skips it.
\<close>

fun option_loop ::
    "(char \<Rightarrow> nat \<Rightarrow> tlsopts \<Rightarrow> (nat option \<times> tlsopts) cres) \<Rightarrow> nat \<Rightarrow> argvec \<Rightarrow> nat \<Rightarrow> nat \<Rightarrow> tlsopts \<Rightarrow>
     (int \<times> tlsopts) cres" where
  "option_loop sw argc argv 0 i op = Inr (int i, op)"
| "option_loop sw argc argv (Suc k) i op =
     (if i < argc then
        cbind (arg argv i) (\<lambda>s.
        if arg_char s 0 = CHR ''-'' then
          cbind (sw (arg_char s 1) i op) (\<lambda>(nxt, op).
          case nxt of None \<Rightarrow> Inr (-1, op) | Some j \<Rightarrow> option_loop sw argc argv k (j + 1) op)
        else Inr (int i, op))
      else Inr (int i, op))"

definition host_getoption :: "nat \<Rightarrow> argvec \<Rightarrow> (int \<times> tlsopts) cres" where
  "host_getoption argc argv = option_loop (host_option argc argv) argc argv argc 1 tlsopts_init"

definition client_getoption :: "nat \<Rightarrow> argvec \<Rightarrow> (int \<times> tlsopts) cres" where
  "client_getoption argc argv = option_loop (client_option argc argv) argc argv argc 1 tlsopts_init"

definition server_getoption :: "nat \<Rightarrow> argvec \<Rightarrow> (int \<times> tlsopts) cres" where
  "server_getoption argc argv = option_loop (server_option argc argv) argc argv argc 1 tlsopts_init"

text \<open>
  \<open>stripaddr\<close>: the four bytes of the address.  Neither the number of points nor the
  digits are checked; \<open>pos\<close> beyond 3 writes behind the union.
\<close>

fun stripaddr_loop :: "string \<Rightarrow> int \<Rightarrow> nat \<Rightarrow> byte slot list \<Rightarrow> (byte slot list \<times> nat \<times> int) cres" where
  "stripaddr_loop [] j pos un = Inr (un, pos, j)"
| "stripaddr_loop (c # s) j pos un =
     (if c = CHR ''.'' then
        if pos < length un then stripaddr_loop s 0 (pos + 1) (un[pos := Val (word_of_int j)]) else Inl OutOfBounds
      else stripaddr_loop s (j * 10 + (of_char c - 48)) pos un)"

definition stripaddr :: "string \<Rightarrow> u32 cres" where
  "stripaddr s =
     cbind (stripaddr_loop s 0 0 (replicate 4 Garbage)) (\<lambda>(un, pos, j).
     if pos < length un then cbind (cmapM rd (un[pos := Val (word_of_int j)])) (\<lambda>bs. Inr (le_word bs))
     else Inl OutOfBounds)"

section \<open>The enclave sees the arguments of the host\<close>

definition main_argv :: "string list \<Rightarrow> argvec" where
  "main_argv args = map Some args @ [None]"

definition packed :: "string list \<Rightarrow> bytes" where
  "packed args = concat (map (\<lambda>s. to_bytes s @ [0]) args)"

lemma packed_simps [simp]: "packed [] = []" "packed (s # args) = to_bytes s @ 0 # packed args"
  "packed (as @ bs) = packed as @ packed bs"
  by (simp_all add: packed_def)

lemma arg_main_argv: "arg (main_argv args) i = (if i < length args then Inr (args ! i) else if i = length args then Inl NullDeref else Inl OutOfBounds)"
  by (auto simp: arg_def main_argv_def cnth_def nth_append)

lemma makeargs_len_ok: "k \<le> length args \<Longrightarrow> cfold (makeargs_len (main_argv args)) 0 [0..<k] = Inr (length (packed (take k args)))"
  by (induction k) (simp_all add: cfold_append makeargs_len_def arg_main_argv take_Suc_conv_app_nth)

definition positions :: "string list \<Rightarrow> nat \<Rightarrow> nat list" where
  "positions args k = map (\<lambda>i. length (packed (take i args))) [0..<k]"

lemma makeargs_steps:
  assumes "k \<le> length args" "n = length (packed args)"
  shows "cfold (makeargs_step (main_argv args)) (replicate n Garbage, [], 0) [0..<k] =
     Inr (map Val (packed (take k args)) @ replicate (n - length (packed (take k args))) Garbage,
          positions args k, length (packed (take k args)))"
  using assms(1)
proof (induction k)
  case 0
  then show ?case by (simp add: positions_def)
next
  case (Suc k)
  then have k: "k < length args" by simp
  let ?p = "packed (take k args)" and ?s = "args ! k"
  have "args = take k args @ ?s # drop (Suc k) args" using k by (rule id_take_nth_drop)
  then have "packed args = packed (take k args @ ?s # drop (Suc k) args)" by (rule arg_cong)
  then have n: "n = length ?p + (length ?s + 1) + length (packed (drop (Suc k) args))" using assms(2) by simp
  show ?case
    using Suc k n
    by (simp add: cfold_append makeargs_step_def arg_main_argv strcpy_at_def Let_def take_Suc_conv_app_nth positions_def)
qed

lemma makeargs_ok: "makeargs (length args) (main_argv args) =
    Inr (positions args (length args), map Val (packed args), length (packed args))"
  using makeargs_len_ok [of "length args" args] makeargs_steps [of "length args" args]
  by (simp add: makeargs_def)

lemma packed_string:
  assumes "i < length args" "nul_free (args ! i)"
  shows "cstr_at (map Val (packed args)) (length (packed (take i args))) = Inr (args ! i)"
proof -
  have "args = take i args @ args ! i # drop (Suc i) args" using assms(1) by (rule id_take_nth_drop)
  then have "packed args = packed (take i args @ args ! i # drop (Suc i) args)" by (rule arg_cong)
  then have "drop (length (packed (take i args))) (map Val (packed args)) =
      map Val (to_bytes (args ! i)) @ Val 0 # map Val (packed (drop (Suc i) args))"
    by (simp add: drop_map)
  then show ?thesis by (rule cstr_at_string [OF assms(2)])
qed

lemma packed_prefix: "length (packed (take i args)) \<le> length (packed args)"
  by (metis append_take_drop_id le_add1 length_append packed_simps(3))

lemma makeargv_ok: "makeargv (length args) (map int (positions args (length args))) (map Val (packed args)) =
    Inr (map Some (positions args (length args)) @ [None])"
proof -
  have "cmapM (\<lambda>i. cbind (cnth (map int (positions args (length args))) i) (\<lambda>p.
       if 0 \<le> p \<and> p \<le> int (length (map Val (packed args))) then Inr (Some (nat p)) else Inl OutOfBounds)) [0..<length args] =
     Inr (map (\<lambda>i. Some (length (packed (take i args)))) [0..<length args])"
    by (rule cmapM_Inr_map) (simp add: positions_def packed_prefix)
  then show ?thesis by (simp add: makeargv_def positions_def)
qed

lemma argv_strings_ok:
  assumes "list_all nul_free args"
  shows "argv_strings (map Val (packed args)) (map Some (positions args (length args)) @ [None]) = Inr (main_argv args)"
proof -
  have "cmapM (\<lambda>p. case p of None \<Rightarrow> Inr None | Some off \<Rightarrow> cbind (cstr_at (map Val (packed args)) off) (\<lambda>s. Inr (Some s)))
      (map Some (positions args k)) = Inr (map Some (take k args))" if "k \<le> length args" for k
    using that assms
    by (induction k) (simp_all add: positions_def cmapM_append packed_string list_all_length take_Suc_conv_app_nth)
  from this [of "length args"] show ?thesis by (simp add: argv_strings_def main_argv_def cmapM_append)
qed

text \<open>
  C33.  The program in the enclave gets the argument vector of the host: what
  \<open>makeargs\<close> packs fills its buffer exactly, and \<open>e_main\<close> hands \<open>main\<close> the same
  strings, in order and with the closing NULL.
\<close>

theorem enclave_gets_arguments:
  assumes "list_all nul_free args"
  shows "\<exists>argpos buf. makeargs (length args) (main_argv args) = Inr (argpos, buf, length buf) \<and>
     e_main prog (length args) (map int argpos) buf w =
       cbind (prog (length args) (main_argv args) w) (\<lambda>w. Inr (SGX_SUCCESS, w))"
  using assms by (intro exI [of _ "positions args (length args)"] exI [of _ "map Val (packed args)"] conjI) (simp_all add: makeargs_ok e_main_def makeargv_ok argv_strings_ok)

theorem enclave_gets_arguments_witness:
  "\<exists>argpos buf. makeargs 2 (main_argv [''c'', ''-d'']) = Inr (argpos, buf, length buf) \<and>
     e_main (\<lambda>n av w. Inr (n, av)) 2 (map int argpos) buf (0, []) = Inr (SGX_SUCCESS, (2, main_argv [''c'', ''-d'']))"
  using enclave_gets_arguments [of "[''c'', ''-d'']" "\<lambda>n av w. Inr (n, av)" "(0, [])"] by (simp add: numeral_2_eq_2)

text \<open>A host that passes a position outside the buffer makes the enclave read outside it.\<close>

lemma positions_unchecked:
  "int (length buf) < p \<Longrightarrow> e_main prog 1 [p] buf w = Inl OutOfBounds"
  by (simp add: e_main_def makeargv_def)

section \<open>What the option scanners return\<close>

definition sw_ok :: "(char \<Rightarrow> nat \<Rightarrow> tlsopts \<Rightarrow> (nat option \<times> tlsopts) cres) \<Rightarrow> nat \<Rightarrow> bool" where
  "sw_ok sw argc \<longleftrightarrow> (\<forall>c i op j op'. i < argc \<longrightarrow> sw c i op = Inr (j, op') \<longrightarrow> (\<exists>k. j = Some k \<and> i \<le> k \<and> k < argc))"

lemma arg_main_argv_Inr: "arg (main_argv args) i = Inr s \<longleftrightarrow> i < length args \<and> s = args ! i"
  by (auto simp: arg_main_argv)

lemma switches_ok:
  "sw_ok (host_option (length args) (main_argv args)) (length args)"
  "sw_ok (client_option (length args) (main_argv args)) (length args)"
  "sw_ok (server_option (length args) (main_argv args)) (length args)"
  by (auto simp: sw_ok_def host_option_def client_option_def server_option_def arg_num_def cbind_eq_Inr
      arg_main_argv_Inr split: if_split_asm)

lemma option_loop_stops:
  assumes "sw_ok sw (length args)" "length args \<le> i + k" "i \<le> length args"
    and "option_loop sw (length args) (main_argv args) k i op = Inr (r, op')"
  shows "\<exists>n. r = int n \<and> i \<le> n \<and> n \<le> length args \<and> (n < length args \<longrightarrow> arg_char (args ! n) 0 \<noteq> CHR ''-'')"
  using assms
proof (induction sw "length args" "main_argv args" k i op rule: option_loop.induct)
  case (2 sw k i op)
  show ?case
  proof (cases "i < length args \<and> arg_char (args ! i) 0 = CHR ''-''")
    case True
    then have a: "arg (main_argv args) i = Inr (args ! i)" by (simp add: arg_main_argv)
    from True a "2.prems"(4) obtain nxt op1 where n: "sw (arg_char (args ! i) 1) i op = Inr (nxt, op1)"
      "(case nxt of None \<Rightarrow> Inr (-1, op1) | Some j \<Rightarrow> option_loop sw (length args) (main_argv args) k (j + 1) op1) = Inr (r, op')"
      by (auto simp: cbind_eq_Inr)
    with "2.prems"(1) True obtain j where j: "nxt = Some j" "i \<le> j" "j < length args" unfolding sw_ok_def by blast
    obtain m where "r = int m" "j + 1 \<le> m" "m \<le> length args" "m < length args \<longrightarrow> arg_char (args ! m) 0 \<noteq> CHR ''-''"
      using "2.hyps" [of "args ! i" "(nxt, op1)" nxt op1 j] True a n j "2.prems"(1,2) by auto
    with j(2) show ?thesis by (intro exI [of _ m]) simp
  next
    case False
    with "2.prems"(3,4) show ?thesis by (cases "i < length args") (auto simp: arg_main_argv)
  qed
qed auto

text \<open>
  Each scanner returns the number of the first argument that does not start with a dash,
  or the number of arguments; -1 is never returned.
\<close>

lemmas getoption_defs = host_getoption_def client_getoption_def server_getoption_def

lemma getoption_stops:
  assumes "args \<noteq> []" "host_getoption (length args) (main_argv args) = Inr (r, op) \<or>
      client_getoption (length args) (main_argv args) = Inr (r, op) \<or>
      server_getoption (length args) (main_argv args) = Inr (r, op)"
  shows "\<exists>n. r = int n \<and> 1 \<le> n \<and> n \<le> length args \<and> (n < length args \<longrightarrow> arg_char (args ! n) 0 \<noteq> CHR ''-'')"
proof -
  have le: "length args \<le> 1 + length args" "1 \<le> length args" using assms(1) by (cases args; simp)+
  note run = option_loop_stops [OF _ le]
  show ?thesis using assms(2) unfolding getoption_defs by (elim disjE) (rule run, rule switches_ok, assumption)+
qed

text \<open>An option without its number reads the NULL at the end of the vector.\<close>

lemma missing_number: "host_getoption 2 (main_argv [p, ''-c'']) = Inl NullDeref"
  by (simp add: host_getoption_def numeral_2_eq_2 arg_main_argv arg_char_def host_option_def arg_num_def)

section \<open>Addresses\<close>

lemma stripaddr_loop_result:
  assumes "stripaddr_loop s j pos un = Inr (un', pos', j')"
  shows "pos' = pos + count_list s CHR ''.'' \<and> length un' = length un \<and> (\<forall>i \<ge> pos'. un' ! i = un ! i)"
  using assms
  by (induction s j pos un rule: stripaddr_loop.induct) (auto split: if_split_asm)

text \<open>Only an address with three points is parsed; with fewer, bytes stay unset.\<close>

lemma stripaddr_points:
  assumes "stripaddr s = Inr v"
  shows "count_list s CHR ''.'' = 3"
proof -
  obtain un pos j bs where l: "stripaddr_loop s 0 0 (replicate 4 Garbage) = Inr (un, pos, j)" "pos < length un"
    "cmapM rd (un[pos := Val (word_of_int j)]) = Inr bs"
    using assms by (auto simp: stripaddr_def cbind_eq_Inr split: if_split_asm)
  note r = stripaddr_loop_result [OF l(1)]
  have "\<not> pos < 3"
  proof
    assume "pos < 3"
    then have "un[pos := Val (word_of_int j)] ! 3 = Garbage" using r by simp
    then show False using cmapM_nth [OF l(3), of 3] r by simp
  qed
  then show ?thesis using r l(2) by simp
qed

end
