(* ===== verification/Sock_Inet.thy ===== *)
theory Sock_Inet
  imports Prelude
begin

text \<open>
  The internet sockets of the TLS programs (\<open>src/libsock.c\<close>): \<open>sock_connect\<close>,
  \<open>sock_serveropen\<close>, \<open>sock_accept\<close>, their edge calls and the enclave side.

  The system calls are the record \<open>inetops\<close>; an address is the pair of the bytes of
  the address and of the port as they lie in \<open>struct sockaddr_in\<close>.  The machine is
  little-endian.
\<close>

unbundle bit_operations_syntax

section \<open>System calls\<close>

type_synonym inet_addr = "u32 \<times> u16"

record 'w inetops =
  in_socket :: "'w \<Rightarrow> int \<times> 'w"
  in_connect :: "int \<Rightarrow> inet_addr \<Rightarrow> 'w \<Rightarrow> int \<times> 'w"
  in_nodelay :: "int \<Rightarrow> 'w \<Rightarrow> int \<times> 'w"
  in_reuseaddr :: "int \<Rightarrow> 'w \<Rightarrow> int \<times> 'w"
  in_bind :: "int \<Rightarrow> inet_addr \<Rightarrow> 'w \<Rightarrow> int \<times> 'w"
  in_listen :: "int \<Rightarrow> int \<Rightarrow> 'w \<Rightarrow> int \<times> 'w"
  in_accept :: "int \<Rightarrow> 'w \<Rightarrow> int \<times> 'w"

definition htons :: "u16 \<Rightarrow> u16" where
  "htons v = push_bit 8 v OR drop_bit 8 v"

definition htonl :: "u32 \<Rightarrow> u32" where
  "htonl v = push_bit 24 v OR (push_bit 8 v AND 0xFF0000) OR (drop_bit 8 v AND 0xFF00) OR drop_bit 24 v"

section \<open>Host side\<close>

text \<open>The descriptor is returned although \<open>connect\<close> failed.\<close>

definition sock_connect :: "'w inetops \<Rightarrow> u32 \<Rightarrow> u16 \<Rightarrow> 'w \<Rightarrow> int \<times> 'w" where
  "sock_connect io ip port w =
     (let (sock, w) = in_socket io w in
      if sock < 0 then (sock, w)
      else let (rc, w) = in_connect io sock (ip, htons port) w in
        if rc < 0 then (sock, w)
        else let (_, w) = in_nodelay io sock w in (sock, w))"

text \<open>The same after a failed \<open>bind\<close> or \<open>listen\<close>.\<close>

definition sock_serveropen :: "'w inetops \<Rightarrow> u32 \<Rightarrow> u16 \<Rightarrow> 'w \<Rightarrow> int \<times> 'w" where
  "sock_serveropen io ip port w =
     (let (sock, w) = in_socket io w in
      if sock < 0 then (sock, w)
      else
        let (_, w) = in_reuseaddr io sock w;
            (rc, w) = in_bind io sock (htonl ip, htons port) w
        in if rc < 0 then (sock, w)
           else let (_, w) = in_listen io sock 10 w in (sock, w))"

text \<open>The option is set on the listening socket.\<close>

definition sock_accept :: "'w inetops \<Rightarrow> int \<Rightarrow> 'w \<Rightarrow> (int \<times> 'w) cres" where
  "sock_accept io sock w =
     (let (fd, w) = in_accept io sock w in
      if fd < 0 then Inl Abort
      else let (_, w) = in_nodelay io sock w in Inr (fd, w))"

definition ocall_sock_connect :: "'w inetops \<Rightarrow> u32 \<Rightarrow> u16 \<Rightarrow> 'w \<Rightarrow> int \<times> 'w" where
  "ocall_sock_connect io ip port w = sock_connect io ip port w"

definition ocall_sock_serveropen :: "'w inetops \<Rightarrow> u32 \<Rightarrow> u16 \<Rightarrow> 'w \<Rightarrow> int \<times> 'w" where
  "ocall_sock_serveropen io ip port w = sock_serveropen io ip port w"

definition ocall_sock_accept :: "'w inetops \<Rightarrow> int \<Rightarrow> 'w \<Rightarrow> (int \<times> 'w) cres" where
  "ocall_sock_accept io sock w = sock_accept io sock w"

section \<open>Enclave side\<close>

text \<open>The result is read whether or not the edge call reached the host.\<close>

definition enclave_sock_connect :: "('w \<Rightarrow> bool) \<Rightarrow> 'w inetops \<Rightarrow> u32 \<Rightarrow> u16 \<Rightarrow> 'w \<Rightarrow> (int \<times> 'w) cres" where
  "enclave_sock_connect okc io ip port w =
     (if okc w then Inr (ocall_sock_connect io ip port w) else Inl Uninit)"

definition enclave_sock_serveropen :: "('w \<Rightarrow> bool) \<Rightarrow> 'w inetops \<Rightarrow> u32 \<Rightarrow> u16 \<Rightarrow> 'w \<Rightarrow> (int \<times> 'w) cres" where
  "enclave_sock_serveropen okc io ip port w =
     (if okc w then Inr (ocall_sock_serveropen io ip port w) else Inl Uninit)"

definition enclave_sock_accept :: "('w \<Rightarrow> bool) \<Rightarrow> 'w inetops \<Rightarrow> int \<Rightarrow> 'w \<Rightarrow> (int \<times> 'w) cres" where
  "enclave_sock_accept okc io sock w = (if okc w then ocall_sock_accept io sock w else Inl Uninit)"

section \<open>Properties\<close>

lemma htons_involution: "htons (htons v) = v"
  by (rule bit_word_eqI) (auto simp: htons_def bit_simps)

text \<open>
  The result says nothing about the connection: it is the descriptor of the
  socket, whether or not the peer could be reached.
\<close>

lemma sock_connect_result: "fst (sock_connect io ip port w) = fst (in_socket io w)"
  by (simp add: sock_connect_def Let_def case_prod_beta)

lemma sock_serveropen_result: "fst (sock_serveropen io ip port w) = fst (in_socket io w)"
  by (simp add: sock_serveropen_def Let_def case_prod_beta)

text \<open>The two functions put one number into different byte orders.\<close>

lemma address_orders:
  assumes "in_socket io w = (s, w1)" "0 \<le> s" "in_reuseaddr io s w1 = (r, w2)"
  shows "sock_connect io ip port w =
       (let (rc, w) = in_connect io s (ip, htons port) w1 in
        if rc < 0 then (s, w) else let (_, w) = in_nodelay io s w in (s, w)) \<and>
     sock_serveropen io ip port w =
       (let (rc, w) = in_bind io s (htonl ip, htons port) w2 in
        if rc < 0 then (s, w) else let (_, w) = in_listen io s 10 w in (s, w))"
  using assms by (simp add: sock_connect_def sock_serveropen_def)

end
