(* ===== verification/Tls_Samples.thy ===== *)
theory Tls_Samples
  imports Enclave_Args Sock_Inet Tls_Ra
begin

text \<open>
  The client and the server that try TLS with attestation (\<open>test/tlsra_client.c\<close>,
  \<open>test/tlsra_server.c\<close>, \<open>test/libtest.c\<close>): the test message and its check, the two
  transfer loops, and the two programs around \<open>TLSRA_client_init\<close> and
  \<open>TLSRA_server_init\<close>.

  OpenSSL and the system calls are parameters; what the programs print is left out,
  except the counts of wrong bytes and whether the server prints \<open>Success\<close>.
\<close>

unbundle bit_operations_syntax

section \<open>Sockets of the tests\<close>

text \<open>Here a failed step returns -1, unlike in \<open>Sock_Inet\<close>.\<close>

definition test_sock_serveropen :: "'w inetops \<Rightarrow> u32 \<Rightarrow> u16 \<Rightarrow> 'w \<Rightarrow> (int \<times> 'w) cres" where
  "test_sock_serveropen io ip port w =
     (let (sock, w) = in_socket io w in
      if sock < 0 then Inr (-1, w)
      else
        let (_, w) = in_reuseaddr io sock w;
            (rc, w) = in_bind io sock (htonl ip, htons port) w
        in if rc < 0 then Inr (-1, w)
           else let (rc, w) = in_listen io sock 10 w in if rc < 0 then Inl Abort else Inr (sock, w))"

definition test_sock_accept :: "'w inetops \<Rightarrow> int \<Rightarrow> 'w \<Rightarrow> (int \<times> 'w) cres" where
  "test_sock_accept io sock w =
     (let (fd, w) = in_accept io sock w in
      if fd < 0 then Inl Abort else let (_, w) = in_nodelay io sock w in Inr (fd, w))"

definition test_sock_connect :: "'w inetops \<Rightarrow> u32 \<Rightarrow> u16 \<Rightarrow> 'w \<Rightarrow> int \<times> 'w" where
  "test_sock_connect io ip port w =
     (let (sock, w) = in_socket io w in
      if sock < 0 then (-1, w)
      else let (rc, w) = in_connect io sock (ip, htons port) w in
        if rc < 0 then (-1, w)
        else let (_, w) = in_nodelay io sock w in (sock, w))"

text \<open>
  \<open>sscanf (str, "%d.%d.%d.%d", ...)\<close>: a number that is not found, and all after it, stay
  unset; one outside \<open>int\<close> is undefined.
\<close>

definition scan_dec :: "string \<Rightarrow> (int \<times> string) option" where
  "scan_dec s =
     (let s = dropWhile c_isspace s;
          (neg, r) = (case s of [] \<Rightarrow> (False, []) | c # r \<Rightarrow>
                        if c = CHR ''-'' then (True, r) else if c = CHR ''+'' then (False, r) else (False, s));
          ds = takeWhile (\<lambda>c. digit c \<noteq> None) r
      in if ds = [] then None else Some ((if neg then - digits_val ds 0 else digits_val ds 0), drop (length ds) r))"

fun scan_addr :: "nat \<Rightarrow> string \<Rightarrow> int slot list cres" where
  "scan_addr 0 s = Inr []"
| "scan_addr (Suc n) s =
     (case scan_dec s of
        None \<Rightarrow> Inr (replicate (Suc n) Garbage)
      | Some (v, r) \<Rightarrow>
          if v < - (2 ^ 31) \<or> 2 ^ 31 \<le> v then Inl LibContract
          else
            (case r of
               [] \<Rightarrow> Inr (Val v # replicate n Garbage)
             | c # r \<Rightarrow>
                 if c = CHR ''.'' then cbind (scan_addr n r) (\<lambda>vs. Inr (Val v # vs))
                 else Inr (Val v # replicate n Garbage)))"

definition str2ip :: "string \<Rightarrow> u32 cres" where
  "str2ip str = cbind (scan_addr 4 str) (\<lambda>ad. cbind (cmapM rd ad) (\<lambda>vs. Inr (le_word (map word_of_int vs))))"

section \<open>The test message\<close>

definition BUF_SIZE :: nat where "BUF_SIZE = 1024"

definition test_byte :: "nat \<Rightarrow> byte" where
  "test_byte i = of_nat (48 + i mod 10)"

definition combuf_init :: "bbuf \<Rightarrow> int \<Rightarrow> bbuf cres" where
  "combuf_init bp sz = cfold (\<lambda>b i. if i < length b then Inr (b[i := Val (test_byte i)]) else Inl OutOfBounds) bp [0..<nat sz]"

text \<open>The number of wrong bytes, which is only printed.\<close>

definition combuf_vryfy :: "bbuf \<Rightarrow> int \<Rightarrow> nat cres" where
  "combuf_vryfy bp sz =
     cfold (\<lambda>err i. cbind (cnth bp i) (\<lambda>s. cbind (rd s) (\<lambda>b. Inr (if b \<noteq> test_byte i then err + 1 else err)))) 0 [0..<nat sz]"

section \<open>Transfer\<close>

record 'w sslib =
  ss_ctx_new :: "'w \<Rightarrow> bool \<times> 'w"
  ss_new :: "'w \<Rightarrow> bool \<times> 'w"
  ss_set_fd :: "int \<Rightarrow> 'w \<Rightarrow> int \<times> 'w"
  ss_connect :: "tls_cfg \<Rightarrow> 'w \<Rightarrow> int \<times> 'w"
  ss_accept :: "tls_cfg \<Rightarrow> 'w \<Rightarrow> int \<times> 'w"
  ss_write :: "bytes \<Rightarrow> 'w \<Rightarrow> int \<times> 'w"
  ss_read :: "nat \<Rightarrow> 'w \<Rightarrow> (int \<times> bytes) \<times> 'w"
  ss_shutdown :: "'w \<Rightarrow> int \<times> 'w"
  ss_client_ca :: "'w \<Rightarrow> bool \<times> 'w"
  sy_write :: "int \<Rightarrow> bytes \<Rightarrow> 'w \<Rightarrow> int \<times> 'w"
  sy_read :: "int \<Rightarrow> nat \<Rightarrow> 'w \<Rightarrow> (int \<times> bytes) \<times> 'w"
  sy_close :: "int \<Rightarrow> 'w \<Rightarrow> int \<times> 'w"
  sy_gets :: "'w \<Rightarrow> string option \<times> 'w"

text \<open>The result stays unset when nothing is to be sent; nobody reads it.\<close>

fun sslwrite :: "'w sslib \<Rightarrow> bytes \<Rightarrow> nat \<Rightarrow> int slot \<Rightarrow> 'w \<Rightarrow> int slot \<times> 'w" where
  "sslwrite sl bp 0 rc w = (rc, w)"
| "sslwrite sl bp (Suc cnt) rc w =
     (let (rc, w) = ss_write sl bp w in if rc \<le> 0 then (Val rc, w) else sslwrite sl bp cnt (Val rc) w)"

text \<open>With \<open>-v\<close> the size is printed before it is set.\<close>

fun tcpwrite :: "'w sslib \<Rightarrow> bool \<Rightarrow> int \<Rightarrow> bytes \<Rightarrow> nat \<Rightarrow> int slot \<Rightarrow> 'w \<Rightarrow> (int slot \<times> 'w) cres" where
  "tcpwrite sl verbose sock bp 0 sz w = Inr (sz, w)"
| "tcpwrite sl verbose sock bp (Suc cnt) sz w =
     cbind (if verbose then rd sz else Inr 0) (\<lambda>_.
     let (n, w) = sy_write sl sock bp w in
     if n \<noteq> int (length bp) then Inr (Val n, w) else tcpwrite sl verbose sock bp cnt (Val n) w)"

text \<open>
  Both receive loops: \<open>get\<close> is the read, \<open>check\<close> whether the message is compared.  The
  results are the number of reads of a wrong size, the buffer, and the counts that the
  comparisons print.  A wrong byte is not an error.
\<close>

fun read_loop ::
    "(nat \<Rightarrow> 'w \<Rightarrow> (int \<times> bytes) \<times> 'w) \<Rightarrow> bool \<Rightarrow> nat \<Rightarrow> nat \<Rightarrow> bbuf \<Rightarrow> int \<Rightarrow> nat list \<Rightarrow> 'w \<Rightarrow>
     ((int \<times> bbuf \<times> nat list) \<times> 'w) cres" where
  "read_loop get check rsz 0 bp err out w = Inr ((err, bp, out), w)"
| "read_loop get check rsz (Suc cnt) bp err out w =
     (let ((sz, bs), w) = get rsz w in
      cbind (buf_put bp 0 (map Val bs)) (\<lambda>bp.
      cbind (if check then cbind (combuf_vryfy bp sz) (\<lambda>n. Inr (out @ [n])) else Inr out) (\<lambda>out.
      read_loop get check rsz cnt bp (if sz \<noteq> int rsz then err + 1 else err) out w)))"

definition sslread :: "'w sslib \<Rightarrow> bool \<Rightarrow> bbuf \<Rightarrow> nat \<Rightarrow> nat \<Rightarrow> 'w \<Rightarrow> ((int \<times> bbuf \<times> nat list) \<times> 'w) cres" where
  "sslread sl Vflag bp rsz count w = read_loop (ss_read sl) Vflag rsz count bp 0 [] w"

definition tcpread :: "'w sslib \<Rightarrow> bool \<Rightarrow> int \<Rightarrow> bbuf \<Rightarrow> nat \<Rightarrow> nat \<Rightarrow> 'w \<Rightarrow> ((int \<times> bbuf \<times> nat list) \<times> 'w) cres" where
  "tcpread sl verbose sock bp rsz cnt w = read_loop (sy_read sl sock) verbose rsz cnt bp 0 [] w"

section \<open>The client\<close>

record clientopts =
  co_count :: int
  co_ip :: u32
  co_port :: u16
  co_tflag :: int
  co_vflag :: bool
  co_pflag :: bool

definition clientopts_init :: clientopts where
  "clientopts_init = \<lparr>co_count = 1, co_ip = 0x100007f, co_port = 1100, co_tflag = 0, co_vflag = False, co_pflag = False\<rparr>"

text \<open>One option as \<open>getopt\<close> gives it; \<open>-d\<close> only sets a flag that is not used.\<close>

definition clientopt :: "clientopts \<Rightarrow> char \<times> string \<Rightarrow> clientopts cres" where
  "clientopt op = (\<lambda>(c, a).
     if c = CHR ''c'' then cbind (atol a) (\<lambda>v. Inr (op\<lparr>co_count := to_int v\<rparr>))
     else if c = CHR ''D'' then cbind (str2ip a) (\<lambda>v. Inr (op\<lparr>co_ip := v\<rparr>))
     else if c = CHR ''p'' then cbind (atol a) (\<lambda>v. Inr (op\<lparr>co_port := word_of_int v\<rparr>))
     else if c = CHR ''t'' then cbind (atol a) (\<lambda>v. Inr (op\<lparr>co_tflag := to_int v\<rparr>))
     else if c = CHR ''v'' then Inr (op\<lparr>co_vflag := True\<rparr>)
     else if c = CHR ''P'' then Inr (op\<lparr>co_pflag := True\<rparr>)
     else Inr op)"

text \<open>
  The code after the label \<open>err\<close> ends with a jump to \<open>err\<close>: \<open>ssl\<close> and \<open>ctx\<close> say whether
  an object is there and whether it has been freed.
\<close>

fun client_err :: "nat \<Rightarrow> bool option \<Rightarrow> bool option \<Rightarrow> 'a cres" where
  "client_err 0 ssl ctx = Inl Diverges"
| "client_err (Suc n) ssl ctx =
     (if ssl = Some True \<or> ctx = Some True then Inl DoubleFree
      else client_err n (map_option (\<lambda>_. True) ssl) (map_option (\<lambda>_. True) ctx))"

definition client_pause :: "'w sslib \<Rightarrow> bool \<Rightarrow> 'w \<Rightarrow> 'w cres" where
  "client_pause sl pflag w =
     (if pflag then let (cp, w) = sy_gets sl w in cbind (deref cp) (\<lambda>_. Inr w) else Inr w)"

definition client_send :: "'w sslib \<Rightarrow> clientopts \<Rightarrow> int \<Rightarrow> bytes \<Rightarrow> 'w \<Rightarrow> 'w cres" where
  "client_send sl op sock msg w =
     (if co_tflag op = 0 then Inr (snd (sslwrite sl msg (nat (co_count op)) Garbage w))
      else if co_tflag op = 1 then
        cbind (tcpwrite sl (co_vflag op) sock msg (nat (co_count op)) Garbage w) (\<lambda>(_, w). Inr w)
      else Inr w)"

definition client_main ::
    "nat \<Rightarrow> 'w sslib \<Rightarrow> 'w inetops \<Rightarrow> tls_cfg \<Rightarrow> (char \<times> string) list \<Rightarrow> 'w \<Rightarrow> (int \<times> 'w) cres" where
  "client_main fuel sl io cfg0 options w =
     cbind (cfold clientopt clientopts_init options) (\<lambda>op.
     cbind (combuf_init (replicate BUF_SIZE (Val 0)) (int BUF_SIZE)) (\<lambda>b.
     cbind (buf_get b 0 BUF_SIZE) (\<lambda>msg.
     let (ctx, w) = ss_ctx_new sl w in
     if \<not> ctx then client_err fuel None None
     else
       let (rc, cfg) = TLSRA_client_init 1 cfg0 in
       if rc \<noteq> 1 then Inl Abort
       else
         let (ssl, w) = ss_new sl w in
         if \<not> ssl then client_err fuel None (Some False)
         else
           let (sock, w) = test_sock_connect io (co_ip op) (co_port op) w in
           if sock < 0 then Inr (-1, w)
           else
             let (rc, w) = ss_set_fd sl sock w in
             if rc \<noteq> 1 then client_err fuel (Some False) (Some False)
             else
               let (rc, w) = ss_connect sl cfg w in
               if rc \<noteq> 1 then client_err fuel (Some False) (Some False)
               else
                 cbind (client_pause sl (co_pflag op) w) (\<lambda>w.
                 cbind (client_send sl op sock msg w) (\<lambda>w.
                 cbind (myssl_shutdown fuel (ss_shutdown sl) 0 w) (\<lambda>(_, _, w).
                 let (_, w) = sy_close sl sock w in Inr (0, w)))))))"

section \<open>The server\<close>

text \<open>
  The configuration of the handshake.  With \<open>-C\<close> the callback that checks evidence is
  replaced by one that returns the verdict of OpenSSL: \<open>tc_verify\<close> is then \<open>None\<close>.
  \<open>None\<close> as the result: the CA file cannot be loaded.
\<close>

definition server_cfg :: "'w sslib \<Rightarrow> tlsopts \<Rightarrow> tls_cfg \<Rightarrow> 'w \<Rightarrow> tls_cfg option \<times> 'w" where
  "server_cfg sl op cfg0 w =
     (let cfg = TLSRA_server_init (op_rflag op) cfg0 in
      if op_Cflag op then
        let (ok, w) = ss_client_ca sl w in
        if \<not> ok then (None, w)
        else (Some (cfg\<lparr>tc_mode := SSL_VERIFY_PEER OR SSL_VERIFY_FAIL_IF_NO_PEER_CERT, tc_verify := None, tc_depth := 10\<rparr>), w)
      else (Some cfg, w))"

text \<open>The transfer: the error count; other values of \<open>-t\<close> count as success.\<close>

definition server_receive :: "'w sslib \<Rightarrow> tlsopts \<Rightarrow> int \<Rightarrow> 'w \<Rightarrow> (int \<times> 'w) cres" where
  "server_receive sl op csock w =
     (if op_tflag op = 0 then
        cbind (sslread sl (op_Vflag op) (replicate BUF_SIZE (Val 0)) 1024 (nat (op_count op)) w) (\<lambda>((err, _, _), w). Inr (err, w))
      else if op_tflag op = 1 then
        cbind (tcpread sl (op_vflag op) csock (replicate BUF_SIZE (Val 0)) 1024 (nat (op_count op)) w) (\<lambda>((err, _, _), w). Inr (err, w))
      else Inr (0, w))"

definition server_finish :: "nat \<Rightarrow> 'w sslib \<Rightarrow> int \<Rightarrow> int \<Rightarrow> bool \<Rightarrow> 'w \<Rightarrow> ((int \<times> bool) \<times> 'w) cres" where
  "server_finish fuel sl sock csock success w =
     cbind (myssl_shutdown fuel (ss_shutdown sl) 0 w) (\<lambda>(_, _, w).
     let (_, w) = sy_close sl csock w;
         (rc, w) = sy_close sl sock w
     in Inr ((if rc \<noteq> 0 then -1 else 0, success), w))"

text \<open>
  The exit status and whether \<open>Success\<close> is printed.  After \<open>err4\<close> the function ends
  without a \<open>return\<close>, which for \<open>main\<close> means 0.
\<close>

definition server_main ::
    "nat \<Rightarrow> 'w sslib \<Rightarrow> 'w inetops \<Rightarrow> tls_cfg \<Rightarrow> nat \<Rightarrow> argvec \<Rightarrow> 'w \<Rightarrow> ((int \<times> bool) \<times> 'w) cres" where
  "server_main fuel sl io cfg0 argc argv w =
     cbind (server_getoption argc argv) (\<lambda>(_, op).
     let (ctx, w) = ss_ctx_new sl w in
     if \<not> ctx then Inr ((-1, False), w)
     else
       let (cfg, w) = server_cfg sl op cfg0 w in
       case cfg of
         None \<Rightarrow> Inr ((0, False), w)
       | Some cfg \<Rightarrow>
         let (ssl, w) = ss_new sl w in
         if \<not> ssl then Inr ((-1, False), w)
         else
           cbind (test_sock_serveropen io 0 (op_port op) w) (\<lambda>(sock, w).
           if sock < 0 then Inr ((-1, False), w)
           else
             cbind (test_sock_accept io sock w) (\<lambda>(csock, w).
             let (rc, w) = ss_set_fd sl csock w in
             if rc \<noteq> 1 then server_finish fuel sl sock csock False w
             else
               let (rc, w) = ss_accept sl cfg w in
               if rc \<noteq> 1 then server_finish fuel sl sock csock False w
               else
                 cbind (server_receive sl op csock w) (\<lambda>(err, w).
                 server_finish fuel sl sock csock (err = 0) w))))"

section \<open>Message and check\<close>

definition test_message :: "nat \<Rightarrow> bytes" where
  "test_message n = map test_byte [0..<n]"

lemma combuf_init_ok:
  assumes "nat sz \<le> length bp"
  shows "combuf_init bp sz = Inr (map Val (test_message (nat sz)) @ drop (nat sz) bp)"
proof -
  have "cfold (\<lambda>b i. if i < length b then Inr (b[i := Val (test_byte i)]) else Inl OutOfBounds) bp [0..<n] =
      Inr (map Val (test_message n) @ drop n bp)" if "n \<le> length bp" for n
    using that
    by (induction n) (simp_all add: cfold_append test_message_def list_update_append Cons_nth_drop_Suc [symmetric])
  from this [OF assms] show ?thesis by (simp add: combuf_init_def)
qed

text \<open>The check counts the positions that differ from the test message.\<close>

lemma combuf_vryfy_counts:
  assumes "nat sz \<le> length bs"
  shows "combuf_vryfy (map Val bs) sz = Inr (card {i. i < nat sz \<and> bs ! i \<noteq> test_byte i})"
proof -
  have "cfold (\<lambda>err i. cbind (cnth (map Val bs) i) (\<lambda>s. cbind (rd s) (\<lambda>b. Inr (if b \<noteq> test_byte i then err + 1 else err))))
      0 [0..<n] = Inr (card {i. i < n \<and> bs ! i \<noteq> test_byte i})" if "n \<le> length bs" for n
    using that
  proof (induction n)
    case (Suc n)
    have "{i. i < Suc n \<and> bs ! i \<noteq> test_byte i} =
        (if bs ! n \<noteq> test_byte n then insert n {i. i < n \<and> bs ! i \<noteq> test_byte i} else {i. i < n \<and> bs ! i \<noteq> test_byte i})"
      by (auto simp: less_Suc_eq)
    with Suc show ?case by (simp add: cfold_append)
  qed simp
  from this [OF assms] show ?thesis by (simp add: combuf_vryfy_def)
qed

lemma combuf_vryfy_message: "combuf_vryfy (map Val (test_message n)) (int n) = Inr 0"
proof -
  have "{i. i < n \<and> test_message n ! i \<noteq> test_byte i} = {}" by (auto simp: test_message_def)
  then show ?thesis using combuf_vryfy_counts [of "int n" "test_message n"] by (simp add: test_message_def)
qed

text \<open>
  A connection that keeps records apart: a write appends its bytes, a read takes the
  oldest record.  The state is the list of the records on their way.
\<close>

definition record_layer :: "bytes list sslib \<Rightarrow> bool" where
  "record_layer sl \<longleftrightarrow> (\<forall>b rs. b \<noteq> [] \<longrightarrow> ss_write sl b rs = (int (length b), rs @ [b])) \<and>
     (\<forall>n b rs. length b \<le> n \<longrightarrow> ss_read sl n (b # rs) = ((int (length b), b), rs))"

lemma sslwrite_records:
  assumes "record_layer sl" "b \<noteq> []"
  shows "snd (sslwrite sl b n rc rs) = rs @ replicate n b"
  using assms
  by (induction n arbitrary: rc rs) (auto simp: record_layer_def replicate_append_same [symmetric] Let_def)

lemma read_loop_records:
  assumes "record_layer sl" "length bp = k"
  shows "read_loop (ss_read sl) check k n bp err out (replicate n (test_message k) @ rs) =
     Inr ((err, if n = 0 then bp else map Val (test_message k), out @ (if check then replicate n 0 else [])), rs)"
  using assms
proof (induction n arbitrary: bp out)
  case (Suc n)
  have m: "length (test_message k) = k" by (simp add: test_message_def)
  have get: "ss_read sl k (test_message k # replicate n (test_message k) @ rs) =
      ((int k, test_message k), replicate n (test_message k) @ rs)"
    using Suc.prems(1) by (simp add: record_layer_def m)
  have put: "buf_put bp 0 (map Val (test_message k)) = Inr (map Val (test_message k))"
    using Suc.prems(2) by (simp add: buf_put_def m)
  show ?case
    using Suc.IH [OF Suc.prems(1), of "map Val (test_message k)" "if check then out @ [0] else out"]
    by (cases check) (simp_all add: get put combuf_vryfy_message m del: map_map)
qed simp

text \<open>
  The test transfers its messages: over a connection that keeps records, the
  server counts no error and finds no wrong byte in any of the messages of the client.
\<close>

theorem messages_transferred:
  assumes "record_layer sl" "combuf_init bp (int BUF_SIZE) = Inr (map Val msg)" "length bp = BUF_SIZE" "length bp' = BUF_SIZE"
  shows "\<exists>buf. sslread sl True bp' BUF_SIZE n (snd (sslwrite sl msg n Garbage [])) = Inr ((0, buf, replicate n 0), [])"
proof -
  have "map Val msg = map (Val :: byte \<Rightarrow> byte slot) (test_message BUF_SIZE)"
    using assms(2,3) by (simp add: combuf_init_ok del: map_map)
  then have msg: "msg = test_message BUF_SIZE" by (simp add: inj_map_eq_map inj_on_def)
  have "msg \<noteq> []" by (simp add: msg test_message_def BUF_SIZE_def)
  then show ?thesis
    using read_loop_records [OF assms(1,4), of True n 0 "[]" "[]"]
    by (simp add: sslread_def sslwrite_records [OF assms(1)] msg)
qed

section \<open>What the programs do with failures\<close>

text \<open>Once at \<open>err\<close>, the client does not return.\<close>

lemma client_err_never: "client_err n ssl ctx \<noteq> Inr x"
  by (induction n arbitrary: ssl ctx) auto

lemma client_err_double_free: "client_err (Suc (Suc n)) (Some False) ctx = Inl DoubleFree"
  by (cases ctx) auto

text \<open>
  With \<open>-C\<close> the evidence of the client is not looked at: the callback of the
  configuration is not the one of the library.
\<close>

lemma server_cfg_callback:
  assumes "server_cfg sl op cfg0 w = (Some cfg, w')"
  shows "tc_verify cfg = (if op_Cflag op then None else Some WHICH_SERVERSIDE)"
  using assms by (auto simp: server_cfg_def TLSRA_server_init_def Let_def case_prod_beta split: if_split_asm)

text \<open>\<open>Success\<close> is announced only when each read had the full size.\<close>

lemma read_loop_err:
  "read_loop get check rsz n bp err out w = Inr ((err', bp', out'), w') \<Longrightarrow> err \<le> err' \<and> err' \<le> err + int n"
  by (induction n arbitrary: bp err out w) (auto simp: Let_def cbind_eq_Inr split: prod.splits if_split_asm, force+)

section \<open>A concrete connection\<close>

definition ex_sslib :: "bytes list sslib" where
  "ex_sslib = \<lparr>ss_ctx_new = (\<lambda>w. (True, w)), ss_new = (\<lambda>w. (True, w)), ss_set_fd = (\<lambda>_ w. (1, w)),
     ss_connect = (\<lambda>_ w. (1, w)), ss_accept = (\<lambda>_ w. (1, w)), ss_write = (\<lambda>b w. (int (length b), w @ [b])),
     ss_read = (\<lambda>n w. case w of [] \<Rightarrow> ((0, []), []) | b # w \<Rightarrow> ((int (length b), b), w)), ss_shutdown = (\<lambda>w. (1, w)),
     ss_client_ca = (\<lambda>w. (True, w)), sy_write = (\<lambda>_ b w. (int (length b), w @ [b])),
     sy_read = (\<lambda>_ n w. ((0, []), w)), sy_close = (\<lambda>_ w. (0, w)), sy_gets = (\<lambda>w. (None, w))\<rparr>"

lemma ex_record_layer: "record_layer ex_sslib"
  by (simp add: record_layer_def ex_sslib_def)

theorem messages_transferred_witness:
  "\<exists>buf. sslread ex_sslib True (replicate BUF_SIZE (Val 0)) BUF_SIZE 3
     (snd (sslwrite ex_sslib (test_message BUF_SIZE) 3 Garbage [])) = Inr ((0, buf, [0, 0, 0]), [])"
  using messages_transferred [OF ex_record_layer, of "replicate BUF_SIZE (Val 0)" "test_message BUF_SIZE"
      "replicate BUF_SIZE (Val 0)" 3]
  by (simp add: combuf_init_ok numeral_3_eq_3 del: map_map)

end
