(* ===== verification/Tls_Sgx_Samples.thy ===== *)
theory Tls_Sgx_Samples
  imports Tls_Samples
begin

text \<open>
  The client and the server of TLS attestation as programs of enclaves
  (\<open>tls_sgx/Enclave/tlsra_client.c\<close>, \<open>tls_sgx/Enclave/tlsra_server.c\<close>), the sockets their host
  opens for them (\<open>tls_sgx/Host/host_lib.c\<close>), and the host programs that start them
  (\<open>tls_sgx/Host/host_client.c\<close>, \<open>tls_sgx/Host/host_server.c\<close>).

  What is printed and the clock are left out; edge calls for sockets are taken to reach
  the host.  The configuration of the server's context and the read loop are the text of
  \<open>test/tlsra_server.c\<close>, the message and the write loop behave as those of \<open>test/\<close>.
\<close>

unbundle bit_operations_syntax

section \<open>Sockets of the host\<close>

text \<open>
  The edge calls \<open>ocall_sock_connect\<close>, \<open>ocall_sock_serveropen\<close> and \<open>ocall_sock_accept\<close>.  A
  descriptor that could not be connected is returned all the same.
\<close>

definition tls_sock_connect :: "'w inetops \<Rightarrow> u32 \<Rightarrow> u16 \<Rightarrow> 'w \<Rightarrow> int \<times> 'w" where
  "tls_sock_connect io ip port w =
     (let (sock, w) = in_socket io w in
      if sock < 0 then (sock, w)
      else let (rc, w) = in_connect io sock (ip, htons port) w in
        if rc < 0 then (sock, w)
        else let (_, w) = in_nodelay io sock w in (sock, w))"

definition tls_sock_serveropen :: "'w inetops \<Rightarrow> u32 \<Rightarrow> u16 \<Rightarrow> 'w \<Rightarrow> int \<times> 'w" where
  "tls_sock_serveropen io ip port w =
     (let (sock, w) = in_socket io w in
      if sock < 0 then (-1, w)
      else
        let (_, w) = in_reuseaddr io sock w;
            (rc, w) = in_bind io sock (htonl ip, htons port) w
        in if rc < 0 then (-1, w)
           else let (rc, w) = in_listen io sock 10 w in if rc < 0 then (-1, w) else (sock, w))"

definition tls_sock_accept :: "'w inetops \<Rightarrow> int \<Rightarrow> 'w \<Rightarrow> (int \<times> 'w) cres" where
  "tls_sock_accept io sock w =
     (let (fd, w) = in_accept io sock w in
      if fd < 0 then Inl Abort else let (_, w) = in_nodelay io sock w in Inr (fd, w))"

section \<open>The client\<close>

text \<open>The address: that of the option, or the local host.\<close>

definition sgx_client_ip :: "tlsopts \<Rightarrow> u32 cres" where
  "sgx_client_ip op = (case op_server op of None \<Rightarrow> Inr 0x100007f | Some s \<Rightarrow> stripaddr s)"

text \<open>
  \<open>main\<close> of the client, which asks for attestation whatever \<open>-r\<close> says.  The code after
  \<open>err\<close> is the one of \<open>test/tlsra_client.c\<close>: it ends with a jump to \<open>err\<close>.
\<close>

definition sgx_client_main ::
    "nat \<Rightarrow> 'w sslib \<Rightarrow> 'w inetops \<Rightarrow> tls_cfg \<Rightarrow> nat \<Rightarrow> argvec \<Rightarrow> 'w \<Rightarrow> (int \<times> 'w) cres" where
  "sgx_client_main fuel sl io cfg0 argc argv w =
     cbind (client_getoption argc argv) (\<lambda>(_, op).
     cbind (combuf_init (replicate BUF_SIZE (Val 0)) (int BUF_SIZE)) (\<lambda>b.
     cbind (buf_get b 0 BUF_SIZE) (\<lambda>msg.
     let (ctx, w) = ss_ctx_new sl w in
     if \<not> ctx then client_err fuel None None
     else
       let (_, cfg) = TLSRA_client_init 1 cfg0; (ssl, w) = ss_new sl w in
       if \<not> ssl then client_err fuel None (Some False)
       else
         cbind (sgx_client_ip op) (\<lambda>ip.
         let (sock, w) = tls_sock_connect io ip 1100 w in
         if sock < 0 then Inr (-1, w)
         else
           let (rc, w) = ss_set_fd sl sock w in
           if rc \<noteq> 1 then client_err fuel (Some False) (Some False)
           else
             let (rc, w) = ss_connect sl cfg w in
             if rc \<noteq> 1 then client_err fuel (Some False) (Some False)
             else
               let (_, w) = sslwrite sl msg 1 Garbage w in
               cbind (myssl_shutdown fuel (ss_shutdown sl) 0 w) (\<lambda>(_, _, w).
               let (_, w) = sy_close sl sock w in Inr (0, w))))))"

section \<open>The server\<close>

text \<open>The \<open>switch\<close> of \<open>getoption\<close>: here \<open>-r\<close> takes a number, and there is \<open>-D\<close>.\<close>

definition sgx_server_option :: "nat \<Rightarrow> argvec \<Rightarrow> char \<Rightarrow> nat \<Rightarrow> tlsopts \<Rightarrow> (nat option \<times> tlsopts) cres" where
  "sgx_server_option argc argv c i op =
     (if c = CHR ''C'' then Inr (Some i, op\<lparr>op_Cflag := True\<rparr>)
      else if c = CHR ''c'' then
        if argc < i then Inr (None, op)
        else cbind (arg_num argv (i + 1)) (\<lambda>v. Inr (Some (i + 1), op\<lparr>op_count := to_int v\<rparr>))
      else if c = CHR ''d'' then Inr (Some i, op\<lparr>op_dflag := True\<rparr>)
      else if c = CHR ''D'' then
        cbind (arg argv (i + 1)) (\<lambda>s. Inr (Some (i + 1), op\<lparr>op_atflag := True, op_dpath := Some (take 108 s)\<rparr>))
      else if c = CHR ''p'' then
        if argc < i then Inr (None, op)
        else cbind (arg_num argv (i + 1)) (\<lambda>v. Inr (Some (i + 1), op\<lparr>op_port := word_of_int v\<rparr>))
      else if c = CHR ''r'' then
        cbind (arg_num argv (i + 1)) (\<lambda>v. Inr (Some (i + 1), op\<lparr>op_rflag := to_int v\<rparr>))
      else if c = CHR ''t'' then
        if argc < i then Inr (None, op)
        else cbind (arg_num argv (i + 1)) (\<lambda>v. Inr (Some (i + 1), op\<lparr>op_tflag := to_int v\<rparr>))
      else if c = CHR ''v'' then Inr (Some i, op\<lparr>op_vflag := True\<rparr>)
      else if c = CHR ''V'' then Inr (Some i, op\<lparr>op_Vflag := True\<rparr>)
      else Inr (Some i, op))"

definition sgx_server_getoption :: "nat \<Rightarrow> argvec \<Rightarrow> (int \<times> tlsopts) cres" where
  "sgx_server_getoption argc argv = option_loop (sgx_server_option argc argv) argc argv argc 1 tlsopts_init"

definition sgx_server_finish :: "nat \<Rightarrow> 'w sslib \<Rightarrow> int \<Rightarrow> int \<Rightarrow> bool \<Rightarrow> 'w \<Rightarrow> ((int \<times> bool) \<times> 'w) cres" where
  "sgx_server_finish fuel sl sock csock success w =
     cbind (myssl_shutdown fuel (ss_shutdown sl) 0 w) (\<lambda>(_, _, w).
     let (_, w) = sy_close sl csock w;
         (rc, w) = sy_close sl sock w
     in Inr ((if rc < 0 then -1 else 0, success), w))"

text \<open>The exit status and whether \<open>Success\<close> is printed; \<open>-t\<close> has no effect here.\<close>

definition sgx_server_main ::
    "nat \<Rightarrow> 'w sslib \<Rightarrow> 'w inetops \<Rightarrow> tls_cfg \<Rightarrow> nat \<Rightarrow> argvec \<Rightarrow> 'w \<Rightarrow> ((int \<times> bool) \<times> 'w) cres" where
  "sgx_server_main fuel sl io cfg0 argc argv w =
     cbind (sgx_server_getoption argc argv) (\<lambda>(_, op).
     let (ctx, w) = ss_ctx_new sl w in
     if \<not> ctx then Inr ((-1, False), w)
     else
       let (cfg, w) = server_cfg sl op cfg0 w in
       case cfg of
         None \<Rightarrow> Inr ((0, False), w)
       | Some cfg \<Rightarrow>
         let (ssl, w) = ss_new sl w in
         if \<not> ssl then Inr ((-1, False), w)
         else
           let (sock, w) = tls_sock_serveropen io 0 (op_port op) w in
           if sock < 0 then Inr ((-1, False), w)
           else
             cbind (tls_sock_accept io sock w) (\<lambda>(csock, w).
             let (rc, w) = ss_set_fd sl csock w in
             if rc \<noteq> 1 then sgx_server_finish fuel sl sock csock False w
             else
               let (rc, w) = ss_accept sl cfg w in
               if rc \<noteq> 1 then sgx_server_finish fuel sl sock csock False w
               else
                 cbind (sslread sl (op_Vflag op) (replicate BUF_SIZE (Val 0)) 1024 (nat (op_count op)) w)
                   (\<lambda>((err, _, _), w). sgx_server_finish fuel sl sock csock (err = 0) w)))"

section \<open>The host programs\<close>

text \<open>
  \<open>main\<close> of both hosts: \<open>prog\<close> is the program of the enclave, \<open>created\<close> and \<open>ecall\<close> say whether
  the enclave can be created and called.  The result of the enclave's \<open>main\<close> is dropped
  by \<open>e_main\<close>, whose status is the exit code.
\<close>

definition tls_host_main ::
    "bool \<Rightarrow> bool \<Rightarrow> (nat \<Rightarrow> argvec \<Rightarrow> 'w \<Rightarrow> 'w cres) \<Rightarrow> nat \<Rightarrow> argvec \<Rightarrow> 'w \<Rightarrow> (int \<times> 'w) cres" where
  "tls_host_main created ecall prog argc argv w =
     (if \<not> created then Inr (-1, w)
      else
        cbind (host_getoption argc argv) (\<lambda>_.
        cbind (makeargs argc argv) (\<lambda>(argpos, buf, blen).
        if \<not> ecall then Inr (-1, w)
        else cbind (e_main prog argc (map int argpos) buf w) (\<lambda>(_, w). Inr (0, w)))))"

text \<open>The programs without their results.\<close>

definition client_prog :: "nat \<Rightarrow> 'w sslib \<Rightarrow> 'w inetops \<Rightarrow> tls_cfg \<Rightarrow> nat \<Rightarrow> argvec \<Rightarrow> 'w \<Rightarrow> 'w cres" where
  "client_prog fuel sl io cfg argc argv w = cbind (sgx_client_main fuel sl io cfg argc argv w) (\<lambda>(_, w). Inr w)"

definition server_prog :: "nat \<Rightarrow> 'w sslib \<Rightarrow> 'w inetops \<Rightarrow> tls_cfg \<Rightarrow> nat \<Rightarrow> argvec \<Rightarrow> 'w \<Rightarrow> 'w cres" where
  "server_prog fuel sl io cfg argc argv w = cbind (sgx_server_main fuel sl io cfg argc argv w) (\<lambda>(_, w). Inr w)"

section \<open>A run of both\<close>

text \<open>
  Libraries that work, over a connection that keeps records: the handshake succeeds at
  both ends and \<open>SSL_shutdown\<close> ends at once.  The state is the list of records on their way.
\<close>

definition sample_link :: "bytes list sslib \<Rightarrow> bytes list inetops \<Rightarrow> bool" where
  "sample_link sl io \<longleftrightarrow> record_layer sl \<and>
     (\<forall>w. ss_ctx_new sl w = (True, w) \<and> ss_new sl w = (True, w) \<and> ss_shutdown sl w = (1, w)) \<and>
     (\<forall>fd w. ss_set_fd sl fd w = (1, w) \<and> sy_close sl fd w = (0, w)) \<and>
     (\<forall>cfg w. ss_connect sl cfg w = (1, w) \<and> ss_accept sl cfg w = (1, w)) \<and>
     (\<forall>w. \<exists>fd. 0 \<le> fd \<and> in_socket io w = (fd, w)) \<and>
     (\<forall>fd a w. in_connect io fd a w = (0, w) \<and> in_bind io fd a w = (0, w)) \<and>
     (\<forall>fd w. in_nodelay io fd w = (0, w) \<and> in_reuseaddr io fd w = (0, w) \<and> in_listen io fd 10 w = (0, w)) \<and>
     (\<forall>fd w. \<exists>c. 0 \<le> c \<and> in_accept io fd w = (c, w))"

lemma sample_sockets:
  assumes "sample_link sl io"
  shows "\<exists>fd. 0 \<le> fd \<and> tls_sock_connect io ip port w = (fd, w)"
    and "\<exists>fd. 0 \<le> fd \<and> tls_sock_serveropen io ip port w = (fd, w)"
    and "\<exists>c. 0 \<le> c \<and> tls_sock_accept io fd w = Inr (c, w)"
proof -
  from assms have io: "in_connect io fd (a, p) w = (0, w)" "in_bind io fd (a, p) w = (0, w)" "in_nodelay io fd w = (0, w)"
    "in_reuseaddr io fd w = (0, w)" "in_listen io fd 10 w = (0, w)" for fd a p
    by (simp_all add: sample_link_def)
  from assms obtain fd' where fd: "0 \<le> fd'" "in_socket io w = (fd', w)" unfolding sample_link_def by blast
  from assms obtain c where c: "0 \<le> c" "in_accept io fd w = (c, w)" unfolding sample_link_def by blast
  show "\<exists>fd. 0 \<le> fd \<and> tls_sock_connect io ip port w = (fd, w)"
    and "\<exists>fd. 0 \<le> fd \<and> tls_sock_serveropen io ip port w = (fd, w)"
    using fd by (simp_all add: tls_sock_connect_def tls_sock_serveropen_def io)
  show "\<exists>c. 0 \<le> c \<and> tls_sock_accept io fd w = Inr (c, w)"
    using c by (simp add: tls_sock_accept_def io)
qed

lemma message_nonempty: "test_message BUF_SIZE \<noteq> []"
  by (simp add: test_message_def BUF_SIZE_def)

lemma combuf_message: "combuf_init (replicate BUF_SIZE (Val 0)) (int BUF_SIZE) = Inr (map Val (test_message BUF_SIZE))"
  by (simp add: combuf_init_ok del: map_map)

lemma sgx_client_sends:
  assumes "sample_link sl io" "client_getoption argc argv = Inr (i, op)" "sgx_client_ip op = Inr ip"
  shows "sgx_client_main (Suc n) sl io cfg argc argv w = Inr (0, w @ [test_message BUF_SIZE])"
proof -
  from sample_sockets(1) [OF assms(1), of ip 1100 w] obtain fd where fd: "0 \<le> fd" "tls_sock_connect io ip 1100 w = (fd, w)"
    by blast
  have lib: "ss_ctx_new sl w = (True, w)" "ss_new sl w = (True, w)" "ss_set_fd sl fd w = (1, w)" "ss_connect sl c w = (1, w)"
    "ss_shutdown sl v = (1, v)" "sy_close sl fd v = (0, v)" for c v
    using assms(1) by (simp_all add: sample_link_def)
  have msg: "buf_get (map Val (test_message BUF_SIZE)) 0 BUF_SIZE = Inr (test_message BUF_SIZE)"
    by (simp add: buf_get_Val test_message_def del: map_map)
  have "snd (sslwrite sl (test_message BUF_SIZE) 1 Garbage w) = w @ [test_message BUF_SIZE]"
    using sslwrite_records [of sl "test_message BUF_SIZE" 1 Garbage w] assms(1) message_nonempty by (simp add: sample_link_def)
  with fd show ?thesis
    by (simp add: sgx_client_main_def assms(2,3) combuf_message msg lib case_prod_beta Let_def del: sslwrite.simps)
qed

lemma sgx_server_receives:
  assumes "sample_link sl io" "sgx_server_getoption argc argv = Inr (i, op)" "\<not> op_Cflag op" "op_count op = int n"
  shows "sgx_server_main (Suc m) sl io cfg argc argv (replicate n (test_message BUF_SIZE)) = Inr ((0, True), [])"
proof -
  let ?w = "replicate n (test_message BUF_SIZE)"
  from sample_sockets(2) [OF assms(1), of 0 "op_port op" ?w] obtain fd where fd: "0 \<le> fd"
    "tls_sock_serveropen io 0 (op_port op) ?w = (fd, ?w)" by blast
  from sample_sockets(3) [OF assms(1), of fd ?w] obtain c where c: "tls_sock_accept io fd ?w = Inr (c, ?w)" by blast
  have lib: "ss_ctx_new sl ?w = (True, ?w)" "ss_new sl ?w = (True, ?w)" "ss_set_fd sl c ?w = (1, ?w)" "ss_accept sl x ?w = (1, ?w)"
    "ss_shutdown sl v = (1, v)" "sy_close sl f v = (0, v)" for x v f
    using assms(1) by (simp_all add: sample_link_def)
  have "\<exists>bp out. sslread sl (op_Vflag op) (replicate BUF_SIZE (Val 0)) 1024 n ?w = Inr ((0, bp, out), [])"
    using read_loop_records [of sl "replicate BUF_SIZE (Val 0)" BUF_SIZE "op_Vflag op" n 0 "[]" "[]"] assms(1)
    by (simp add: sample_link_def sslread_def BUF_SIZE_def)
  with fd c assms(2-4) show ?thesis
    by (auto simp: sgx_server_main_def server_cfg_def sgx_server_finish_def lib)
qed

text \<open>The host program hands its arguments on and drops the result of the enclave's program.\<close>

lemma tls_host_main_ok:
  assumes "list_all nul_free args" "host_getoption (length args) (main_argv args) = Inr r"
  shows "tls_host_main True True prog (length args) (main_argv args) w =
     cbind (prog (length args) (main_argv args) w) (\<lambda>w. Inr (0, w))"
  using assms by (simp add: tls_host_main_def makeargs_ok e_main_def makeargv_ok argv_strings_ok cbind_assoc)


text \<open>
  A client that cannot connect never ends: \<open>ocall_sock_connect\<close> returns the descriptor, and when the
  handshake over it fails the objects are freed again and again.
\<close>

lemma sgx_client_handshake_fails:
  assumes "sample_link sl io" "client_getoption argc argv = Inr (i, op)" "sgx_client_ip op = Inr ip"
    and "sl' = sl\<lparr>ss_connect := \<lambda>_ w. (rc, w)\<rparr>" "rc \<noteq> 1"
  shows "sgx_client_main (Suc (Suc n)) sl' io cfg argc argv w = Inl DoubleFree"
proof -
  from sample_sockets(1) [OF assms(1), of ip 1100 w] obtain fd where fd: "0 \<le> fd" "tls_sock_connect io ip 1100 w = (fd, w)"
    by blast
  have lib: "ss_ctx_new sl w = (True, w)" "ss_new sl w = (True, w)" "ss_set_fd sl fd w = (1, w)"
    using assms(1) by (simp_all add: sample_link_def)
  have msg: "buf_get (map Val (test_message BUF_SIZE)) 0 BUF_SIZE = Inr (test_message BUF_SIZE)"
    by (simp add: buf_get_Val test_message_def del: map_map)
  from fd assms(5) show ?thesis
    by (simp add: sgx_client_main_def assms(2-4) combuf_message msg lib case_prod_beta Let_def client_err_double_free del: client_err.simps)
qed

section \<open>A concrete run\<close>

definition ex_inet :: "bytes list inetops" where
  "ex_inet = \<lparr>in_socket = (\<lambda>w. (3, w)), in_connect = (\<lambda>_ _ w. (0, w)), in_nodelay = (\<lambda>_ w. (0, w)), in_reuseaddr = (\<lambda>_ w. (0, w)),
     in_bind = (\<lambda>_ _ w. (0, w)), in_listen = (\<lambda>_ _ w. (0, w)), in_accept = (\<lambda>_ w. (4, w))\<rparr>"

lemma ex_sample_link: "sample_link ex_sslib ex_inet"
  by (simp add: sample_link_def ex_record_layer) (simp add: ex_sslib_def ex_inet_def)

definition ex_sample_cfg :: tls_cfg where
  "ex_sample_cfg = \<lparr>tc_mode = 0, tc_verify = None, tc_hello_cb = False, tc_cert_cb = False, tc_depth = 0, tc_rflag = 0\<rparr>"


end
