(* ===== verification/Sgx_Proto.thy ===== *)
theory Sgx_Proto
  imports Pica_Main
begin

text \<open>
  The PICA client inside an enclave as \<open>pica_sgx\<close> builds it: the calls its host
  offers (\<open>pica_sgx/Host/host_lib.c\<close>, \<open>pica_sgx/Host/tpm2.c\<close>), and the parts of
  \<open>pica_sgx/Enclave/picatest.c\<close> and \<open>pica_sgx/Enclave/libpica.c\<close> that differ from
  \<open>src/libpica_clnt.c\<close>: configuration, policy parser, and the handling of the
  measurement.

  The other functions of \<open>libpica.c\<close> (hash table, digests, chains, user ids, policy
  lookup), \<open>hash_extend_sha256\<close>, \<open>comp_pcr_selection\<close>, \<open>tpm_ecdsa_to_der\<close> and the three
  \<open>mycbor_\<close> helpers are the same text as their counterparts in \<open>src/\<close>, so their
  models are used.  Edge calls are taken to reach the host.
\<close>

unbundle bit_operations_syntax

section \<open>The host\<close>

text \<open>\<open>ocall_readfile\<close>: the length stored and the bytes; every error stores length 0.\<close>

definition stream_contents :: "'w stdio \<Rightarrow> int \<Rightarrow> u64 \<Rightarrow> 'w \<Rightarrow> (u64 \<times> bytes) \<times> 'w" where
  "stream_contents io fp ilen w =
     (let (rc, w) = si_fseek io fp 0 SEEK_END w in
      if rc \<noteq> 0 then ((0, []), w)
      else
        let (off, w) = si_ftell io fp w; len = word_of_int off :: u64 in
        if ilen < len then ((0, []), w)
        else
          let (rc, w) = si_fseek io fp 0 SEEK_SET w in
          if rc \<noteq> 0 then ((0, []), w)
          else
            let (bs, w) = si_fread io fp len w in
            ((if of_nat (length bs) \<noteq> len then 0 else of_nat (length bs), bs), w))"

definition host_readfile :: "'w stdio \<Rightarrow> string \<Rightarrow> u64 \<Rightarrow> 'w \<Rightarrow> (u64 \<times> bytes) \<times> 'w" where
  "host_readfile io fname ilen w =
     (let (fp, w) = si_fopen io fname ''r'' w in
      case fp of None \<Rightarrow> ((0, []), w)
      | Some fp \<Rightarrow>
          let (r, w) = stream_contents io fp ilen w; (_, w) = si_fclose io fp w in (r, w))"

text \<open>
  The test for a descriptor that could not be opened compares the pointer with
  0 and never holds, so that the size of a missing file is \<open>(size_t) -1\<close>.
\<close>

definition ocall_pica_fsize :: "'w os \<Rightarrow> string \<Rightarrow> 'w \<Rightarrow> (int \<times> u64) \<times> 'w" where
  "ocall_pica_fsize os path w =
     (let (fd, w) = os_open os path O_RDONLY 0 w;
          (off, w) = os_lseek os fd 0 SEEK_END w;
          (_, w) = os_lseek os fd 0 SEEK_SET w
      in ((fd, word_of_int off), w))"

definition ocall_pica_fread :: "'w os \<Rightarrow> int \<Rightarrow> u64 \<Rightarrow> 'w \<Rightarrow> (u64 \<times> bytes) \<times> 'w" where
  "ocall_pica_fread os fd bufsz w =
     (let ((sz, bs), w) = os_read os fd bufsz w; (_, w) = os_close os fd w
      in ((word_of_int sz, bs), w))"

definition host_open :: "'w os \<Rightarrow> string \<Rightarrow> int \<Rightarrow> 'w \<Rightarrow> int \<times> 'w" where
  "host_open os path flags w = os_open os path flags 438 w"

definition host_write :: "'w os \<Rightarrow> int \<Rightarrow> bytes \<Rightarrow> 'w \<Rightarrow> u64 \<times> 'w" where
  "host_write os fd buf w = (let (n, w) = os_write os fd buf w in (word_of_int n, w))"

definition host_close :: "'w os \<Rightarrow> int \<Rightarrow> 'w \<Rightarrow> int \<times> 'w" where
  "host_close os fd w = os_close os fd w"

text \<open>
  \<open>ocall_pica_measure\<close>: the buffer and \<open>*sz\<close>.  Every error ends the program.
\<close>

definition ocall_pica_measure ::
    "nat \<Rightarrow> 'w sockops \<Rightarrow> string \<Rightarrow> u16 \<Rightarrow> bytes \<Rightarrow> bbuf \<Rightarrow> string \<Rightarrow> 'w \<Rightarrow> ((bbuf \<times> u64) \<times> 'w) cres" where
  "ocall_pica_measure fuel so slack aux nonce measured dpath w =
     cbind (sock_connect_daemon so slack dpath w) (\<lambda>(con, w).
     if con < 0 then Inl Abort
     else if length nonce < 32 then Inl OutOfBounds
     else
       cbind (sock_send fuel so con (enc_head \<lparr>th_cmd = TPMD_REQ_PICA, th_aux = aux, th_len = 32\<rparr> @ take 32 nonce) w)
         (\<lambda>(rc, w).
       if rc < 0 then Inl Abort
       else
         cbind (sock_recv fuel so con (replicate HEAD_SZ Garbage) w) (\<lambda>((rc, hb), w).
         if rc < 0 then Inl Abort
         else
           cbind (buf_get hb 0 HEAD_SZ) (\<lambda>bs.
           let len = unat (th_len (dec_head bs)) in
           if len > length measured then Inl Abort
           else
             cbind (sock_recv fuel so con (take len measured) w) (\<lambda>((rc, got), w).
             if rc < 0 then Inl Abort
             else Inr ((got @ drop len measured, of_nat len), w))))))"

section \<open>The configuration file\<close>

text \<open>
  \<open>build_conf\<close> without the size check of its successor: what the header
  announces is looked for in the buffer, whatever its size is.
\<close>

definition proto_build_conf :: "bbuf option \<Rightarrow> (int \<times> procinfo list) cres" where
  "proto_build_conf buf =
     cbind (deref buf) (\<lambda>b.
     cbind (get_struct dec_confhead CONFHEAD_SZ b 0 0) (\<lambda>head.
     let proc_cnt = sint (ch_proc_cnt head); fdig_cnt = sint (ch_fdig_cnt head);
         cpif = CONFHEAD_SZ; fdp = cpif + PROCINFO_SZ * nat proc_cnt;
         sbuf = conf_strs fdp fdig_cnt
     in if (proc_cnt < 0 \<and> 0 < fdig_cnt) \<or> sbuf < 0 then Inl OutOfBounds
        else cbind (cmapM (conf_entry b cpif fdp (nat fdig_cnt) (nat sbuf)) [0..<nat proc_cnt]) (\<lambda>ps.
             cbind (relocate_libs b fdp (nat fdig_cnt)) (\<lambda>_.
             Inr (proc_cnt, ps)))))"

text \<open>The four pieces that \<open>reg_config\<close> writes one after the other.\<close>

definition proto_conf_parts :: "addrs \<Rightarrow> procinfo list \<Rightarrow> int \<Rightarrow> bytes list cres" where
  "proto_conf_parts ad pinfo entries =
     (if entries < 0 then Inl NullDeref
      else cbind (cmapM (cnth pinfo) [0..<nat entries]) (\<lambda>ps.
        cbind (conf_sizes pinfo [0..<nat entries] (0, 0)) (\<lambda>(ssz, fdcnt).
        if fdcnt < 0 then Inl NullDeref
        else cbind (copy_procs pinfo [0..<nat entries]
                      \<lparr>co_sbuf = replicate ssz 0, co_spos = 0, co_cpif = map (raw_procinfo ad) ps,
                       co_fdp = replicate (nat fdcnt) rfdigest_zero, co_fpos = 0\<rparr>) (\<lambda>st.
             Inr [enc_confhead (conf_header entries fdcnt ssz), struct_array enc_rprocinfo (co_cpif st),
                  struct_array enc_rfdigest (co_fdp st), co_sbuf st]))))"

fun write_parts :: "'w os \<Rightarrow> int \<Rightarrow> bytes list \<Rightarrow> 'w \<Rightarrow> 'w" where
  "write_parts os fd [] w = w"
| "write_parts os fd (p # ps) w = (let (_, w) = host_write os fd p w in write_parts os fd ps w)"

text \<open>The results of the four writes are not looked at.\<close>

definition proto_reg_config :: "addrs \<Rightarrow> 'w os \<Rightarrow> string \<Rightarrow> procinfo list \<Rightarrow> int \<Rightarrow> 'w \<Rightarrow> 'w cres" where
  "proto_reg_config ad os fname pinfo entries w =
     (let (fd, w) = host_open os fname (O_CREAT OR O_RDWR) w in
      if fd < 0 then Inl Abort
      else cbind (proto_conf_parts ad pinfo entries) (\<lambda>parts.
        let w = write_parts os fd parts w; (_, w) = host_close os fd w in Inr w))"

section \<open>The policy file\<close>

text \<open>
  The version is kept in a global, 0 before a known one is seen.  The policy
  itself is a local of \<open>main\<close> that nothing clears.
\<close>

definition PICA_POLICY_V0 :: int where "PICA_POLICY_V0 = 1"
definition PICA_POLICY_V1 :: int where "PICA_POLICY_V1 = 2"

record proto_policy =
  pv_ver :: int
  pv_stmt :: "pica_stmt list slot"

definition proto_policy_init :: proto_policy where
  "proto_policy_init = \<lparr>pv_ver = 0, pv_stmt = Garbage\<rparr>"

definition proto_json_version :: "json \<Rightarrow> int \<Rightarrow> int" where
  "proto_json_version obj ver =
     (case obj of
        JString s \<Rightarrow> if c_str s = PICA_POLICY_V0_STRING then PICA_POLICY_V0
                     else if c_str s = PICA_POLICY_V1_STRING then PICA_POLICY_V1 else ver
      | _ \<Rightarrow> ver)"

definition proto_parse_invchain :: "json \<Rightarrow> pica_stmt \<Rightarrow> int \<Rightarrow> pica_stmt cres" where
  "proto_parse_invchain obj stmt ver =
     (case obj of
        JArray xs \<Rightarrow>
          if ver = PICA_POLICY_V0 then
            Inr (stmt\<lparr>st_ary_cnt := Val 1,
                   st_iarray := Val [Val \<lparr>ichn_cnt = int (length xs), ichain = map string_or_null xs\<rparr>]\<rparr>)
          else if ver = PICA_POLICY_V1 then
            cbind (parse_chains xs 0 (replicate (length xs) Garbage)) (\<lambda>ary.
            Inr (stmt\<lparr>st_ary_cnt := Val (int (length xs)), st_iarray := Val ary\<rparr>))
          else Inr stmt
      | _ \<Rightarrow> Inr stmt)"

definition proto_statement_item :: "(json \<Rightarrow> u32) \<Rightarrow> int \<Rightarrow> json \<Rightarrow> pica_stmt cres" where
  "proto_statement_item gi ver item =
     (let stmt = stmt_garbage in
      case item of
        JObject _ \<Rightarrow>
          let get = json_object_object_get_ex item;
              stmt = (case get ''Sid'' of Some attr \<Rightarrow> stmt\<lparr>st_sid := Val (parse_sid attr)\<rparr> | None \<Rightarrow> stmt);
              stmt = (case get ''Effect'' of Some attr \<Rightarrow> stmt\<lparr>st_effect := Val (parse_effect attr)\<rparr> | None \<Rightarrow> stmt)
          in cbind (case get ''Resource'' of Some attr \<Rightarrow> check_resource attr | None \<Rightarrow> Inr ()) (\<lambda>_.
             let stmt = (case get ''Principal'' of Some attr \<Rightarrow> parse_principal gi attr stmt | None \<Rightarrow> stmt);
                 stmt = (case get ''Action'' of Some attr \<Rightarrow> parse_action attr stmt | None \<Rightarrow> stmt)
             in case get ''InvocationChain'' of
                  Some attr \<Rightarrow> proto_parse_invchain attr stmt ver
                | None \<Rightarrow> Inr stmt)
      | _ \<Rightarrow> Inr stmt)"

definition proto_json_statement :: "(json \<Rightarrow> u32) \<Rightarrow> json \<Rightarrow> proto_policy \<Rightarrow> proto_policy cres" where
  "proto_json_statement gi obj pp =
     (case obj of
        JArray items \<Rightarrow>
          cbind (cmapM (proto_statement_item gi (pv_ver pp)) items) (\<lambda>stmts. Inr (pp\<lparr>pv_stmt := Val stmts\<rparr>))
      | _ \<Rightarrow> Inr pp)"

fun proto_members :: "(json \<Rightarrow> u32) \<Rightarrow> (string \<times> json) list \<Rightarrow> proto_policy \<Rightarrow> proto_policy cres" where
  "proto_members gi [] pp = Inr pp"
| "proto_members gi ((key, val) # kvs) pp =
     (if c_str key = ''Version'' then proto_members gi kvs (pp\<lparr>pv_ver := proto_json_version val (pv_ver pp)\<rparr>)
      else if c_str key = ''Statement'' then cbind (proto_json_statement gi val pp) (proto_members gi kvs)
      else proto_members gi kvs pp)"

definition proto_json_parse :: "(json \<Rightarrow> u32) \<Rightarrow> json \<Rightarrow> proto_policy \<Rightarrow> proto_policy cres" where
  "proto_json_parse gi obj pp =
     (case obj of JObject kvs \<Rightarrow> proto_members gi kvs pp | _ \<Rightarrow> Inl NullDeref)"

section \<open>Agreement with the current client\<close>

lemma conf_image_parts:
  "conf_image ad pinfo entries = cbind (proto_conf_parts ad pinfo entries) (\<lambda>parts. Inr (concat parts))"
proof (cases "cmapM (cnth pinfo) [0..<nat entries]")
  case (Inr ps)
  note arr = this
  show ?thesis
  proof (cases "conf_sizes pinfo [0..<nat entries] (0, 0)")
    case (Inr b)
    obtain ssz fdcnt where b: "b = (ssz, fdcnt)" by (cases b)
    show ?thesis
      by (cases "copy_procs pinfo [0..<nat entries]
          \<lparr>co_sbuf = replicate ssz 0, co_spos = 0, co_cpif = map (raw_procinfo ad) ps,
           co_fdp = replicate (nat fdcnt) rfdigest_zero, co_fpos = 0\<rparr>")
        (simp_all add: conf_image_def proto_conf_parts_def arr Inr b)
  qed (simp add: conf_image_def proto_conf_parts_def arr)
qed (simp add: conf_image_def proto_conf_parts_def)

lemma proto_build_conf_agrees:
  "build_conf buf sz = Inr (n, Val ps) \<Longrightarrow> proto_build_conf buf = Inr (n, ps)"
  by (auto simp: build_conf_def proto_build_conf_def cbind_eq_Inr Let_def split: if_split_asm)



definition version_known :: "json \<Rightarrow> bool" where
  "version_known v = (case v of JString s \<Rightarrow> c_str s = PICA_POLICY_V0_STRING \<or> c_str s = PICA_POLICY_V1_STRING | _ \<Rightarrow> False)"

text \<open>The two parsers hold the same policy.\<close>

definition same_version :: "pica_policy \<Rightarrow> int \<Rightarrow> bool" where
  "same_version pp ver \<longleftrightarrow>
     pp_version pp = Some PICA_POLICY_V0_STRING \<and> ver = PICA_POLICY_V0 \<or>
     pp_version pp = Some PICA_POLICY_V1_STRING \<and> ver = PICA_POLICY_V1"

definition same_policy :: "pica_policy \<Rightarrow> proto_policy \<Rightarrow> bool" where
  "same_policy pp q \<longleftrightarrow> same_version pp (pv_ver q) \<and>
     (pv_stmt q = Val (pp_stmt pp) \<or> pv_stmt q = Garbage \<and> pp_stmt pp = [])"

lemma policy_versions: "PICA_POLICY_V0_STRING \<noteq> PICA_POLICY_V1_STRING" "PICA_POLICY_V0 \<noteq> PICA_POLICY_V1"
  by (simp_all add: PICA_POLICY_V0_STRING_def PICA_POLICY_V1_STRING_def PICA_POLICY_V0_def PICA_POLICY_V1_def)

lemma invchain_agrees: "same_version pp ver \<Longrightarrow> proto_parse_invchain obj stmt ver = parse_invchain obj stmt pp"
  using policy_versions
  by (auto simp: same_version_def proto_parse_invchain_def parse_invchain_def split: json.split)

lemma statement_agrees:
  assumes "same_version pp ver"
  shows "proto_statement_item gi ver = (\<lambda>item. json_statement_item gi item pp stmt_garbage)"
  by (rule ext) (simp only: proto_statement_item_def json_statement_item_def invchain_agrees [OF assms] Let_def)

lemma members_agree:
  assumes "same_policy pp q" "\<forall>(k, x) \<in> set kvs. c_str k = ''Version'' \<longrightarrow> version_known x"
  shows "case json_members gi kvs pp of Inl f \<Rightarrow> proto_members gi kvs q = Inl f
     | Inr pp' \<Rightarrow> \<exists>q'. proto_members gi kvs q = Inr q' \<and> same_policy pp' q'"
  using assms
proof (induction kvs arbitrary: pp q)
  case (Cons kv kvs)
  obtain k x where kv: "kv = (k, x)" by (cases kv)
  have same: "case json_members gi kvs pp of Inl f \<Rightarrow> proto_members gi kvs q = Inl f
     | Inr pp' \<Rightarrow> \<exists>q'. proto_members gi kvs q = Inr q' \<and> same_policy pp' q'"
    using Cons.prems(2) by (intro Cons.IH [OF Cons.prems(1)]) simp
  consider (version) "c_str k = ''Version''" | (stmt) "c_str k = ''Statement''" | (other) "c_str k \<noteq> ''Version''" "c_str k \<noteq> ''Statement''"
    by blast
  then show ?case
  proof cases
    case version
    then have "version_known x" using Cons.prems(2) by (auto simp: kv)
    then have "same_policy (pp\<lparr>pp_version := json_version x\<rparr>) (q\<lparr>pv_ver := proto_json_version x (pv_ver q)\<rparr>)"
      using Cons.prems(1) policy_versions
      by (auto simp: version_known_def same_policy_def same_version_def json_version_def proto_json_version_def split: json.splits)
    from Cons.IH [OF this] Cons.prems(2) version show ?thesis by (simp add: kv split: sum.splits)
  next
    case stmt
    have v: "same_version pp (pv_ver q)" using Cons.prems(1) by (simp add: same_policy_def)
    show ?thesis
    proof (cases x)
      case (JArray items)
      show ?thesis
      proof (cases "cmapM (\<lambda>item. json_statement_item gi item pp stmt_garbage) items")
        case (Inl f)
        then show ?thesis
          using stmt by (simp add: kv json_statement_def proto_json_statement_def JArray statement_agrees [OF v])
      next
        case (Inr stmts)
        have "same_policy (pp\<lparr>pp_entries := int (length items), pp_stmt := stmts\<rparr>) (q\<lparr>pv_stmt := Val stmts\<rparr>)"
          using v by (simp add: same_policy_def same_version_def)
        from Cons.IH [OF this] Cons.prems(2) stmt show ?thesis
          by (simp add: kv json_statement_def proto_json_statement_def JArray statement_agrees [OF v] Inr split: sum.splits)
      qed
    qed (use same stmt in \<open>simp_all add: kv json_statement_def proto_json_statement_def split: sum.splits\<close>)
  next
    case other
    with same show ?thesis by (simp add: kv split: sum.splits)
  qed
qed simp

lemma json_parse_agrees:
  assumes "kvs = (''Version'', v) # rest" "\<forall>(k, x) \<in> set kvs. c_str k = ''Version'' \<longrightarrow> version_known x"
  shows "case pica_json_parse gi (JObject kvs) policy_zero of Inl f \<Rightarrow> proto_json_parse gi (JObject kvs) proto_policy_init = Inl f
     | Inr pp \<Rightarrow> \<exists>q. proto_json_parse gi (JObject kvs) proto_policy_init = Inr q \<and> same_policy pp q"
proof -
  have "version_known v" using assms by auto
  then have "same_policy (policy_zero\<lparr>pp_version := json_version v\<rparr>) (proto_policy_init\<lparr>pv_ver := proto_json_version v 0\<rparr>)"
    using policy_versions
    by (auto simp: version_known_def same_policy_def same_version_def json_version_def proto_json_version_def
        policy_zero_def proto_policy_init_def split: json.splits)
  from members_agree [OF this, of rest gi] assms show ?thesis
    by (simp add: pica_json_parse_def proto_json_parse_def proto_policy_init_def split: sum.splits)
qed

text \<open>
  C21.  Both parsers read a policy alike: when its first member is the version and every
  version in it is a known one, the parser of the prototype, which remembers the version
  in a global, and the current one end in the same fault or build the same statements.
  A policy without statements leaves those of the prototype unset.
\<close>

theorem proto_policy_agrees:
  assumes "kvs = (''Version'', v) # rest" "\<forall>(k, x) \<in> set kvs. c_str k = ''Version'' \<longrightarrow> version_known x"
  shows "case pica_json_parse gi (JObject kvs) policy_zero of
       Inl f \<Rightarrow> proto_json_parse gi (JObject kvs) proto_policy_init = Inl f
     | Inr pp \<Rightarrow> \<exists>q. proto_json_parse gi (JObject kvs) proto_policy_init = Inr q \<and>
         (pv_stmt q = Val (pp_stmt pp) \<or> pv_stmt q = Garbage \<and> pp_stmt pp = [])"
  using json_parse_agrees [OF assms, of gi] by (auto simp: same_policy_def split: sum.splits)

lemma policy_json_versions:
  "\<forall>(k, x) \<in> set [(''Version'', JString PICA_POLICY_V1_STRING), (''Statement'', y)]. c_str k = ''Version'' \<longrightarrow> version_known x"
  by (simp add: version_known_def)

lemma proto_parse_policy:
  assumes "\<forall>a \<in> set as. astmt_ok a" "as \<noteq> []"
  shows "\<exists>q. proto_json_parse gi (policy_json as) proto_policy_init = Inr q \<and> pv_stmt q = Val (map (stmt_of gi) as)"
  using json_parse_agrees [OF refl policy_json_versions, of gi "JArray (map astmt_json as)"] parse_policy_json [OF assms(1), of gi] assms(2)
  by (auto simp: policy_json_def same_policy_def policy_of_def)

theorem proto_policy_agrees_witness:
  "\<exists>q. proto_json_parse ex_get_int (policy_json [ex_astmt]) proto_policy_init = Inr q \<and>
     pv_stmt q = Val [stmt_of ex_get_int ex_astmt]"
proof -
  have "\<forall>a \<in> set [ex_astmt]. astmt_ok a" by (simp add: ex_astmt_def astmt_ok_def)
  from parse_policy_json [OF this, of ex_get_int]
    proto_policy_agrees [OF refl policy_json_versions, of ex_get_int "JArray (map astmt_json [ex_astmt])"]
  show ?thesis by (auto simp: policy_json_def policy_of_def)
qed

end
