(* ===== verification/Sgx_Proto_Main.thy ===== *)
theory Sgx_Proto_Main
  imports Sgx_Proto
begin

text \<open>
  The program \<open>pica_sgx/Enclave/picatest.c\<close>: the handling of the quote and of the
  measured chain, and \<open>main\<close>, from the options to the verdict.  The text of
  \<open>getoption\<close> is the one of \<open>pica_poc/Enclave/main.c\<close>.  The clock and what is
  printed are left out.
\<close>

unbundle bit_operations_syntax

section \<open>The quote\<close>

text \<open>
  The second half of \<open>verify_tpm2_quote\<close>: the return code and \<open>udata\<close>.  A buffer that
  could not be allocated makes the read of the host fail.
\<close>

definition proto_check_pcrs :: "tss \<Rightarrow> 'w os \<Rightarrow> bytes \<Rightarrow> bbuf \<Rightarrow> 'w \<Rightarrow> ((int \<times> bbuf) \<times> 'w) cres" where
  "proto_check_pcrs ts os s_quoted udata w =
     (let (trc, at) = un_attest ts s_quoted in
      if trc \<noteq> 0 \<or> at_type at \<noteq> TPM2_ST_ATTEST_QUOTE then Inr ((-1, udata), w)
      else
        let ((fd, sz), w) = ocall_pica_fsize os ''reg_quote.bin'' w in
        if sint sz \<le> 0 then Inr ((-1, udata), w)
        else
          let (mem, w) = os_malloc os sz w in
          if \<not> mem then (let (_, w) = os_close os fd w in Inr ((-1, udata), w))
          else
            let ((rsz, bs), w) = ocall_pica_fread os fd sz w in
            if rsz \<noteq> sz then Inr ((-1, udata), w)
            else
              let (trc, reg) = un_attest ts bs in
              if trc \<noteq> 0 \<or> at_type reg \<noteq> TPM2_ST_ATTEST_QUOTE then Inr ((-1, udata), w)
              else cbind (comp_pcr_selection (at_pcrs reg) (at_pcrs at)) (\<lambda>c.
                if c \<noteq> 0 then Inr ((-1, udata), w)
                else if length (at_extra at) < 32 then Inl OutOfBounds
                else Inr ((0, map Val (take 32 (at_extra at))), w)))"

text \<open>
  \<open>rc\<close> is \<open>-1\<close> whatever \<open>EVP_DigestVerifyFinal\<close> finds, which only chooses a message, and
  the comparison of the PCR selections sets it to 0.
\<close>

definition proto_verify_tpm2_quote ::
    "'k evp \<Rightarrow> tss \<Rightarrow> 'w os \<Rightarrow> bytes \<Rightarrow> signature slot \<Rightarrow> 'k option \<Rightarrow> bbuf \<Rightarrow> 'w \<Rightarrow> ((int \<times> bbuf) \<times> 'w) cres" where
  "proto_verify_tpm2_quote ev ts os s_quoted sig ak_pubkey udata w =
     cbind (rd sig) (\<lambda>sig. cbind (sig_parts ev sig) (\<lambda>parts.
     case parts of
       None \<Rightarrow> Inr ((-1, udata), w)
     | Some (hash_alg, sig_data) \<Rightarrow>
         if \<not> known_hash hash_alg then Inr ((-1, udata), w)
         else if \<not> vf_ctx ev then Inr ((-1, udata), w)
         else if vf_init ev hash_alg ak_pubkey \<noteq> 1 then Inr ((-1, udata), w)
         else if \<not> padding_ok ev sig hash_alg then Inr ((-1, udata), w)
         else if vf_update ev s_quoted \<noteq> 1 then Inr ((-1, udata), w)
         else proto_check_pcrs ts os s_quoted udata w))"

record proto_bundle =
  pb_quote :: "bytes option"
  pb_sig :: "signature slot"
  pb_qdata :: bbuf

definition proto_bundle_pair :: "tss \<Rightarrow> proto_bundle \<Rightarrow> cbor \<times> cbor \<Rightarrow> proto_bundle cres" where
  "proto_bundle_pair ts pb kv =
     cbind (cbor_string (Some (fst kv))) (\<lambda>cp.
     cbind (cbor_isa_string (Some (fst kv))) (\<lambda>istr.
     if \<not> istr then Inr pb
     else if key_matches ''quote'' cp then
       cbind (cbor_bytestring (Some (snd kv))) (\<lambda>q. Inr (pb\<lparr>pb_quote := Some q\<rparr>))
     else if key_matches ''sign'' cp then
       cbind (cbor_bytestring (Some (snd kv))) (\<lambda>body.
       let (trc, sig) = un_signature ts body in Inr (pb\<lparr>pb_sig := if trc = 0 then Val sig else Garbage\<rparr>))
     else if key_matches ''app-hash'' cp then
       cbind (cbor_bytestring (Some (snd kv))) (\<lambda>body.
       if length body > 32 then Inl OutOfBounds
       else Inr (pb\<lparr>pb_qdata := map Val body @ drop (length body) (pb_qdata pb)\<rparr>))
     else Inr pb))"

text \<open>What the program is linked with.\<close>

record ('w, 'k) penv =
  pe_so :: "'w sockops"
  pe_fuel :: nat
  pe_slack :: string
  pe_aux :: u16
  pe_rand :: "'w \<Rightarrow> (u32 \<times> bytes) \<times> 'w"
  pe_mm :: "string \<Rightarrow> u32"
  pe_gi :: "json \<Rightarrow> u32"
  pe_jp :: "bbuf \<Rightarrow> u64 \<Rightarrow> json option"
  pe_tok :: bool
  pe_os :: "'w os"
  pe_io :: "'w stdio"
  pe_cl :: cbor_lib
  pe_ts :: tss
  pe_cr :: "'k crypto"
  pe_junk :: bytes
  pe_ad :: addrs

text \<open>
  The map is taken apart before it is checked, so that the check never fails.  A
  bundle of another size, one without a quote, and a missing key file all
  return 0.
\<close>

definition proto_handle_tpm2_quote ::
    "('w, 'k) penv \<Rightarrow> cbor \<Rightarrow> bbuf \<Rightarrow> bbuf \<Rightarrow> 'w \<Rightarrow> ((int \<times> bbuf \<times> bbuf) \<times> 'w) cres" where
  "proto_handle_tpm2_quote pe item qdata udata w =
     cbind (unpack_sercbor (pe_cl pe) (Some item)) (\<lambda>cmap.
     cbind (cbor_map_pairs cmap) (\<lambda>ps.
     if length ps \<noteq> 3 then Inr ((0, qdata, udata), w)
     else
       cbind (cfold (proto_bundle_pair (pe_ts pe)) \<lparr>pb_quote = None, pb_sig = Garbage, pb_qdata = qdata\<rparr> ps) (\<lambda>pb.
       case pb_quote pb of
         None \<Rightarrow> Inr ((0, pb_qdata pb, udata), w)
       | Some s_quote \<Rightarrow>
           let ((len, bs), w) = host_readfile (pe_io pe) ''ak_pub.pem'' PEM_SIZE w in
           if len = 0 then Inr ((0, pb_qdata pb, udata), w)
           else case cr_pem (pe_cr pe) bs of
               None \<Rightarrow> Inr ((-1, pb_qdata pb, udata), w)
             | Some key \<Rightarrow>
                 cbind (proto_verify_tpm2_quote (cr_evp (pe_cr pe)) (pe_ts pe) (pe_os pe) s_quote (pb_sig pb) (Some key) udata w)
                   (\<lambda>((rc, udata), w). Inr ((rc, pb_qdata pb, udata), w)))))"

section \<open>The measured chain\<close>

text \<open>The number of entries and \<open>*out\<close>, which the caller has set to NULL.\<close>

definition proto_handle_pica :: "('w, 'k) penv \<Rightarrow> cbor \<Rightarrow> (int \<times> procinfo list option) cres" where
  "proto_handle_pica pe item =
     cbind (unpack_sercbor (pe_cl pe) (Some item)) (\<lambda>carray.
     case carray of
       None \<Rightarrow> Inr (0, None)
     | Some _ \<Rightarrow>
         cbind (cbor_isa_array carray) (\<lambda>isarr.
         if \<not> isarr then Inr (0, None)
         else cbind (cbor_array_items carray) (\<lambda>items.
           cbind (cmapM (extract_item (pe_cl pe) (pe_junk pe)) items) (\<lambda>ps.
           Inr (int (length items), Some ps)))))"

section \<open>The program\<close>

text \<open>The variables of \<open>main\<close> that the loop over the message sets.\<close>

record proto_state =
  st_rc :: int
  st_verified :: int
  st_capphash :: bbuf
  st_udata :: bbuf
  st_apphash :: bbuf
  st_picahash :: bbuf
  st_fresh :: "procinfo list option"
  st_ent :: int

definition proto_state_init :: "int \<Rightarrow> proto_state" where
  "proto_state_init rc = \<lparr>st_rc = rc, st_verified = 0, st_capphash = garbage32, st_udata = garbage32,
     st_apphash = garbage32, st_picahash = garbage32, st_fresh = None, st_ent = 0\<rparr>"

definition proto_take_quote ::
    "('w, 'k) penv \<Rightarrow> proto_state \<Rightarrow> cbor \<Rightarrow> 'w \<Rightarrow> (proto_state \<times> 'w) cres" where
  "proto_take_quote pe st val w =
     cbind (proto_handle_tpm2_quote pe val (replicate 32 (Val 0)) (st_udata st) w) (\<lambda>((r, capphash, udata), w).
     Inr (st\<lparr>st_capphash := capphash, st_udata := udata,
             st_verified := if r = 0 then st_verified st OR VERIFY_TPM2_QUOTE else st_verified st\<rparr>, w))"

text \<open>A hash that fails leaves the destination as it was.\<close>

definition hash_stored :: "bbuf \<Rightarrow> bbuf \<Rightarrow> bbuf" where
  "hash_stored old new = (if new = garbage32 then old else new)"

definition proto_take_chain ::
    "('w, 'k) penv \<Rightarrow> opts \<Rightarrow> bytes \<Rightarrow> proto_state \<Rightarrow> cbor \<Rightarrow> 'w \<Rightarrow> (proto_state \<times> 'w) cres" where
  "proto_take_chain pe op nonce st val w =
     cbind (cbor_bytestring (Some val)) (\<lambda>body.
     let h = cr_sha256 (pe_cr pe) body in
     cbind (hash_extend_sha256 (cr_sha256 (pe_cr pe)) (cr_ms (pe_cr pe)) h nonce) (\<lambda>(rc, ext).
     let st = st\<lparr>st_picahash := map Val h, st_apphash := hash_stored (st_apphash st) ext, st_rc := rc\<rparr> in
     cbind (proto_handle_pica pe val) (\<lambda>(entries, pinfo).
     if entries > 0 \<and> op_rflag op then
       cbind (deref pinfo) (\<lambda>ps. cbind (deref (op_conf_path op)) (\<lambda>path.
       cbind (proto_reg_config (pe_ad pe) (pe_os pe) path ps entries w) (\<lambda>w. Inr (st, w))))
     else Inr (st\<lparr>st_fresh := pinfo, st_ent := entries\<rparr>, w))))"

definition proto_pair ::
    "('w, 'k) penv \<Rightarrow> opts \<Rightarrow> bytes \<Rightarrow> proto_state \<Rightarrow> cbor \<times> cbor \<Rightarrow> 'w \<Rightarrow> (proto_state \<times> 'w) cres" where
  "proto_pair pe op nonce st kv w =
     cbind (cbor_string (Some (fst kv))) (\<lambda>cp.
     cbind (cbor_isa_string (Some (fst kv))) (\<lambda>istr.
     if \<not> istr then Inr (st, w)
     else if key_matches ''tpm2_quote'' cp then proto_take_quote pe st (snd kv) w
     else if key_matches ''pica'' cp then proto_take_chain pe op nonce st (snd kv) w
     else Inr (st, w)))"

fun proto_pairs ::
    "('w, 'k) penv \<Rightarrow> opts \<Rightarrow> bytes \<Rightarrow> proto_state \<Rightarrow> (cbor \<times> cbor) list \<Rightarrow> 'w \<Rightarrow> (proto_state \<times> 'w) cres" where
  "proto_pairs pe op nonce st [] w = Inr (st, w)"
| "proto_pairs pe op nonce st (kv # kvs) w =
     cbind (proto_pair pe op nonce st kv w) (\<lambda>(st, w). proto_pairs pe op nonce st kvs w)"

text \<open>Freshness: the hash of chain and nonce is in the quote, and the claimed hash is that of the chain.\<close>

definition proto_fresh :: "proto_state \<Rightarrow> bool cres" where
  "proto_fresh st =
     cbind (buf_get (st_apphash st) 0 32) (\<lambda>a. cbind (buf_get (st_udata st) 0 32) (\<lambda>u.
     if a \<noteq> u then Inr False
     else cbind (buf_get (st_capphash st) 0 32) (\<lambda>c. cbind (buf_get (st_picahash st) 0 32) (\<lambda>p. Inr (c = p)))))"

definition policy_view :: "pica_stmt list \<Rightarrow> pica_policy" where
  "policy_view stmts = \<lparr>pp_version = None, pp_entries = int (length stmts), pp_stmt = stmts\<rparr>"

definition proto_decide ::
    "('w, 'k) penv \<Rightarrow> entref htable \<Rightarrow> pica_stmt list \<Rightarrow> proto_state \<Rightarrow> main_out cres" where
  "proto_decide pe tbl stmts st =
     cbind (proto_fresh st) (\<lambda>fresh.
     let v = (if fresh then st_verified st OR VERIFY_TPM2_FRESH else st_verified st) in
     cbind (pica_verify_binaries (pe_mm pe) tbl (st_fresh st) (st_ent st)) (\<lambda>vb.
     cbind (deref (st_fresh st)) (\<lambda>ps.
     cbind (if st_ent st < 1 then Inl OutOfBounds else cnth ps (nat (st_ent st) - 1)) (\<lambda>mybinary.
     cbind (pica_find_policy (policy_view stmts) mybinary) (\<lambda>found.
     case found of
       None \<Rightarrow> Inr \<lparr>mo_rc = st_rc st, mo_verified = v OR vb, mo_allowed = None\<rparr>
     | Some i \<Rightarrow>
         cbind (cnth stmts i) (\<lambda>pstmt.
         cbind (pica_check_ichain pstmt ps (st_ent st)) (\<lambda>vc.
         cbind (pica_check_uids pstmt ps (st_ent st)) (\<lambda>vu.
         let v = ((v OR vb) OR vc) OR vu in
         Inr \<lparr>mo_rc = st_rc st, mo_verified = v, mo_allowed = (if VERIFIED_ALL v then Some pstmt else None)\<rparr>))))))))"

text \<open>\<open>rc\<close> still holds the result of \<open>getoption\<close> when a message of another size is refused.\<close>

definition proto_session ::
    "('w, 'k) penv \<Rightarrow> opts \<Rightarrow> nat \<Rightarrow> string \<Rightarrow> entref htable \<Rightarrow> pica_stmt list \<Rightarrow> 'w \<Rightarrow> (main_out \<times> 'w) cres" where
  "proto_session pe op i dpath tbl stmts w =
     (let ((st, nonce), w) = pe_rand pe w in
      if st \<noteq> 0 then Inr (main_fail 0, w)
      else
        cbind (ocall_pica_measure (pe_fuel pe) (pe_so pe) (pe_slack pe) (pe_aux pe) nonce
            (replicate MEASURE_SZ (Val 0)) dpath w) (\<lambda>((measured, msz), w).
        cbind (buf_get measured 0 (unat msz)) (\<lambda>msg.
        case cl_load (pe_cl pe) msg of
          None \<Rightarrow> Inr (main_fail 0, w)
        | Some cmap \<Rightarrow>
            cbind (cbor_isa_map (Some cmap)) (\<lambda>ismap.
            if \<not> ismap then Inr (main_fail 0, w)
            else cbind (cbor_map_pairs (Some cmap)) (\<lambda>kvs.
              if length kvs \<noteq> 2 then Inr (\<lparr>mo_rc = int i, mo_verified = 0, mo_allowed = None\<rparr>, w)
              else
                cbind (proto_pairs pe op nonce (proto_state_init (int i)) kvs w) (\<lambda>(st, w).
                if op_rflag op then Inr (\<lparr>mo_rc = st_rc st, mo_verified = st_verified st, mo_allowed = None\<rparr>, w)
                else cbind (proto_decide pe tbl stmts st) (\<lambda>out. Inr (out, w))))))))"

text \<open>Neither the size of the file nor what was read of it is looked at.\<close>

definition proto_config :: "('w, 'k) penv \<Rightarrow> opts \<Rightarrow> 'w \<Rightarrow> (entref htable \<times> 'w) cres" where
  "proto_config pe op w =
     (if op_rflag op then Inr (htable_zero, w)
      else cbind (deref (op_conf_path op)) (\<lambda>path.
        let ((fd, sz), w) = ocall_pica_fsize (pe_os pe) path w; (mem, w) = os_malloc (pe_os pe) sz w in
        if \<not> mem then Inl NullDeref
        else
          let ((_, bs), w) = ocall_pica_fread (pe_os pe) fd sz w in
          cbind (proto_build_conf (Some (buf_store (unat sz) bs))) (\<lambda>(entries, ps).
          cbind (reg_entries (pe_mm pe) ps [0..<nat entries] htable_zero) (\<lambda>tbl. Inr (tbl, w)))))"

text \<open>\<open>None\<close>: the policy file cannot be opened.  A text that is no JSON is parsed through NULL.\<close>

definition proto_policy_read ::
    "('w, 'k) penv \<Rightarrow> string \<Rightarrow> entref htable \<Rightarrow> 'w \<Rightarrow> ((pica_stmt list \<times> entref htable) option \<times> 'w) cres" where
  "proto_policy_read pe path tbl w =
     (let ((fd, sz), w) = ocall_pica_fsize (pe_os pe) path w in
      if fd < 0 then Inr (None, w)
      else
        let (mem, w) = os_malloc (pe_os pe) sz w in
        if \<not> mem \<or> \<not> pe_tok pe then Inl NullDeref
        else
          let ((rsz, bs), w) = ocall_pica_fread (pe_os pe) fd sz w in
          cbind (deref (pe_jp pe (buf_store (unat sz) bs) rsz)) (\<lambda>jobj.
          cbind (proto_json_parse (pe_gi pe) jobj proto_policy_init) (\<lambda>pp.
          cbind (rd (pv_stmt pp)) (\<lambda>stmts.
          cbind (reg_policy (pe_mm pe) (policy_view stmts) tbl) (\<lambda>tbl.
          Inr (Some (stmts, tbl), w))))))"

definition proto_main :: "('w, 'k) penv \<Rightarrow> string list \<Rightarrow> 'w \<Rightarrow> (main_out \<times> 'w) cres" where
  "proto_main pe argv w =
     cbind (getoption argv) (\<lambda>opt.
     case opt of
       None \<Rightarrow> Inr (main_fail 0, w)
     | Some (op, i) \<Rightarrow>
         if op_eflag op then Inr (\<lparr>mo_rc = 0, mo_verified = 0, mo_allowed = None\<rparr>, w)
         else
           cbind (proto_config pe op w) (\<lambda>(tbl, w).
           cbind (deref (op_pol_path op)) (\<lambda>polpath. cbind (deref (op_daemon_path op)) (\<lambda>dpath.
           cbind (proto_policy_read pe polpath tbl w) (\<lambda>(pol, w).
           case pol of
             None \<Rightarrow> Inr (main_fail 0, w)
           | Some (stmts, tbl) \<Rightarrow> proto_session pe op i dpath tbl stmts w)))))"

section \<open>What an announced success still shows\<close>

text \<open>A quote over the PCR selection of the registered file, whoever made it.\<close>

definition pcrs_registered :: "('w, 'k) penv \<Rightarrow> attest \<Rightarrow> bool" where
  "pcrs_registered pe at \<longleftrightarrow>
     (\<exists>q fd sz bs reg w w'. un_attest (pe_ts pe) q = (0, at) \<and> at_type at = TPM2_ST_ATTEST_QUOTE \<and>
        ocall_pica_fread (pe_os pe) fd sz w = ((sz, bs), w') \<and> un_attest (pe_ts pe) bs = (0, reg) \<and>
        at_type reg = TPM2_ST_ATTEST_QUOTE \<and> comp_pcr_selection (at_pcrs reg) (at_pcrs at) = Inr 0)"

definition udata_ok :: "('w, 'k) penv \<Rightarrow> bbuf \<Rightarrow> bool" where
  "udata_ok pe ud \<longleftrightarrow> ud = garbage32 \<or> (\<exists>at. pcrs_registered pe at \<and> ud = map Val (take 32 (at_extra at)))"

lemma check_pcrs_udata:
  assumes "proto_check_pcrs (pe_ts pe) os q ud w = Inr ((rc, ud'), w')" "os = pe_os pe" "udata_ok pe ud"
  shows "udata_ok pe ud'"
proof (cases "ud' = ud")
  case False
  obtain trc at where at: "un_attest (pe_ts pe) q = (trc, at)" by fastforce
  obtain fd sz w1 where f: "ocall_pica_fsize os ''reg_quote.bin'' w = ((fd, sz), w1)" by (metis prod.exhaust)
  obtain mem w2 where m: "os_malloc os sz w1 = (mem, w2)" by fastforce
  obtain rsz bs w3 where r: "ocall_pica_fread os fd sz w2 = ((rsz, bs), w3)" by (metis prod.exhaust)
  obtain trc2 reg where reg: "un_attest (pe_ts pe) bs = (trc2, reg)" by fastforce
  from assms(1) False show ?thesis
    using at f m r reg
    by (auto simp: proto_check_pcrs_def cbind_eq_Inr udata_ok_def pcrs_registered_def assms(2) split: if_split_asm prod.split_asm) blast
qed (use assms in simp)

lemma verify_quote_udata:
  assumes "proto_verify_tpm2_quote ev (pe_ts pe) (pe_os pe) q sig key ud w = Inr ((rc, ud'), w')" "udata_ok pe ud"
  shows "udata_ok pe ud'"
proof (cases "ud' = ud")
  case False
  with assms(1) have "proto_check_pcrs (pe_ts pe) (pe_os pe) q ud w = Inr ((rc, ud'), w')"
    by (auto simp: proto_verify_tpm2_quote_def cbind_eq_Inr split: if_split_asm option.split_asm)
  then show ?thesis by (rule check_pcrs_udata [OF _ refl assms(2)])
qed (use assms in simp)

lemma handle_quote_udata:
  assumes "proto_handle_tpm2_quote pe item qd ud w = Inr ((rc, qd', ud'), w')" "udata_ok pe ud"
  shows "udata_ok pe ud'"
proof (cases "ud' = ud")
  case False
  from assms(1) obtain cmap ps where m: "unpack_sercbor (pe_cl pe) (Some item) = Inr cmap" "cbor_map_pairs cmap = Inr ps"
    by (auto simp: proto_handle_tpm2_quote_def cbind_eq_Inr)
  have "length ps = 3" using assms(1) False by (auto simp: proto_handle_tpm2_quote_def m split: if_split_asm)
  with assms(1) obtain pb where pb: "cfold (proto_bundle_pair (pe_ts pe)) \<lparr>pb_quote = None, pb_sig = Garbage, pb_qdata = qd\<rparr> ps = Inr pb"
    by (auto simp: proto_handle_tpm2_quote_def m cbind_eq_Inr)
  obtain len bs w1 where f: "host_readfile (pe_io pe) ''ak_pub.pem'' PEM_SIZE w = ((len, bs), w1)" by (metis prod.exhaust)
  from assms(1) False obtain q key where "proto_verify_tpm2_quote (cr_evp (pe_cr pe)) (pe_ts pe) (pe_os pe) q (pb_sig pb) key ud w1 = Inr ((rc, ud'), w')"
    by (auto simp: proto_handle_tpm2_quote_def m pb f \<open>length ps = 3\<close> cbind_eq_Inr split: if_split_asm option.split_asm)
  then show ?thesis by (rule verify_quote_udata [OF _ assms(2)])
qed (use assms in simp)

lemma handle_pica_length:
  "proto_handle_pica pe item = Inr (n, Some ps) \<Longrightarrow> n = int (length ps)"
  by (auto simp: proto_handle_pica_def cbind_eq_Inr split: option.split_asm if_split_asm dest: cmapM_length)

text \<open>What holds of the variables while the message is taken apart.\<close>

definition proto_inv :: "('w, 'k) penv \<Rightarrow> proto_state \<Rightarrow> bool" where
  "proto_inv pe st \<longleftrightarrow> udata_ok pe (st_udata st) \<and> st_verified st \<in> {0, VERIFY_TPM2_QUOTE} \<and>
     (case st_fresh st of None \<Rightarrow> True | Some _ \<Rightarrow> \<exists>item. proto_handle_pica pe item = Inr (st_ent st, st_fresh st))"

lemma take_quote_inv:
  assumes "proto_take_quote pe st val w = Inr (st', w')" "proto_inv pe st"
  shows "proto_inv pe st'"
proof -
  from assms(1) obtain r capp ud w1 where
    q: "proto_handle_tpm2_quote pe val (replicate 32 (Val 0)) (st_udata st) w = Inr ((r, capp, ud), w1)"
    "st' = st\<lparr>st_capphash := capp, st_udata := ud,
             st_verified := if r = 0 then st_verified st OR VERIFY_TPM2_QUOTE else st_verified st\<rparr>"
    by (auto simp: proto_take_quote_def cbind_eq_Inr)
  from handle_quote_udata [OF q(1)] assms(2) q(2) show ?thesis
    by (auto simp: proto_inv_def VERIFY_TPM2_QUOTE_def split: option.splits)
qed

lemma take_chain_inv:
  assumes "proto_take_chain pe op nonce st val w = Inr (st', w')" "proto_inv pe st"
  shows "proto_inv pe st'"
proof -
  from assms(1) obtain n pinfo where n: "proto_handle_pica pe val = Inr (n, pinfo)"
    by (auto simp: proto_take_chain_def cbind_eq_Inr Let_def)
  with assms(1) have "st_udata st' = st_udata st \<and> st_verified st' = st_verified st \<and>
      (st_fresh st' = st_fresh st \<and> st_ent st' = st_ent st \<or> st_fresh st' = pinfo \<and> st_ent st' = n)"
    by (auto simp: proto_take_chain_def cbind_eq_Inr Let_def split: if_split_asm)
  with n assms(2) show ?thesis by (auto simp: proto_inv_def split: option.splits)
qed

lemma proto_pair_inv:
  assumes "proto_pair pe op nonce st kv w = Inr (st', w')" "proto_inv pe st"
  shows "proto_inv pe st'"
proof -
  obtain cp istr where k: "cbor_string (Some (fst kv)) = Inr cp" "cbor_isa_string (Some (fst kv)) = Inr istr"
    using assms(1) by (auto simp: proto_pair_def cbind_eq_Inr)
  from assms(1) have "st' = st \<or> proto_take_quote pe st (snd kv) w = Inr (st', w') \<or>
      proto_take_chain pe op nonce st (snd kv) w = Inr (st', w')"
    by (simp add: proto_pair_def k split: if_split_asm)
  then show ?thesis
    using assms(2) take_quote_inv [OF _ assms(2)] take_chain_inv [OF _ assms(2)] by metis
qed

lemma proto_pairs_inv:
  "proto_pairs pe op nonce st kvs w = Inr (st', w') \<Longrightarrow> proto_inv pe st \<Longrightarrow> proto_inv pe st'"
  by (induction kvs arbitrary: st w) (auto simp: cbind_eq_Inr dest: proto_pair_inv)

lemma buf_get_garbage: "buf_get garbage32 0 32 = Inr x \<Longrightarrow> False"
  by (simp add: buf_get_def numeral_eq_Suc)

lemma proto_flags:
  assumes "v \<in> {0, VERIFY_TPM2_QUOTE}" "vb = 0 \<or> vb = VERIFY_PICA_BINARIES" "vc = 0 \<or> vc = VERIFY_PICA_CHAIN"
    "vu = 0 \<or> vu = VERIFY_PICA_UIDS"
    "VERIFIED_ALL ((((if f then v OR VERIFY_TPM2_FRESH else v) OR vb) OR vc) OR vu)"
  shows "vb \<noteq> 0 \<and> vc \<noteq> 0 \<and> vu \<noteq> 0"
  using assms by (auto simp: VERIFIED_ALL_def flag_simps Let_def split: if_split_asm)

lemma proto_decide_allowed:
  assumes "proto_decide pe tbl stmts st = Inr out" "mo_allowed out = Some stmt" "proto_inv pe st"
  shows "\<exists>at item ps. pcrs_registered pe at \<and> st_udata st = map Val (take 32 (at_extra at)) \<and>
     proto_handle_pica pe item = Inr (int (length ps), Some ps) \<and>
     chain_accepted (pe_mm pe) tbl (policy_view stmts) stmt ps"
proof -
  from assms(1,2) obtain f vb ps bin i vc vu where d: "proto_fresh st = Inr f" "st_fresh st = Some ps" "\<not> st_ent st < 1"
    "pica_verify_binaries (pe_mm pe) tbl (Some ps) (st_ent st) = Inr vb" "cnth ps (nat (st_ent st) - 1) = Inr bin"
    "pica_find_policy (policy_view stmts) bin = Inr (Some i)" "cnth stmts i = Inr stmt"
    "pica_check_ichain stmt ps (st_ent st) = Inr vc" "pica_check_uids stmt ps (st_ent st) = Inr vu"
    "VERIFIED_ALL ((((if f then st_verified st OR VERIFY_TPM2_FRESH else st_verified st) OR vb) OR vc) OR vu)"
    by (auto simp: proto_decide_def cbind_eq_Inr Let_def split: if_split_asm option.split_asm)
  from assms(3) d(2) obtain item where item: "proto_handle_pica pe item = Inr (st_ent st, Some ps)"
    by (auto simp: proto_inv_def)
  then have ent: "st_ent st = int (length ps)" by (rule handle_pica_length)
  with d(3) have ne: "ps \<noteq> []" by auto
  have bin: "bin = last ps" using d(5) ne by (simp add: ent last_conv_nth)
  have nth: "cnth (pp_stmt (policy_view stmts)) i = Inr stmt" using d(7) by (simp add: policy_view_def)
  note ch = checks_accepted [OF ne ent d(6) [unfolded bin] nth d(4,8,9)]
  have v: "st_verified st \<in> {0, VERIFY_TPM2_QUOTE}" using assms(3) by (simp add: proto_inv_def)
  have "vb \<noteq> 0 \<and> vc \<noteq> 0 \<and> vu \<noteq> 0" by (rule proto_flags [OF v ch(1-3) d(10)])
  with ch(4) have "chain_accepted (pe_mm pe) tbl (policy_view stmts) stmt ps" by blast
  moreover from d(1) obtain u where "buf_get (st_udata st) 0 32 = Inr u" by (auto simp: proto_fresh_def cbind_eq_Inr)
  then have "st_udata st \<noteq> garbage32" using buf_get_garbage by auto
  with assms(3) obtain at where "pcrs_registered pe at" "st_udata st = map Val (take 32 (at_extra at))"
    by (auto simp: proto_inv_def udata_ok_def)
  ultimately show ?thesis using item ent by auto
qed


section \<open>The signature decides nothing\<close>

lemma measure_of_request:
  assumes "pica_request_measure f so sl aux nonce buf sz path w = Inr ((0, m, n), w')" "n \<noteq> sz"
  shows "ocall_pica_measure f so sl aux nonce buf path w = Inr ((m, n), w')"
proof -
  from assms(1) obtain con w1 where con: "sock_connect_daemon so sl path w = Inr (con, w1)" "\<not> con < 0" "\<not> length nonce < 32"
    by (auto simp: pica_request_measure_def cbind_eq_Inr split: if_split_asm)
  with assms(1) obtain rc w2 where snd: "sock_send f so con (enc_head \<lparr>th_cmd = TPMD_REQ_PICA, th_aux = aux, th_len = 32\<rparr> @ take 32 nonce) w1 = Inr (rc, w2)"
    "\<not> rc < 0"
    by (auto simp: pica_request_measure_def cbind_eq_Inr split: if_split_asm)
  with assms(1) con obtain rc2 hb w3 where hd: "sock_recv f so con (replicate HEAD_SZ Garbage) w2 = Inr ((rc2, hb), w3)" "\<not> rc2 < 0"
    by (auto simp: pica_request_measure_def cbind_eq_Inr split: if_split_asm)
  with assms(1) con snd obtain bs where bs: "buf_get hb 0 HEAD_SZ = Inr bs"
    by (auto simp: pica_request_measure_def cbind_eq_Inr split: if_split_asm)
  show ?thesis
    using assms con snd hd bs
    by (auto simp: pica_request_measure_def ocall_pica_measure_def Let_def cbind_eq_Inr split: if_split_asm)
qed

text \<open>
  The TPM side without any demand on the signature but that its kind is supported: the key file
  holds a key, and the quote has the registered PCR selection.
\<close>

definition unsigned_tpm :: "('w, 'k) penv \<Rightarrow> bytes \<Rightarrow> bytes \<Rightarrow> attest \<Rightarrow> bool" where
  "unsigned_tpm pe q sg at \<longleftrightarrow>
     (let ev = cr_evp (pe_cr pe); ts = pe_ts pe; (c, sig) = un_signature ts sg in
      un_attest ts q = (0, at) \<and> at_type at = TPM2_ST_ATTEST_QUOTE \<and> 32 \<le> length (at_extra at) \<and> c = 0 \<and>
      cr_ms (pe_cr pe) = ms_good \<and> (\<forall>x. length (cr_sha256 (pe_cr pe) x) = 32) \<and>
      (\<exists>key reg. (\<forall>w. \<exists>len bs w1. host_readfile (pe_io pe) ''ak_pub.pem'' PEM_SIZE w = ((len, bs), w1) \<and> len \<noteq> 0 \<and>
           cr_pem (pe_cr pe) bs = Some key) \<and>
         (\<exists>h d. sig_parts ev sig = Inr (Some (h, d)) \<and> known_hash h \<and> vf_ctx ev \<and> vf_init ev h (Some key) = 1 \<and>
           padding_ok ev sig h \<and> vf_update ev q = 1) \<and>
         (\<forall>w. \<exists>fd sz w1 w2 w3 bs. ocall_pica_fsize (pe_os pe) ''reg_quote.bin'' w = ((fd, sz), w1) \<and> 0 < sint sz \<and>
           os_malloc (pe_os pe) sz w1 = (True, w2) \<and> ocall_pica_fread (pe_os pe) fd sz w2 = ((sz, bs), w3) \<and>
           un_attest ts bs = (0, reg)) \<and>
         at_type reg = TPM2_ST_ATTEST_QUOTE \<and> comp_pcr_selection (at_pcrs reg) (at_pcrs at) = Inr 0))"

lemma unsigned_verify:
  assumes "unsigned_tpm pe q sg at"
  shows "\<exists>key. (\<forall>w. \<exists>len bs w1. host_readfile (pe_io pe) ''ak_pub.pem'' PEM_SIZE w = ((len, bs), w1) \<and> len \<noteq> 0 \<and>
           cr_pem (pe_cr pe) bs = Some key) \<and>
     (\<forall>ud w. \<exists>w'. proto_verify_tpm2_quote (cr_evp (pe_cr pe)) (pe_ts pe) (pe_os pe) q (Val (snd (un_signature (pe_ts pe) sg)))
        (Some key) ud w = Inr ((0, map Val (take 32 (at_extra at))), w'))"
proof -
  from assms obtain key reg h d where k: "\<forall>w. \<exists>len bs w1. host_readfile (pe_io pe) ''ak_pub.pem'' PEM_SIZE w = ((len, bs), w1) \<and>
      len \<noteq> 0 \<and> cr_pem (pe_cr pe) bs = Some key"
    and s: "sig_parts (cr_evp (pe_cr pe)) (snd (un_signature (pe_ts pe) sg)) = Inr (Some (h, d))" "known_hash h"
      "vf_ctx (cr_evp (pe_cr pe))" "vf_init (cr_evp (pe_cr pe)) h (Some key) = 1"
      "padding_ok (cr_evp (pe_cr pe)) (snd (un_signature (pe_ts pe) sg)) h" "vf_update (cr_evp (pe_cr pe)) q = 1"
    and f: "\<forall>w. \<exists>fd sz w1 w2 w3 bs. ocall_pica_fsize (pe_os pe) ''reg_quote.bin'' w = ((fd, sz), w1) \<and> 0 < sint sz \<and>
       os_malloc (pe_os pe) sz w1 = (True, w2) \<and> ocall_pica_fread (pe_os pe) fd sz w2 = ((sz, bs), w3) \<and>
       un_attest (pe_ts pe) bs = (0, reg)"
    and at: "un_attest (pe_ts pe) q = (0, at)" "at_type at = TPM2_ST_ATTEST_QUOTE" "32 \<le> length (at_extra at)"
      "at_type reg = TPM2_ST_ATTEST_QUOTE" "comp_pcr_selection (at_pcrs reg) (at_pcrs at) = Inr 0"
    by (auto simp: unsigned_tpm_def Let_def case_prod_beta)
  have "\<exists>w'. proto_check_pcrs (pe_ts pe) (pe_os pe) q ud w = Inr ((0, map Val (take 32 (at_extra at))), w')" for ud w
  proof -
    from f obtain fd sz w1 w2 w3 bs where "ocall_pica_fsize (pe_os pe) ''reg_quote.bin'' w = ((fd, sz), w1)" "0 < sint sz"
      "os_malloc (pe_os pe) sz w1 = (True, w2)" "ocall_pica_fread (pe_os pe) fd sz w2 = ((sz, bs), w3)"
      "un_attest (pe_ts pe) bs = (0, reg)" by blast
    with at show ?thesis by (simp add: proto_check_pcrs_def)
  qed
  with k s show ?thesis by (intro exI [of _ key]) (simp add: proto_verify_tpm2_quote_def)
qed

lemma unsigned_handle:
  assumes "unsigned_tpm pe q sg at" "cbor_faithful (pe_cl pe) (bundle_item (ex_bundle q sg ah))" "length ah = 32" "length qd = 32"
  shows "\<exists>w'. proto_handle_tpm2_quote pe (CBytes True (cl_ser (pe_cl pe) (bundle_item (ex_bundle q sg ah)))) qd ud w =
     Inr ((0, map Val ah, map Val (take 32 (at_extra at))), w')"
proof -
  have c: "fst (un_signature (pe_ts pe) sg) = 0" using assms(1) by (auto simp: unsigned_tpm_def case_prod_beta Let_def)
  have "unpack_sercbor (pe_cl pe) (Some (CBytes True (cl_ser (pe_cl pe) (bundle_item (ex_bundle q sg ah))))) =
      Inr (Some (CMap True (ex_bundle q sg ah)))"
    using unpack_sercbor_ser [OF assms(2)] by (simp add: bundle_item_def)
  moreover have "cfold (proto_bundle_pair (pe_ts pe)) \<lparr>pb_quote = None, pb_sig = Garbage, pb_qdata = qd\<rparr> (ex_bundle q sg ah) =
      Inr \<lparr>pb_quote = Some q, pb_sig = Val (snd (un_signature (pe_ts pe) sg)), pb_qdata = map Val ah\<rparr>"
    using assms(3,4) c by (simp add: ex_bundle_def proto_bundle_pair_def case_prod_beta)
  moreover from unsigned_verify [OF assms(1)] obtain key len bs w1 w2 where
    "host_readfile (pe_io pe) ''ak_pub.pem'' PEM_SIZE w = ((len, bs), w1)" "len \<noteq> 0" "cr_pem (pe_cr pe) bs = Some key"
    "proto_verify_tpm2_quote (cr_evp (pe_cr pe)) (pe_ts pe) (pe_os pe) q (Val (snd (un_signature (pe_ts pe) sg)))
        (Some key) ud w1 = Inr ((0, map Val (take 32 (at_extra at))), w2)" by metis
  moreover have "length (ex_bundle q sg ah) = 3" by (simp add: ex_bundle_def)
  ultimately show ?thesis by (simp add: proto_handle_tpm2_quote_def)
qed

lemma honest_take_chain:
  assumes "chain_faithful (pe_cl pe) ps" "ps \<noteq> []" "\<forall>p \<in> set ps. wf_procinfo p" "\<not> op_rflag op"
    and "cr_ms (pe_cr pe) = ms_good" "\<forall>x. length (cr_sha256 (pe_cr pe) x) = 32" "length nonce = 32"
    and "body = cl_ser (pe_cl pe) (chain_item (pe_cl pe) ps)"
  shows "proto_take_chain pe op nonce st (CBytes True body) w =
     Inr (st\<lparr>st_picahash := map Val (cr_sha256 (pe_cr pe) body),
       st_apphash := map Val (cr_sha256 (pe_cr pe) (cr_sha256 (pe_cr pe) body @ nonce)), st_rc := 0,
       st_fresh := Some ps, st_ent := int (length ps)\<rparr>, w)"
proof -
  have "cl_load (pe_cl pe) body = Some (chain_item (pe_cl pe) ps)"
    using assms(1,8) by (simp add: chain_faithful_def cbor_faithful_def)
  moreover have "cmapM (extract_item (pe_cl pe) (pe_junk pe))
      (map (\<lambda>p. CBytes True (cl_ser (pe_cl pe) (CMap True (proc_pairs p)))) ps) = Inr ps"
    by (rule extract_chain_items) (use assms(1,3) in \<open>simp add: chain_faithful_def\<close>)
  ultimately have "proto_handle_pica pe (CBytes True body) = Inr (int (length ps), Some ps)"
    by (simp add: proto_handle_pica_def unpack_sercbor_def chain_item_def)
  moreover have "hash_stored old (map Val xs) = map Val xs" for old xs
  proof -
    have "Garbage \<notin> set (map Val xs)" by auto
    then have "map Val xs \<noteq> garbage32" by (metis in_set_replicate zero_neq_numeral)
    then show ?thesis by (simp add: hash_stored_def)
  qed
  ultimately show ?thesis
    using assms(4-7) by (simp add: proto_take_chain_def hash_extend_good Let_def)
qed

definition freshness :: "('w, 'k) penv \<Rightarrow> attest \<Rightarrow> bytes \<Rightarrow> bytes \<Rightarrow> bytes \<Rightarrow> bool" where
  "freshness pe at body ah nonce \<longleftrightarrow>
     (let h = cr_sha256 (pe_cr pe) body in cr_sha256 (pe_cr pe) (h @ nonce) = take 32 (at_extra at) \<and> ah = h)"

lemma unsigned_decide:
  assumes tbl: "conf_table (pe_mm pe) tbl cnf" and chain: "chain_allowed gi cnf as a ps"
    and st: "st_fresh st = Some ps" "st_ent st = int (length ps)" "st_verified st = VERIFY_TPM2_QUOTE"
    and f: "proto_fresh st = Inr fr"
  shows "proto_decide pe tbl (map (stmt_of gi) as) st =
     Inr \<lparr>mo_rc = st_rc st, mo_verified = (if fr then 31 else 29), mo_allowed = Some (stmt_of gi a)\<rparr>"
proof -
  note ch = honest_checks [OF tbl chain]
  from ch(3) obtain i where i: "pica_find_policy (policy_view (map (stmt_of gi) as)) (last ps) = Inr (Some i)"
    "cnth (map (stmt_of gi) as) i = Inr (stmt_of gi a)"
    by (auto simp: pica_find_policy_def policy_view_def)
  have "cnth ps (nat (int (length ps)) - 1) = Inr (last ps)"
    using ch(1) by (simp add: last_conv_nth)
  then show ?thesis
    using ch(1,4-6) i by (simp add: proto_decide_def st f VERIFIED_ALL_def flag_simps Let_def)
qed

lemma buf_get_prefix: "buf_get (map Val xs @ b) 0 (length xs) = Inr xs"
  by (simp add: buf_get_def)

lemma unsigned_session:
  assumes rand: "pe_rand pe w = ((0, nonce), w0)" "length nonce = 32"
    and net: "pe_so pe = net_ops" "length path \<le> 108" "108 \<le> length (path @ NUL # pe_slack pe)" "MEASURE_SZ \<le> pe_fuel pe"
    and tpm: "unsigned_tpm pe q sg at" "length ah = 32"
    and wire: "chain_faithful (pe_cl pe) ps" "message_faithful (pe_cl pe) (ex_bundle q sg ah) body"
      "body = cl_ser (pe_cl pe) (chain_item (pe_cl pe) ps)"
    and msg: "msg = cl_ser (pe_cl pe) (message_item (pe_cl pe) (ex_bundle q sg ah) body)"
      "0 < length msg" "length msg \<le> MEASURE_SZ"
    and reply: "net_unread w0 = enc_head h @ msg" "unat (th_len h) = length msg"
    and tbl: "conf_table (pe_mm pe) tbl cnf" and chain: "chain_allowed gi cnf as a ps" and op: "\<not> op_rflag op"
  shows "\<exists>w'. proto_session pe op i path tbl (map (stmt_of gi) as) w =
     Inr (\<lparr>mo_rc = 0, mo_verified = (if freshness pe at body ah nonce then 31 else 29), mo_allowed = Some (stmt_of gi a)\<rparr>, w')"
proof -
  let ?buf = "replicate MEASURE_SZ (Val (0 :: byte))"
  have sz: "MEASURE_SZ = 131072" by (simp add: MEASURE_SZ_def)
  have "\<exists>w1. pica_request_measure (pe_fuel pe) net_ops (pe_slack pe) (pe_aux pe) nonce ?buf 0 path w0 =
      Inr ((0, map Val (take (length msg) msg) @ drop (length msg) ?buf, of_nat (length msg)), w1)"
    using request_reply [OF net(2,3) rand(2) _ _ _ reply(1) reply(2) [symmetric], of "pe_fuel pe" ?buf "pe_aux pe" 0]
      net(4) msg(2,3) by (auto simp: sz)
  then obtain w1 where "pica_request_measure (pe_fuel pe) net_ops (pe_slack pe) (pe_aux pe) nonce ?buf 0 path w0 =
      Inr ((0, map Val msg @ drop (length msg) ?buf, of_nat (length msg)), w1)" by auto
  moreover have "(of_nat (length msg) :: u64) \<noteq> 0"
  proof
    assume "(of_nat (length msg) :: u64) = 0"
    then have "unat (of_nat (length msg) :: u64) = 0" by simp
    moreover have "unat (of_nat (length msg) :: u64) = length msg" using msg(3) by (simp add: sz)
    ultimately show False using msg(2) by simp
  qed
  ultimately have req: "ocall_pica_measure (pe_fuel pe) net_ops (pe_slack pe) (pe_aux pe) nonce ?buf path w0 =
      Inr ((map Val msg @ drop (length msg) ?buf, of_nat (length msg)), w1)" by (rule measure_of_request)
  have get: "buf_get (map Val msg @ drop (length msg) ?buf) 0 (unat (of_nat (length msg) :: u64)) = Inr msg"
  proof -
    have "unat (of_nat (length msg) :: u64) = length msg" using msg(3) by (simp add: sz)
    then show ?thesis by (simp only: buf_get_prefix)
  qed
  have load: "cl_load (pe_cl pe) msg = Some (message_item (pe_cl pe) (ex_bundle q sg ah) body)"
    "cbor_faithful (pe_cl pe) (bundle_item (ex_bundle q sg ah))"
    using wire(2) msg(1) by (simp_all add: message_faithful_def cbor_faithful_def)
  have cr: "cr_ms (pe_cr pe) = ms_good" "\<forall>x. length (cr_sha256 (pe_cr pe) x) = 32"
    using tpm(1) by (auto simp: unsigned_tpm_def case_prod_beta Let_def)
  from unsigned_handle [OF tpm(1) load(2) tpm(2), of "replicate 32 (Val 0)" garbage32 w1] obtain w2 where
    quote: "proto_handle_tpm2_quote pe (CBytes True (cl_ser (pe_cl pe) (bundle_item (ex_bundle q sg ah)))) (replicate 32 (Val 0)) garbage32 w1 =
     Inr ((0, map Val ah, map Val (take 32 (at_extra at))), w2)" by auto
  note ch = honest_checks(1,2) [OF tbl chain]
  let ?hash = "cr_sha256 (pe_cr pe) body"
  let ?st = "\<lparr>st_rc = 0, st_verified = VERIFY_TPM2_QUOTE, st_capphash = map Val ah, st_udata = map Val (take 32 (at_extra at)),
     st_apphash = map Val (cr_sha256 (pe_cr pe) (?hash @ nonce)), st_picahash = map Val ?hash, st_fresh = Some ps, st_ent = int (length ps)\<rparr>"
  have pairs: "proto_pairs pe op nonce (proto_state_init (int i))
      [(text_key ''tpm2_quote'', CBytes True (cl_ser (pe_cl pe) (bundle_item (ex_bundle q sg ah)))), (text_key ''pica'', CBytes True body)] w1 =
      Inr (?st, w2)"
    using honest_take_chain [OF wire(1) ch op cr rand(2) wire(3)]
    by (simp add: proto_pair_def proto_take_quote_def proto_state_init_def quote)
  have at: "32 \<le> length (at_extra at)" using tpm(1) by (auto simp: unsigned_tpm_def case_prod_beta Let_def)
  have "proto_fresh ?st = Inr (freshness pe at body ah nonce)"
    using cr(2) tpm(2) at by (simp add: proto_fresh_def buf_get_all freshness_def Let_def)
  from unsigned_decide [OF tbl chain _ _ _ this] have
    "proto_decide pe tbl (map (stmt_of gi) as) ?st = Inr \<lparr>mo_rc = 0,
       mo_verified = (if freshness pe at body ah nonce then 31 else 29), mo_allowed = Some (stmt_of gi a)\<rparr>" by simp
  with rand net(1) req get load pairs op show ?thesis
    by (simp add: proto_session_def message_item_def)
qed

lemma unsigned_main:
  assumes opt: "getoption argv = Inr (Some (op, i))" "\<not> op_rflag op" "\<not> op_eflag op"
      "op_pol_path op = Some ppath" "op_daemon_path op = Some dpath"
    and conf: "proto_config pe op w = Inr (tbl0, w1)" "htable_ok tbl0" "conf_table (pe_mm pe) tbl0 cnf"
    and pol: "ocall_pica_fsize (pe_os pe) ppath w1 = ((fd, sz), w2)" "0 \<le> fd" "os_malloc (pe_os pe) sz w2 = (True, w3)"
      "ocall_pica_fread (pe_os pe) fd sz w3 = ((rsz, bs), w4)" "pe_tok pe"
      "pe_jp pe (buf_store (unat sz) bs) rsz = Some (policy_json as)" "\<forall>a \<in> set as. astmt_ok a"
    and rand: "pe_rand pe w4 = ((0, nonce), w0)" "length nonce = 32"
    and net: "pe_so pe = net_ops" "length dpath \<le> 108" "108 \<le> length (dpath @ NUL # pe_slack pe)" "MEASURE_SZ \<le> pe_fuel pe"
    and tpm: "unsigned_tpm pe q sg at" "length ah = 32"
    and wire: "chain_faithful (pe_cl pe) ps" "message_faithful (pe_cl pe) (ex_bundle q sg ah) body"
      "body = cl_ser (pe_cl pe) (chain_item (pe_cl pe) ps)"
    and msg: "msg = cl_ser (pe_cl pe) (message_item (pe_cl pe) (ex_bundle q sg ah) body)"
      "0 < length msg" "length msg \<le> MEASURE_SZ"
    and reply: "net_unread w0 = enc_head h @ msg" "unat (th_len h) = length msg"
    and chain: "chain_allowed (pe_gi pe) cnf as a ps"
  shows "\<exists>w'. proto_main pe argv w = Inr (\<lparr>mo_rc = 0,
     mo_verified = (if freshness pe at body ah nonce then 31 else 29), mo_allowed = Some (stmt_of (pe_gi pe) a)\<rparr>, w')"
proof -
  from reg_policy_stable [OF conf(2,3), of "pe_gi pe" as] obtain tbl where tbl:
    "reg_policy (pe_mm pe) (policy_of (pe_gi pe) as) tbl0 = Inr tbl" "conf_table (pe_mm pe) tbl cnf" by blast
  have "as \<noteq> []" using chain by (auto simp: chain_allowed_def)
  from proto_parse_policy [OF pol(7) this] obtain pv where pv:
    "proto_json_parse (pe_gi pe) (policy_json as) proto_policy_init = Inr pv" "pv_stmt pv = Val (map (stmt_of (pe_gi pe)) as)" by blast
  have "reg_policy (pe_mm pe) (policy_view (map (stmt_of (pe_gi pe)) as)) tbl0 = Inr tbl"
    using tbl(1) by (simp add: reg_policy_def policy_of_def policy_view_def)
  then have "proto_policy_read pe ppath tbl0 w1 = Inr (Some (map (stmt_of (pe_gi pe)) as, tbl), w4)"
    using pol(1-6) pv by (simp add: proto_policy_read_def)
  moreover from unsigned_session [OF rand net tpm wire msg reply tbl(2) chain opt(2), of i] obtain w' where
    "proto_session pe op i dpath tbl (map (stmt_of (pe_gi pe)) as) w4 = Inr (\<lparr>mo_rc = 0,
     mo_verified = (if freshness pe at body ah nonce then 31 else 29), mo_allowed = Some (stmt_of (pe_gi pe) a)\<rparr>, w')" by blast
  ultimately show ?thesis using opt conf(1) by (simp add: proto_main_def)
qed

text \<open>
  C10.  The signature over the quote and the nonce decide nothing: whatever
  \<open>EVP_DigestVerifyFinal\<close> answers, and whether or not nonce and chain are in the quote, a
  reply with a quote over the registered PCR selection and a chain that configuration and
  policy allow is announced as a success and shows the actions; the flags tell a stale
  quote from a fresh one, but the test for success leaves that flag out.
\<close>

theorem proto_accepts_unsigned:
  assumes opt: "getoption argv = Inr (Some (op, i))" "\<not> op_rflag op" "\<not> op_eflag op"
      "op_pol_path op = Some ppath" "op_daemon_path op = Some dpath"
    and conf: "proto_config pe op w = Inr (tbl0, w1)" "htable_ok tbl0" "conf_table (pe_mm pe) tbl0 cnf"
    and pol: "ocall_pica_fsize (pe_os pe) ppath w1 = ((fd, sz), w2)" "0 \<le> fd" "os_malloc (pe_os pe) sz w2 = (True, w3)"
      "ocall_pica_fread (pe_os pe) fd sz w3 = ((rsz, bs), w4)" "pe_tok pe"
      "pe_jp pe (buf_store (unat sz) bs) rsz = Some (policy_json as)" "\<forall>a \<in> set as. astmt_ok a"
    and rand: "pe_rand pe w4 = ((0, nonce), w0)" "length nonce = 32"
    and net: "pe_so pe = net_ops" "length dpath \<le> 108" "108 \<le> length (dpath @ NUL # pe_slack pe)" "MEASURE_SZ \<le> pe_fuel pe"
    and tpm: "unsigned_tpm pe q sg at" "length ah = 32"
    and wire: "chain_faithful (pe_cl pe) ps" "message_faithful (pe_cl pe) (ex_bundle q sg ah) body"
      "body = cl_ser (pe_cl pe) (chain_item (pe_cl pe) ps)"
    and msg: "msg = cl_ser (pe_cl pe) (message_item (pe_cl pe) (ex_bundle q sg ah) body)"
      "0 < length msg" "length msg \<le> MEASURE_SZ"
    and reply: "net_unread w0 = enc_head h @ msg" "unat (th_len h) = length msg"
    and chain: "chain_allowed (pe_gi pe) cnf as a ps"
  shows "\<exists>w'. proto_main pe argv w = Inr (\<lparr>mo_rc = 0,
     mo_verified = (if freshness pe at body ah nonce then 31 else 29), mo_allowed = Some (stmt_of (pe_gi pe) a)\<rparr>, w')"
  by (rule unsigned_main) fact+

section \<open>A forged reply\<close>

text \<open>The signature of the reply, \<open>[6]\<close>, is not the one that verifies, and its quote is over zeros.\<close>

definition ex_proto_os :: "'w os" where
  "ex_proto_os = \<lparr>os_open = (\<lambda>path _ _ w. (if path = PICA_CONF_PATH then 3 else 4, w)),
     os_read = (\<lambda>fd _ w. (if fd = 3 then (int (length (image_of ex_addrs ex_conf)), image_of ex_addrs ex_conf) else (1, [0]), w)),
     os_write = (\<lambda>_ bs w. (int (length bs), w)),
     os_lseek = (\<lambda>fd _ _ w. (if fd = 3 then int (length (image_of ex_addrs ex_conf)) else 1, w)),
     os_close = (\<lambda>_ w. (0, w)), os_chmod = (\<lambda>_ _ w. (0, w)), os_malloc = (\<lambda>_ w. (True, w))\<rparr>"

definition ex_proto :: "(unit net, unit) penv" where
  "ex_proto = \<lparr>pe_so = net_ops, pe_fuel = 200000, pe_slack = replicate 108 NUL, pe_aux = 0,
     pe_rand = (\<lambda>w. ((0, replicate 32 1), w)), pe_mm = (\<lambda>_. 1), pe_gi = ex_get_int,
     pe_jp = (\<lambda>_ _. Some (policy_json [ex_client_stmt])), pe_tok = True, pe_os = ex_proto_os,
     pe_io = \<lparr>si_fopen = (\<lambda>_ _ w. (Some 5, w)), si_fseek = (\<lambda>_ _ _ w. (0, w)), si_ftell = (\<lambda>_ w. (3, w)),
       si_fread = (\<lambda>_ _ w. ([0, 0, 0], w)),
       si_fwrite = (\<lambda>_ bs w. (length bs, w)), si_fclose = (\<lambda>_ w. (0, w))\<rparr>,
     pe_cl = ex_client_cl, pe_ts = ex_tss, pe_cr = ex_crypto [7], pe_junk = [], pe_ad = ex_addrs\<rparr>"

lemma ex_proto_simps [simp]:
  "pe_so ex_proto = net_ops" "pe_fuel ex_proto = 200000" "pe_slack ex_proto = replicate 108 NUL"
  "pe_rand ex_proto w = ((0, replicate 32 1), w)" "pe_mm ex_proto = (\<lambda>_. 1)" "pe_gi ex_proto = ex_get_int"
  "pe_jp ex_proto = (\<lambda>_ _. Some (policy_json [ex_client_stmt]))" "pe_tok ex_proto"
  "pe_cl ex_proto = ex_client_cl" "pe_ts ex_proto = ex_tss" "pe_cr ex_proto = ex_crypto [7]" "pe_os ex_proto = ex_proto_os"
  by (simp_all add: ex_proto_def)

lemma ex_proto_files:
  "ocall_pica_fsize ex_proto_os path w = (if path = PICA_CONF_PATH then (3, of_nat (length (image_of ex_addrs ex_conf))) else (4, 1), w)"
  "ocall_pica_fread ex_proto_os 4 n w = ((1, [0]), w)"
  "ocall_pica_fread ex_proto_os 3 n w = ((of_nat (length (image_of ex_addrs ex_conf)), image_of ex_addrs ex_conf), w)"
  "os_malloc ex_proto_os n w = (True, w)"
  by (simp_all add: ocall_pica_fsize_def ocall_pica_fread_def ex_proto_os_def Let_def)

lemma ex_proto_tpm: "unsigned_tpm ex_proto [5] [6] ex_attest"
proof -
  have "host_readfile (pe_io ex_proto) path PEM_SIZE w = ((3, [0, 0, 0]), w)" for path w
    by (simp add: host_readfile_def stream_contents_def ex_proto_def PEM_SIZE_def Let_def)
  moreover have "''reg_quote.bin'' \<noteq> PICA_CONF_PATH" by (simp add: PICA_CONF_PATH_def)
  moreover have "comp_pcr_selection (at_pcrs ex_attest) (at_pcrs ex_attest) = Inr 0"
    by (subst comp_pcr_selection_eq) (simp_all add: ex_attest_def pcr_wf_def)
  ultimately show ?thesis
    by (simp add: unsigned_tpm_def ex_proto_files ex_tss_def sig_parts_def known_hash_def ex_crypto_def padding_ok_def ex_sha_def Let_def)
      (simp add: ex_attest_def)
qed

lemma ex_proto_conf:
  "\<exists>tbl. proto_config ex_proto (opts_zero\<lparr>op_pol_path := Some PICA_POLICY_PATH, op_conf_path := Some PICA_CONF_PATH,
       op_daemon_path := Some PICA_DAEMON_PATH\<rparr>) w = Inr (tbl, w) \<and> htable_ok tbl \<and>
     conf_table (\<lambda>_. 1) tbl (\<lambda>path. find (\<lambda>p. pi_path p = Some path) ex_conf)"
proof -
  have paths: "\<forall>p \<in> set ex_conf. pi_path p \<noteq> None" using ex_conf_wf(1) by (auto elim: wf_procinfo_path)
  have n: "length ex_conf = 2" by (simp add: ex_conf_def)
  let ?t = "pica_tbl.insert_all (\<lambda>_. 1) (conf_entries ex_conf) htable_zero"
  have "pica_build_hashtable (\<lambda>_. 1) ex_conf = Inr ?t"
    unfolding pica_build_hashtable_def by (rule reg_fold_insert_all [OF htable_ok_zero paths])
  then have "conf_table (\<lambda>_. 1) ?t (\<lambda>path. find (\<lambda>p. pi_path p = Some path) ex_conf)"
    by (rule conf_table_built [OF ex_conf_wf(1)])
  moreover have "htable_ok ?t" by (rule pica_tbl.inv_insert_all [OF htable_ok_zero])
  moreover have "length (image_of ex_addrs ex_conf) < 2 ^ 64"
    using ex_conf_wf by (simp add: length_image_of conf_bounds_def)
  then have "buf_store (unat (of_nat (length (image_of ex_addrs ex_conf)) :: u64)) (image_of ex_addrs ex_conf) =
      map Val (image_of ex_addrs ex_conf)" by simp
  ultimately show ?thesis
    using proto_build_conf_agrees [OF build_conf_image [OF ex_conf_wf, of ex_addrs]]
      reg_entries_insert_all [OF htable_ok_zero paths, of 0 "\<lambda>_. 1"] n
    by (simp add: proto_config_def opts_zero_def ex_proto_files)
qed

lemma ex_proto_stale: "\<not> freshness ex_proto ex_attest [0] (replicate 32 7) nonce"
proof
  assume "freshness ex_proto ex_attest [0] (replicate 32 7) nonce"
  then have "replicate 32 7 = ex_sha [0]" by (simp add: freshness_def Let_def)
  then have "replicate 32 7 ! 0 = ex_sha [0] ! 0" by simp
  then show False by (simp add: ex_sha_def)
qed

lemma ex_proto_body:
  "cl_ser ex_client_cl (chain_item ex_client_cl ex_conf) = [0]"
  by (simp add: chain_item_def ex_client_cl_def ex_bundle_item_def ex_message_item_def bundle_item_def ex_wire_def)

lemma ex_proto_run:
  "\<exists>w'. proto_main ex_proto [''client''] ex_client_world =
     Inr (\<lparr>mo_rc = 0, mo_verified = 29, mo_allowed = Some (stmt_of ex_get_int ex_client_stmt)\<rparr>, w')"
proof -
  from ex_proto_conf obtain tbl where tbl: "proto_config ex_proto (opts_zero\<lparr>op_pol_path := Some PICA_POLICY_PATH,
       op_conf_path := Some PICA_CONF_PATH, op_daemon_path := Some PICA_DAEMON_PATH\<rparr>) ex_client_world = Inr (tbl, ex_client_world)"
    "htable_ok tbl" "conf_table (\<lambda>_. 1) tbl (\<lambda>path. find (\<lambda>p. pi_path p = Some path) ex_conf)" by blast
  have pol: "ocall_pica_fsize ex_proto_os PICA_POLICY_PATH w = ((4, 1), w)" for w :: "unit net"
    by (simp add: ex_proto_files PICA_POLICY_PATH_def PICA_CONF_PATH_def)
  have "\<exists>w'. proto_main ex_proto [''client''] ex_client_world = Inr (\<lparr>mo_rc = 0,
     mo_verified = (if freshness ex_proto ex_attest [0] (replicate 32 7) (replicate 32 1) then 31 else 29),
     mo_allowed = Some (stmt_of (pe_gi ex_proto) ex_client_stmt)\<rparr>, w')"
    by (rule unsigned_main [OF ex_client_options, where dpath = PICA_DAEMON_PATH and ppath = PICA_POLICY_PATH and ?tbl0.0 = tbl
          and ?w1.0 = ex_client_world and cnf = "\<lambda>path. find (\<lambda>p. pi_path p = Some path) ex_conf" and fd = 4 and sz = 1 and bs = "[0]"
          and rsz = 1 and ?w2.0 = ex_client_world and ?w3.0 = ex_client_world and ?w4.0 = ex_client_world and ?w0.0 = ex_client_world
          and nonce = "replicate 32 1" and ah = "replicate 32 7" and h = "\<lparr>th_cmd = TPMD_RPL_PICA, th_aux = TPMD_AUX_OK, th_len = 1\<rparr>"
          and msg = "[3]" and q = "[5]" and sg = "[6]" and at = ex_attest and body = "[0]" and ps = ex_conf and as = "[ex_client_stmt]"])
      (insert tbl ex_client_chain pol, simp_all add: ex_client_wire [unfolded ex_proto_body] ex_proto_tpm ex_client_net ex_proto_files
        opts_zero_def ex_client_path MEASURE_SZ_def ex_client_ok ex_proto_body)
  then show ?thesis by (simp add: ex_proto_stale)
qed

theorem proto_accepts_unsigned_witness:
  "\<exists>w'. proto_main ex_proto [''client''] ex_client_world =
     Inr (\<lparr>mo_rc = 0, mo_verified = 29, mo_allowed = Some (stmt_of ex_get_int ex_client_stmt)\<rparr>, w')"
proof -
  from ex_proto_conf obtain tbl where tbl: "proto_config ex_proto (opts_zero\<lparr>op_pol_path := Some PICA_POLICY_PATH,
       op_conf_path := Some PICA_CONF_PATH, op_daemon_path := Some PICA_DAEMON_PATH\<rparr>) ex_client_world = Inr (tbl, ex_client_world)"
    "htable_ok tbl" "conf_table (\<lambda>_. 1) tbl (\<lambda>path. find (\<lambda>p. pi_path p = Some path) ex_conf)" by blast
  have pol: "ocall_pica_fsize ex_proto_os PICA_POLICY_PATH w = ((4, 1), w)" for w :: "unit net"
    by (simp add: ex_proto_files PICA_POLICY_PATH_def PICA_CONF_PATH_def)
  have "\<exists>w'. proto_main ex_proto [''client''] ex_client_world = Inr (\<lparr>mo_rc = 0,
     mo_verified = (if freshness ex_proto ex_attest [0] (replicate 32 7) (replicate 32 1) then 31 else 29),
     mo_allowed = Some (stmt_of (pe_gi ex_proto) ex_client_stmt)\<rparr>, w')"
    by (rule proto_accepts_unsigned [OF ex_client_options, where dpath = PICA_DAEMON_PATH and ppath = PICA_POLICY_PATH and ?tbl0.0 = tbl
          and ?w1.0 = ex_client_world and cnf = "\<lambda>path. find (\<lambda>p. pi_path p = Some path) ex_conf" and fd = 4 and sz = 1 and bs = "[0]"
          and rsz = 1 and ?w2.0 = ex_client_world and ?w3.0 = ex_client_world and ?w4.0 = ex_client_world and ?w0.0 = ex_client_world
          and nonce = "replicate 32 1" and ah = "replicate 32 7" and h = "\<lparr>th_cmd = TPMD_RPL_PICA, th_aux = TPMD_AUX_OK, th_len = 1\<rparr>"
          and msg = "[3]" and q = "[5]" and sg = "[6]" and at = ex_attest and body = "[0]" and ps = ex_conf and as = "[ex_client_stmt]"])
      (insert tbl ex_client_chain pol, simp_all add: ex_client_wire [unfolded ex_proto_body] ex_proto_tpm ex_client_net ex_proto_files
        opts_zero_def ex_client_path MEASURE_SZ_def ex_client_ok ex_proto_body)
  then show ?thesis by (simp add: ex_proto_stale)
qed


end
