(* ===== verification/Tpm_Tools.thy ===== *)
theory Tpm_Tools
  imports Host_Tpm2 Daemon_Protocol Conftool
begin

text \<open>
  The command-line programs around the daemon (\<open>tpm2/\<close>): \<open>get_quote\<close>, which registers the
  quote of a platform, \<open>sealtest\<close>, which seals and unseals a file, and \<open>test_tpmd\<close>, which
  asks the daemon for a quote and shows it.

  \<open>getopt\<close> has cut the arguments into options; what it does not know it reports as
  another character, which the programs skip.  The enclave of \<open>sealtest\<close>
  (\<open>tpm2/Enclave/enclave.c\<close>) has the text of \<open>pica_tools/sgxtoollib.c\<close>, so that its models
  \<open>tool_seal\<close> and \<open>tool_unseal\<close> are used.
\<close>

unbundle bit_operations_syntax

section \<open>Registering a quote\<close>

definition quote_path :: string where "quote_path = ''./reg_quote.bin''"

text \<open>
  \<open>main\<close> of \<open>get_quote.c\<close>.  A file that is there is not cut, and neither a file that
  cannot be created nor a short write changes the result.
\<close>

definition get_quote :: "'w esys \<Rightarrow> 'w os \<Rightarrow> 'w \<Rightarrow> (int \<times> 'w) cres" where
  "get_quote es os w =
     cbind (make_tpm2_quote es (replicate 32 0) 32 TPM2_ALG_SHA256 [0, 1, 2, 7, 10] 0x81018001 (Some tpm2_quote_unset) w)
       (\<lambda>((rc, t_quote), w).
     if rc < 0 then Inr (rc, w)
     else
       let (fd, w) = os_open os quote_path (O_CREAT OR O_RDWR) 438 w in
       if fd < 0 then Inr (rc, w)
       else
         cbind (deref t_quote) (\<lambda>tq.
         cbind (rd (tq_quote tq)) (\<lambda>quote.
         let (_, w) = os_write os fd quote w; (_, w) = os_close os fd w in Inr (rc, w))))"

section \<open>Sealing a file\<close>

record sealopts =
  se_sflag :: bool
  se_uflag :: bool
  se_ipath :: "string option"
  se_opath :: "string option"

definition sealopts_zero :: sealopts where
  "sealopts_zero = \<lparr>se_sflag = False, se_uflag = False, se_ipath = None, se_opath = None\<rparr>"

definition seal_option :: "sealopts \<Rightarrow> char \<times> string \<Rightarrow> sealopts" where
  "seal_option op = (\<lambda>(opt, arg).
     if opt = CHR ''s'' then op\<lparr>se_sflag := True\<rparr>
     else if opt = CHR ''u'' then op\<lparr>se_uflag := True\<rparr>
     else if opt = CHR ''i'' then op\<lparr>se_ipath := Some arg\<rparr>
     else if opt = CHR ''o'' then op\<lparr>se_opath := Some arg\<rparr>
     else op)"

text \<open>
  The streams, whether an allocation succeeds, whether the enclave can be created,
  called, and has memory, and the sealing of the SDK.
\<close>

record 'w sealenv =
  sx_io :: "'w stdio"
  sx_stdout :: int
  sx_malloc :: "u64 \<Rightarrow> bool"
  sx_created :: bool
  sx_ecall :: bool
  sx_mem :: bool
  sx_sl :: sealer

text \<open>
  Stream and contents of the input (\<open>None\<close>: the program leaves).  \<open>rewind\<close> is the
  \<open>fseek\<close> to the start.
\<close>

definition sealtest_input :: "'w sealenv \<Rightarrow> string \<Rightarrow> 'w \<Rightarrow> (int \<times> bytes) option \<times> 'w" where
  "sealtest_input sx path w =
     (let io = sx_io sx; (fp, w) = si_fopen io path ''r'' w in
      case fp of None \<Rightarrow> (None, w)
      | Some ifp \<Rightarrow>
          let (_, w) = si_fseek io ifp 0 SEEK_END w;
              (off, w) = si_ftell io ifp w; len = word_of_int off :: u64;
              (_, w) = si_fseek io ifp 0 SEEK_SET w
          in if \<not> sx_malloc sx len then (None, w)
             else let (dat, w) = si_fread io ifp len w in
               (if of_nat (length dat) \<noteq> len then None else Some (ifp, dat), w))"

definition sealtest_output :: "'w sealenv \<Rightarrow> sealopts \<Rightarrow> 'w \<Rightarrow> int option \<times> 'w" where
  "sealtest_output sx op w =
     (case se_opath op of
        Some path \<Rightarrow> si_fopen (sx_io sx) path ''w'' w
      | None \<Rightarrow> if se_sflag op then si_fopen (sx_io sx) ''encdata.txt'' ''w'' w else (Some (sx_stdout sx), w))"

definition SEALBUF_SZ :: nat where "SEALBUF_SZ = 1024"

text \<open>
  The buffer and the size after the edge call, whose status is only printed.  The length
  passed is cut to 32 bits.
\<close>

definition sealtest_call :: "'w sealenv \<Rightarrow> sealopts \<Rightarrow> bytes \<Rightarrow> (bbuf \<times> u32) cres" where
  "sealtest_call sx op dat =
     (let len = of_nat (length dat) :: u32; datp = take (unat len) dat in
      if se_uflag op then
        if \<not> sx_ecall sx then Inr (replicate SEALBUF_SZ (Val 0), -1)
        else cbind (tool_unseal (sx_sl sx) (sx_mem sx) datp (of_nat SEALBUF_SZ)) (\<lambda>(st, outd, psz).
             Inr (map Val outd, psz))
      else
        if \<not> sx_ecall sx then Inr (replicate SEALBUF_SZ Garbage, -1)
        else cbind (tool_seal (sx_sl sx) (sx_mem sx) datp (of_nat SEALBUF_SZ)) (\<lambda>(st, outd, encsz).
             Inr (map Val outd, encsz)))"

text \<open>The exit code.\<close>

definition sealtest_main :: "'w sealenv \<Rightarrow> (char \<times> string) list \<Rightarrow> 'w \<Rightarrow> (int \<times> 'w) cres" where
  "sealtest_main sx options w =
     (let op = foldl seal_option sealopts_zero options in
      if se_sflag op = se_uflag op then Inr (-1, w)
      else
        let ipath = (case se_ipath op of Some p \<Rightarrow> p
                     | None \<Rightarrow> if se_sflag op then ''plaindata.txt'' else ''encdata.txt'');
            (inp, w) = sealtest_input sx ipath w
        in case inp of None \<Rightarrow> Inr (-1, w)
           | Some (ifp, dat) \<Rightarrow>
               let (out, w) = sealtest_output sx op w in
               case out of None \<Rightarrow> Inr (-1, w)
               | Some ofp \<Rightarrow>
                   if \<not> sx_created sx then Inr (1, w)
                   else
                     cbind (sealtest_call sx op dat) (\<lambda>(outd, sz).
                     cbind (buf_get outd 0 (unat sz)) (\<lambda>bs.
                     let (_, w) = si_fwrite (sx_io sx) ofp bs w;
                         (_, w) = si_fclose (sx_io sx) ifp w;
                         (_, w) = si_fclose (sx_io sx) ofp w
                     in Inr (0, w))))"

section \<open>Asking the daemon\<close>

definition set_nonce :: bytes where
  "set_nonce = map word_of_nat [0..<32]"

text \<open>
  What \<open>show_tpm2quote_info\<close> prints: for each selection its hash algorithm, its size and the
  registers selected, and the digest.
\<close>

record shown_quote =
  sq_sels :: "(u16 \<times> byte \<times> nat list) list"
  sq_digest :: bytes

definition selected_pcrs :: "pcr_selection \<Rightarrow> nat list cres" where
  "selected_pcrs s =
     cbind (cmapM (\<lambda>pcr. cbind (cnth (ps_select s) (pcr div 8)) (\<lambda>b. Inr (pcr, bit b (pcr mod 8))))
              [0..<unat (ps_sizeof s) * 8])
       (\<lambda>xs. Inr (map fst (filter snd xs)))"

definition show_tpm2quote_info :: "attest \<Rightarrow> shown_quote cres" where
  "show_tpm2quote_info at =
     cbind (cmapM (\<lambda>i. cbind (cnth (pl_sel (at_pcrs at)) i) (\<lambda>s.
                        cbind (selected_pcrs s) (\<lambda>ns. Inr (ps_hash s, ps_sizeof s, ns))))
              [0..<unat (pl_count (at_pcrs at))])
       (\<lambda>sels. Inr \<lparr>sq_sels = sels, sq_digest = at_pcr_digest at\<rparr>)"

text \<open>\<open>dump\<close> of 32 bytes behind a possibly NULL pointer.\<close>

definition dump32 :: "bytes option \<Rightarrow> bytes cres" where
  "dump32 p = cbind (deref p) (\<lambda>bs. if length bs < 32 then Inl OutOfBounds else Inr (take 32 bs))"

record reply_parts =
  rp_nonce :: "bytes option"
  rp_quote :: "bytes option"

record bundle_parts =
  bp_quote :: "bytes option"
  bp_sign :: "bytes option"
  bp_hash :: "bytes option"

text \<open>The two loops of \<open>show_attest\<close>.  Handle and length of a key are taken before its type is looked at.\<close>

fun reply_parts_loop :: "(cbor \<times> cbor) list \<Rightarrow> reply_parts \<Rightarrow> reply_parts cres" where
  "reply_parts_loop [] st = Inr st"
| "reply_parts_loop ((key, val) # kvs) st =
     cbind (cbor_string (Some key)) (\<lambda>k.
     if key_matches ''nonce'' k then
       cbind (cbor_bytestring (Some val)) (\<lambda>v. reply_parts_loop kvs (st\<lparr>rp_nonce := Some v\<rparr>))
     else if key_matches ''tpm2_quote'' k then
       cbind (cbor_bytestring (Some val)) (\<lambda>v. reply_parts_loop kvs (st\<lparr>rp_quote := Some v\<rparr>))
     else reply_parts_loop kvs st)"

fun bundle_parts_loop :: "(cbor \<times> cbor) list \<Rightarrow> bundle_parts \<Rightarrow> bundle_parts cres" where
  "bundle_parts_loop [] st = Inr st"
| "bundle_parts_loop ((key, val) # kvs) st =
     cbind (cbor_string (Some key)) (\<lambda>k.
     if key_matches ''quote'' k then
       cbind (cbor_bytestring (Some val)) (\<lambda>v. bundle_parts_loop kvs (st\<lparr>bp_quote := Some v\<rparr>))
     else if key_matches ''sign'' k then
       cbind (cbor_bytestring (Some val)) (\<lambda>v. bundle_parts_loop kvs (st\<lparr>bp_sign := Some v\<rparr>))
     else if key_matches ''app-hash'' k then
       cbind (cbor_bytestring (Some val)) (\<lambda>v. bundle_parts_loop kvs (st\<lparr>bp_hash := Some v\<rparr>))
     else bundle_parts_loop kvs st)"

text \<open>What an unmarshalling stores; a NULL buffer and an error leave the structure unset.\<close>

definition unmarshalled :: "(bytes \<Rightarrow> u32 \<times> 'a) \<Rightarrow> bytes option \<Rightarrow> 'a cres" where
  "unmarshalled un p =
     (case p of None \<Rightarrow> Inl Uninit | Some bs \<Rightarrow> let (rc, x) = un bs in if rc = 0 then Inr x else Inl Uninit)"

fun sig_alg :: "signature \<Rightarrow> u16" where
  "sig_alg (SigRsaSsa _ _) = TPM2_ALG_RSASSA"
| "sig_alg (SigRsaPss _ _) = TPM2_ALG_RSAPSS"
| "sig_alg (SigEcdsa _ _ _) = TPM2_ALG_ECDSA"
| "sig_alg (SigOther a) = a"

record shown_reply =
  sr_quote :: shown_quote
  sr_hash :: bytes
  sr_alg :: u16
  sr_nonce :: bytes

text \<open>
  \<open>show_attest\<close>: \<open>None\<close> when the packet is not a map.  A quote that is not a map is reported
  and used all the same.
\<close>

definition show_attest :: "cbor_lib \<Rightarrow> tss \<Rightarrow> bytes \<Rightarrow> shown_reply option cres" where
  "show_attest cl ts pkt =
     (case cl_load cl pkt of
        Some (CMap _ kvs) \<Rightarrow>
          cbind (reply_parts_loop kvs \<lparr>rp_nonce = None, rp_quote = None\<rparr>) (\<lambda>rp.
          cbind (cbor_map_pairs (case rp_quote rp of None \<Rightarrow> None | Some q \<Rightarrow> cl_load cl q)) (\<lambda>kvs.
          cbind (bundle_parts_loop kvs \<lparr>bp_quote = None, bp_sign = None, bp_hash = None\<rparr>) (\<lambda>bp.
          cbind (unmarshalled (un_attest ts) (bp_quote bp)) (\<lambda>at.
          cbind (show_tpm2quote_info at) (\<lambda>quote.
          cbind (dump32 (bp_hash bp)) (\<lambda>hash.
          cbind (unmarshalled (un_signature ts) (bp_sign bp)) (\<lambda>sign.
          cbind (dump32 (rp_nonce rp)) (\<lambda>nonce.
          Inr (Some \<lparr>sr_quote = quote, sr_hash = hash, sr_alg = sig_alg sign, sr_nonce = nonce\<rparr>)))))))))
      | _ \<Rightarrow> Inr None)"

definition TESTBUF_SZ :: nat where "TESTBUF_SZ = 1024"

text \<open>
  \<open>main\<close> of \<open>test_tpmd.c\<close>: the exit code and what is shown.  \<open>aux0\<close> and \<open>aux\<close> are what the
  unset fields of the two requests hold, \<open>line\<close> says whether a line can be read at the
  end.  No result of a send or receive is more than reported.
\<close>

definition test_tpmd ::
    "nat \<Rightarrow> 'w sockops \<Rightarrow> cbor_lib \<Rightarrow> tss \<Rightarrow> string \<Rightarrow> u16 \<Rightarrow> u16 \<Rightarrow> bool \<Rightarrow> string list \<Rightarrow> 'w \<Rightarrow>
     ((int \<times> shown_reply option) \<times> 'w) cres" where
  "test_tpmd fuel so cl ts slack aux0 aux line argv w =
     (case argv of
        _ # path # _ \<Rightarrow>
          cbind (sock_connect_daemon so slack path w) (\<lambda>(con, w).
          if con < 0 then Inr ((-1, None), w)
          else
            cbind (sock_send fuel so con (enc_head \<lparr>th_cmd = TPMD_REQ_HELLO, th_aux = aux0, th_len = 0\<rparr>) w) (\<lambda>(_, w).
            cbind (sock_send fuel so con
                     (enc_head \<lparr>th_cmd = TPMD_REQ_ATTEST, th_aux = aux, th_len = 32\<rparr> @ set_nonce) w) (\<lambda>(_, w).
            cbind (sock_recv fuel so con (replicate HEAD_SZ Garbage) w) (\<lambda>((_, hb), w).
            cbind (buf_get hb 0 HEAD_SZ) (\<lambda>bs.
            let len = unat (th_len (dec_head bs)) in
            if TESTBUF_SZ < len then Inl OutOfBounds
            else
              cbind (sock_recv fuel so con (replicate len Garbage) w) (\<lambda>((_, data), w).
              cbind (buf_get data 0 len) (\<lambda>pkt.
              cbind (show_attest cl ts pkt) (\<lambda>shown.
              if \<not> line then Inl Abort else Inr ((0, shown), w)))))))))
      | _ \<Rightarrow> Inr ((-1, None), w))"

section \<open>What the programs achieve\<close>

text \<open>
  Streams over a set of named files: what \<open>fopen\<close>, \<open>fread\<close> and \<open>fwrite\<close> promise where no
  error occurs.  \<open>files\<close> counts what has been written, flushed or not.
\<close>

definition stream_reads :: "'w stdio \<Rightarrow> string \<Rightarrow> bytes \<Rightarrow> int \<Rightarrow> 'w \<Rightarrow> 'w \<Rightarrow> bool" where
  "stream_reads io path bs fp w w' \<longleftrightarrow>
     (\<exists>r1 w1 w2 w3 r2 w4. si_fopen io path ''r'' w = (Some fp, w1) \<and> si_fseek io fp 0 SEEK_END w1 = (r1, w2) \<and>
        si_ftell io fp w2 = (int (length bs), w3) \<and> si_fseek io fp 0 SEEK_SET w3 = (r2, w4) \<and>
        si_fread io fp (of_nat (length bs)) w4 = (bs, w'))"

definition stream_files :: "'w stdio \<Rightarrow> ('w \<Rightarrow> string \<Rightarrow> bytes option) \<Rightarrow> bool" where
  "stream_files io files \<longleftrightarrow>
     (\<forall>w path bs. files w path = Some bs \<longrightarrow> length bs < 2 ^ 63 \<longrightarrow>
        (\<exists>fp w'. stream_reads io path bs fp w w' \<and> files w' = files w)) \<and>
     (\<forall>w path. \<exists>fp w1. si_fopen io path ''w'' w = (Some fp, w1) \<and>
        (\<forall>bs. \<exists>n w2. si_fwrite io fp bs w1 = (n, w2) \<and> files w2 = (files w)(path \<mapsto> bs))) \<and>
     (\<forall>fp w. files (snd (si_fclose io fp w)) = files w)"

lemma sealtest_input_reads:
  assumes "stream_reads (sx_io sx) path bs fp w w'" "length bs < 2 ^ 64" "sx_malloc sx (of_nat (length bs))"
  shows "sealtest_input sx path w = (Some (fp, bs), w')"
  using assms by (auto simp: stream_reads_def sealtest_input_def)

text \<open>The bytes written, or the fault of the call.\<close>

definition sealtest_bytes :: "'w sealenv \<Rightarrow> sealopts \<Rightarrow> bytes \<Rightarrow> bytes cres" where
  "sealtest_bytes sx op dat = cbind (sealtest_call sx op dat) (\<lambda>(outd, sz). buf_get outd 0 (unat sz))"

definition sealtest_able :: "'w sealenv \<Rightarrow> ('w \<Rightarrow> string \<Rightarrow> bytes option) \<Rightarrow> bool" where
  "sealtest_able sx files \<longleftrightarrow> stream_files (sx_io sx) files \<and> sx_created sx \<and> sx_malloc sx = (\<lambda>_. True) \<and>
     sx_ecall sx \<and> sx_mem sx"

text \<open>One run from file \<open>a\<close> to file \<open>b\<close>, in terms of what the enclave returns.\<close>

lemma sealtest_run:
  assumes able: "sealtest_able sx files"
    and op: "foldl seal_option sealopts_zero options = op" "se_sflag op \<noteq> se_uflag op"
      "se_ipath op = Some a" "se_opath op = Some b"
    and dat: "files w a = Some dat" "length dat < 2 ^ 63"
  shows "\<exists>ws. sealtest_main sx options w = cbind (sealtest_bytes sx op dat) (\<lambda>bs. Inr (0, ws bs)) \<and>
     (\<forall>bs. files (ws bs) = (files w)(b \<mapsto> bs))"
proof -
  let ?io = "sx_io sx"
  have io: "stream_files ?io files" using able by (simp add: sealtest_able_def)
  from io dat obtain ifp w0 where r: "stream_reads ?io a dat ifp w w0" "files w0 = files w"
    unfolding stream_files_def by blast
  from io obtain ofp w1 where o: "si_fopen ?io b ''w'' w0 = (Some ofp, w1)"
    "\<forall>bs. \<exists>n w2. si_fwrite ?io ofp bs w1 = (n, w2) \<and> files w2 = (files w0)(b \<mapsto> bs)"
    unfolding stream_files_def by blast
  let ?ws = "\<lambda>bs. snd (si_fclose ?io ofp (snd (si_fclose ?io ifp (snd (si_fwrite ?io ofp bs w1)))))"
  have "sealtest_input sx a w = (Some (ifp, dat), w0)"
    using sealtest_input_reads [OF r(1)] dat(2) able by (simp add: sealtest_able_def)
  with able op o(1) have "sealtest_main sx options w = cbind (sealtest_bytes sx op dat) (\<lambda>bs. Inr (0, ?ws bs))"
    by (simp add: sealtest_able_def sealtest_main_def sealtest_output_def sealtest_bytes_def cbind_assoc split_def Let_def)
  moreover have "files (?ws bs) = (files w)(b \<mapsto> bs)" for bs
    using o(2) [rule_format, of bs] r(2) io by (auto simp: stream_files_def)
  ultimately show ?thesis by (intro exI [of _ ?ws] conjI allI)
qed

text \<open>\<open>enc\<close> is what the SDK makes of \<open>dat\<close>.\<close>

definition seals :: "sealer \<Rightarrow> bytes \<Rightarrow> bytes \<Rightarrow> bool" where
  "seals sl dat enc \<longleftrightarrow>
     seal_data sl dat = (0, enc) \<and> calc_sealed_size sl (of_nat (length dat)) = of_nat (length enc) \<and>
     length dat \<le> length enc \<and> length enc < 2 ^ 32 \<and>
     unseal_data sl enc = (0, of_nat (length dat), dat) \<and> encrypt_txt_len sl enc = of_nat (length dat)"

lemma buf_get_padded: "buf_get (map Val bs @ pad) 0 (length bs) = Inr bs"
  by (simp add: buf_get_def)

lemma sealtest_bytes_seals:
  assumes "seals (sx_sl sx) dat enc" "sx_ecall sx" "sx_mem sx"
  shows "\<not> se_uflag op \<Longrightarrow> sealtest_bytes sx op dat = (if length enc \<le> SEALBUF_SZ then Inr enc else Inl OutOfBounds)"
    and "se_uflag op \<Longrightarrow> sealtest_bytes sx op enc = (if length dat \<le> SEALBUF_SZ then Inr dat else Inl OutOfBounds)"
proof -
  note sl = assms(1) [unfolded seals_def]
  have u: "unat (of_nat (length enc) :: u32) = length enc" "unat (of_nat (length dat) :: u32) = length dat"
    "unat (of_nat SEALBUF_SZ :: u32) = SEALBUF_SZ"
    using sl by (simp_all add: unat_of_nat SEALBUF_SZ_def)
  show "sealtest_bytes sx op dat = (if length enc \<le> SEALBUF_SZ then Inr enc else Inl OutOfBounds)" if "\<not> se_uflag op"
    using that sl assms(2,3)
    by (simp add: sealtest_bytes_def sealtest_call_def tool_seal_def Let_def buf_get_Val buf_put_def u buf_get_padded)
  show "sealtest_bytes sx op enc = (if length dat \<le> SEALBUF_SZ then Inr dat else Inl OutOfBounds)" if "se_uflag op"
    using that sl assms(2,3)
    by (simp add: sealtest_bytes_def sealtest_call_def tool_unseal_def Let_def buf_get_Val buf_put_def u buf_get_padded)
qed

lemma seal_options:
  "foldl seal_option sealopts_zero [(CHR ''s'', x), (CHR ''i'', a), (CHR ''o'', b)] =
     \<lparr>se_sflag = True, se_uflag = False, se_ipath = Some a, se_opath = Some b\<rparr>"
  "foldl seal_option sealopts_zero [(CHR ''u'', x), (CHR ''i'', a), (CHR ''o'', b)] =
     \<lparr>se_sflag = False, se_uflag = True, se_ipath = Some a, se_opath = Some b\<rparr>"
  by (simp_all add: seal_option_def sealopts_zero_def)

lemmas seal_run = sealtest_run [OF _ seal_options(1), simplified, OF _ refl refl]
lemmas unseal_run = sealtest_run [OF _ seal_options(2), simplified, OF _ refl refl]

text \<open>
  C31.  Sealing a file with \<open>sealtest -s\<close> and unsealing the result with \<open>sealtest -u\<close> gives
  its contents back, when the sealed data fits the buffer of 1024 bytes; when it does
  not, the enclave writes behind the buffer.
\<close>

theorem sealtest_roundtrip:
  assumes "sealtest_able sx files" "seals (sx_sl sx) dat enc" "files w a = Some dat"
  shows "if length enc \<le> SEALBUF_SZ
     then \<exists>w1 w2. sealtest_main sx [(CHR ''s'', []), (CHR ''i'', a), (CHR ''o'', b)] w = Inr (0, w1) \<and>
       sealtest_main sx [(CHR ''u'', []), (CHR ''i'', b), (CHR ''o'', c)] w1 = Inr (0, w2) \<and>
       files w2 = (files w)(b \<mapsto> enc, c \<mapsto> dat)
     else sealtest_main sx [(CHR ''s'', []), (CHR ''i'', a), (CHR ''o'', b)] w = Inl OutOfBounds"
proof -
  have len: "length dat \<le> length enc" "length enc < 2 ^ 63" "length dat < 2 ^ 63" and able: "sx_ecall sx" "sx_mem sx"
    using assms(1,2) by (simp_all add: seals_def sealtest_able_def)
  note bytes = sealtest_bytes_seals [OF assms(2) able]
  from seal_run [OF assms(1,3), where x = "[]" and b = b] len(3) obtain ws where ws:
    "sealtest_main sx [(CHR ''s'', []), (CHR ''i'', a), (CHR ''o'', b)] w =
       (if length enc \<le> SEALBUF_SZ then Inr (0, ws enc) else Inl OutOfBounds)" "files (ws enc) = (files w)(b \<mapsto> enc)"
    by (cases "length enc \<le> SEALBUF_SZ") (auto simp: bytes(1))
  from unseal_run [OF assms(1), of "ws enc" b enc "[]" c] ws(2) len have
    "length enc \<le> SEALBUF_SZ \<Longrightarrow> \<exists>w2. sealtest_main sx [(CHR ''u'', []), (CHR ''i'', b), (CHR ''o'', c)] (ws enc) = Inr (0, w2) \<and>
       files w2 = (files w)(b \<mapsto> enc, c \<mapsto> dat)"
    by (auto simp: bytes(2))
  with ws(1) show ?thesis by auto
qed

section \<open>Selecting and showing registers\<close>

lemma selected_pcrs_ok:
  assumes "unat (ps_sizeof s) \<le> length (ps_select s)"
  shows "selected_pcrs s =
     Inr (filter (\<lambda>pcr. bit (ps_select s ! (pcr div 8)) (pcr mod 8)) [0..<unat (ps_sizeof s) * 8])"
proof -
  have "cmapM (\<lambda>pcr. cbind (cnth (ps_select s) (pcr div 8)) (\<lambda>b. Inr (pcr, bit b (pcr mod 8)))) [0..<unat (ps_sizeof s) * 8] =
      Inr (map (\<lambda>pcr. (pcr, bit (ps_select s ! (pcr div 8)) (pcr mod 8))) [0..<unat (ps_sizeof s) * 8])"
    using assms by (intro cmapM_Inr_map) (auto simp: cnth_def)
  then show ?thesis by (simp add: selected_pcrs_def filter_map o_def)
qed

lemma bit_register: "bit (x OR 2 ^ m :: byte) n \<longleftrightarrow> bit x n \<or> n = m \<and> m < 8"
  by (auto simp: bit_simps)

lemma pcr_select_loop_bits:
  assumes "\<forall>p \<in> set pcrs. p div 8 < length bm"
  shows "\<exists>bm'. pcr_select_loop pcrs bm = Inr bm' \<and> length bm' = length bm \<and>
     (\<forall>i. i div 8 < length bm \<longrightarrow> (bit (bm' ! (i div 8)) (i mod 8) \<longleftrightarrow> bit (bm ! (i div 8)) (i mod 8) \<or> i \<in> set pcrs))"
  using assms
proof (induction pcrs arbitrary: bm)
  case (Cons p pcrs)
  let ?bm = "bm[p div 8 := bm ! (p div 8) OR push_bit (p mod 8) 1]"
  from Cons.IH [of ?bm] Cons.prems obtain bm' where bm': "pcr_select_loop pcrs ?bm = Inr bm'" "length bm' = length bm"
    "\<forall>i. i div 8 < length bm \<longrightarrow> (bit (bm' ! (i div 8)) (i mod 8) \<longleftrightarrow> bit (?bm ! (i div 8)) (i mod 8) \<or> i \<in> set pcrs)"
    by auto
  have "bit (?bm ! (i div 8)) (i mod 8) \<longleftrightarrow> bit (bm ! (i div 8)) (i mod 8) \<or> i = p" if "i div 8 < length bm" for i
  proof (cases "i div 8 = p div 8")
    case True
    then have "i mod 8 = p mod 8 \<longleftrightarrow> i = p" by (metis div_mult_mod_eq)
    with True that show ?thesis by (auto simp: bit_register)
  qed auto
  with bm' Cons.prems show ?case by (intro exI [of _ bm']) auto
qed simp

text \<open>
  C32.  What \<open>pcr_select\<close> selects, \<open>show_tpm2quote_info\<close> prints: the registers asked for,
  each once and in ascending order, for any list of registers below 24.
\<close>

theorem selected_registers_shown:
  assumes "\<forall>p \<in> set pcrs. p < 24"
  shows "\<exists>sel. pcr_select alg pcrs = Inr sel \<and>
     show_tpm2quote_info (at\<lparr>at_pcrs := sel\<rparr>) =
       Inr \<lparr>sq_sels = [(alg, 3, sorted_list_of_set (set pcrs))], sq_digest = at_pcr_digest at\<rparr>"
proof -
  have "\<forall>p \<in> set pcrs. p div 8 < length [0, 0, 0, 0 :: byte]" using assms by fastforce
  from pcr_select_loop_bits [OF this] obtain bm where bm: "pcr_select_loop pcrs [0, 0, 0, 0] = Inr bm" "length bm = 4"
    "\<forall>i. i div 8 < 4 \<longrightarrow> (bit (bm ! (i div 8)) (i mod 8) \<longleftrightarrow> bit ([0, 0, 0, 0 :: byte] ! (i div 8)) (i mod 8) \<or> i \<in> set pcrs)"
    by auto
  have "[0, 0, 0, 0 :: byte] ! k = 0" if "k < 4" for k using that by (auto simp: less_Suc_eq numeral_eq_Suc)
  with bm(3) have "filter (\<lambda>i. bit (bm ! (i div 8)) (i mod 8)) [0..<24] = filter (\<lambda>i. i \<in> set pcrs) [0..<24]"
    by (intro filter_cong) auto
  also have "\<dots> = sorted_list_of_set (set pcrs)"
    using assms by (intro sorted_distinct_set_unique) (auto intro: sorted_wrt_filter)
  finally show ?thesis
    using bm(1,2) by (simp add: pcr_select_def show_tpm2quote_info_def selected_pcrs_ok upt_rec [of 0 "Suc 0"])
qed

section \<open>Registration and later checks\<close>

text \<open>The quote of \<open>get_quote\<close> is written whole, and is what the host reads later.\<close>

definition quote_saved :: "'w os \<Rightarrow> ('w, 'k) hostv \<Rightarrow> bytes \<Rightarrow> 'w \<Rightarrow> 'w \<Rightarrow> bool" where
  "quote_saved os hv q w w' \<longleftrightarrow>
     (\<exists>fd w1 n w2 rc. os_open os quote_path (O_CREAT OR O_RDWR) 438 w = (fd, w1) \<and> 0 \<le> fd \<and>
        os_write os fd q w1 = (n, w2) \<and> os_close os fd w2 = (rc, w') \<and>
        hv_open hv REG_FILE w' = Some q \<and> hv_fread hv q = length q)"

text \<open>
  A TPM that makes the quote \<open>q\<close>; whether a file can be created for it or not, the exit
  code is 0.
\<close>

lemma get_quote_exit:
  assumes "make_tpm2_quote es (replicate 32 0) 32 TPM2_ALG_SHA256 [0, 1, 2, 7, 10] 0x81018001 (Some tpm2_quote_unset) w =
       Inr ((0, Some tq), w1)" "tq_quote tq = Val q"
  shows "\<exists>w'. get_quote es os w = Inr (0, w')"
  using assms by (auto simp: get_quote_def case_prod_beta Let_def)

text \<open>
  A platform registered with \<open>get_quote\<close> is the one later quotes are compared with:
  a quote whose registers are selected as at the registration passes the host's check,
  whatever its nonce and even when its signature does not verify, and any other passes
  when its signature does.
\<close>

theorem registered_platform:
  assumes "make_tpm2_quote es (replicate 32 0) 32 TPM2_ALG_SHA256 [0, 1, 2, 7, 10] 0x81018001 (Some tpm2_quote_unset) w =
       Inr ((0, Some tq), w1)" "tq_quote tq = Val q"
    and "un_attest (hv_ts hv) q = (0, reg)" "at_type reg = TPM2_ST_ATTEST_QUOTE"
    and "quote_saved os hv q w1 w'"
    and "hv_open hv AK_FILE w' = Some pem" "hv_pem hv pem = Some key"
    and "cl_load (hv_cl hv) ser = Some (CMap d (ex_bundle q' sg h))" "un_attest (hv_ts hv) q' = (0, at)"
      "un_signature (hv_ts hv) sg = (0, sig)" "pcr_wf (at_pcrs reg)" "pcr_wf (at_pcrs at)"
      "verify_tpm2_quote (hv_ev hv) q' sig (Some key) = Inr v"
  shows "get_quote es os w = Inr (0, w') \<and>
     ocall_verify_tpm2_quote hv ser nonce w' = Inr (if pcr_view (at_pcrs reg) = pcr_view (at_pcrs at) then 0 else v)"
proof
  show "get_quote es os w = Inr (0, w')"
    using assms(1,2,5) by (auto simp: get_quote_def quote_saved_def)
  have "host_files hv key reg w'"
    using assms(3-7) by (auto simp: host_files_def quote_saved_def)
  from host_verdict [OF assms(8-10) this assms(11-13)]
  show "ocall_verify_tpm2_quote hv ser nonce w' = Inr (if pcr_view (at_pcrs reg) = pcr_view (at_pcrs at) then 0 else v)" .
qed

section \<open>What the test client shows\<close>

definition quote_shown :: "attest \<Rightarrow> shown_quote" where
  "quote_shown at = \<lparr>sq_sels = map (\<lambda>s. (ps_hash s, ps_sizeof s,
         filter (\<lambda>pcr. bit (ps_select s ! (pcr div 8)) (pcr mod 8)) [0..<unat (ps_sizeof s) * 8]))
       (take (unat (pl_count (at_pcrs at))) (pl_sel (at_pcrs at))), sq_digest = at_pcr_digest at\<rparr>"

lemma show_quote_ok:
  assumes "pcr_wf (at_pcrs at)"
  shows "show_tpm2quote_info at = Inr (quote_shown at)"
proof -
  let ?n = "unat (pl_count (at_pcrs at))"
  let ?g = "\<lambda>s. (ps_hash s, ps_sizeof s, filter (\<lambda>pcr. bit (ps_select s ! (pcr div 8)) (pcr mod 8)) [0..<unat (ps_sizeof s) * 8])"
  have "cmapM (\<lambda>i. cbind (cnth (pl_sel (at_pcrs at)) i) (\<lambda>s.
      cbind (selected_pcrs s) (\<lambda>ns. Inr (ps_hash s, ps_sizeof s, ns)))) [0..<?n] = Inr (map (\<lambda>i. ?g (pl_sel (at_pcrs at) ! i)) [0..<?n])"
    using assms by (intro cmapM_Inr_map) (auto simp: pcr_wf_def cnth_def selected_pcrs_ok)
  moreover have "map (\<lambda>i. ?g (pl_sel (at_pcrs at) ! i)) [0..<?n] = map ?g (take ?n (pl_sel (at_pcrs at)))"
    using assms by (auto simp: pcr_wf_def intro: nth_equalityI)
  ultimately show ?thesis by (simp add: show_tpm2quote_info_def quote_shown_def)
qed

lemma bundle_parts_bundle:
  "bundle_parts_loop (ex_bundle q sg h) \<lparr>bp_quote = None, bp_sign = None, bp_hash = None\<rparr> =
     Inr \<lparr>bp_quote = Some q, bp_sign = Some sg, bp_hash = Some h\<rparr>"
  by (simp add: ex_bundle_def)

text \<open>The reply of the daemon to an attestation request, as \<open>reply_attest\<close> builds it.\<close>

definition attest_reply :: "bytes \<Rightarrow> bytes \<Rightarrow> (cbor \<times> cbor) list" where
  "attest_reply nonce quote = [(text_key ''nonce'', CBytes True nonce), (text_key ''tpm2_quote'', CBytes True quote)]"

lemma reply_keys:
  "key_matches ''nonce'' (to_bytes ''nonce'')" "\<not> key_matches ''nonce'' (to_bytes ''tpm2_quote'')"
  by (simp_all add: key_matches_to_bytes)

lemma show_attest_reply:
  assumes "cl_load cl pkt = Some (CMap d (attest_reply n sq))" "length n = 32"
    and "cl_load cl sq = Some (CMap e (ex_bundle q sg h))" "length h = 32"
    and "un_attest ts q = (0, at)" "pcr_wf (at_pcrs at)" "un_signature ts sg = (0, sig)"
  shows "show_attest cl ts pkt = Inr (Some \<lparr>sr_quote = quote_shown at, sr_hash = h, sr_alg = sig_alg sig, sr_nonce = n\<rparr>)"
proof -
  have "reply_parts_loop (attest_reply n sq) \<lparr>rp_nonce = None, rp_quote = None\<rparr> = Inr \<lparr>rp_nonce = Some n, rp_quote = Some sq\<rparr>"
    by (simp add: attest_reply_def reply_keys)
  with assms show ?thesis
    by (simp add: show_attest_def cbor_map_pairs_def bundle_parts_bundle unmarshalled_def show_quote_ok dump32_def)
qed

lemma th_len_less: "unat (th_len hdr) < 2 ^ LENGTH(32)"
  by (rule unsigned_less)

text \<open>The two requests of the client.\<close>

definition test_requests :: "u16 \<Rightarrow> u16 \<Rightarrow> bytes" where
  "test_requests aux0 aux = enc_head \<lparr>th_cmd = TPMD_REQ_HELLO, th_aux = aux0, th_len = 0\<rparr> @
     enc_head \<lparr>th_cmd = TPMD_REQ_ATTEST, th_aux = aux, th_len = 32\<rparr> @ set_nonce"

text \<open>
  The test client sends its two requests and shows any well-formed reply of up to
  1024 bytes, whatever nonce the reply carries and whether its signature is good or not;
  a longer reply is received behind its buffer.
\<close>

theorem test_tpmd_shows:
  assumes "length path \<le> 108" "108 \<le> length (path @ NUL # slack)" "40 \<le> fuel" "length msg \<le> fuel"
    and "net_unread w = enc_head hdr @ msg @ rest" "unat (th_len hdr) = length msg" "msg \<noteq> []"
    and "cl_load cl msg = Some (CMap d (attest_reply n sq))" "length n = 32"
    and "cl_load cl sq = Some (CMap e (ex_bundle q sg h))" "length h = 32"
    and "un_attest ts q = (0, at)" "pcr_wf (at_pcrs at)" "un_signature ts sg = (0, sig)"
  shows "if length msg \<le> TESTBUF_SZ
     then \<exists>w'. test_tpmd fuel net_ops cl ts slack aux0 aux True [cmd, path] w =
            Inr ((0, Some \<lparr>sr_quote = quote_shown at, sr_hash = h, sr_alg = sig_alg sig, sr_nonce = n\<rparr>), w') \<and>
          net_sent w' = net_sent w @ test_requests aux0 aux \<and> net_unread w' = rest
     else test_tpmd fuel net_ops cl ts slack aux0 aux True [cmd, path] w = Inl OutOfBounds"
proof -
  let ?r1 = "enc_head \<lparr>th_cmd = TPMD_REQ_HELLO, th_aux = aux0, th_len = 0\<rparr>"
  let ?r2 = "enc_head \<lparr>th_cmd = TPMD_REQ_ATTEST, th_aux = aux, th_len = 32\<rparr> @ set_nonce"
  have r: "?r1 \<noteq> []" "length ?r1 = 8" "?r2 \<noteq> []" "length ?r2 = 40"
    by (auto simp: HEAD_SZ_def set_nonce_def simp flip: length_greater_0_conv)
  from nt.send_exact [OF r(1), of fuel 3 w] r(2) assms(3) obtain w1 where w1:
    "sock_send fuel net_ops 3 ?r1 w = Inr (0, w1)" "net_sent w1 = net_sent w @ ?r1" "net_unread w1 = net_unread w" by auto
  from nt.send_exact [OF r(3), of fuel 3 w1] r(4) assms(3) obtain w2 where w2:
    "sock_send fuel net_ops 3 ?r2 w1 = Inr (0, w2)" "net_sent w2 = net_sent w1 @ ?r2" "net_unread w2 = net_unread w1" by auto
  have "length (net_unread w2) \<ge> 8" using w1(3) w2(3) assms(5) by simp
  with nt.recv_exact [of "replicate HEAD_SZ Garbage" w2 fuel 3] assms(3,5) w1(3) w2(3) obtain w3 where w3:
    "sock_recv fuel net_ops 3 (replicate HEAD_SZ Garbage) w2 = Inr ((0, map Val (enc_head hdr)), w3)"
    "net_unread w3 = msg @ rest" "net_sent w3 = net_sent w2"
    by (auto simp: HEAD_SZ_def)
  have "length msg < 2 ^ 32" using th_len_less [of hdr] assms(6) by simp
  with nt.recv_exact [of "replicate (length msg) Garbage" w3 fuel 3] assms(4,7) w3(2) obtain w4 where w4:
    "sock_recv fuel net_ops 3 (replicate (length msg) Garbage) w3 = Inr ((0, map Val msg), w4)"
    "net_unread w4 = rest" "net_sent w4 = net_sent w3"
    by auto
  have b: "buf_get (map Val (enc_head hdr)) 0 HEAD_SZ = Inr (enc_head hdr)" "buf_get (map Val msg) 0 (length msg) = Inr msg"
    by (simp_all add: buf_get_Val HEAD_SZ_def)
  show ?thesis
  proof (cases "length msg \<le> TESTBUF_SZ")
    case True
    with connect_net [OF assms(1,2), of w] w1 w2 w3 w4 b assms(6) show_attest_reply [OF assms(8-14)] show ?thesis
      by (simp add: test_tpmd_def test_requests_def)
  next
    case False
    with connect_net [OF assms(1,2), of w] w1 w2 w3 b assms(6) show ?thesis
      by (simp add: test_tpmd_def)
  qed
qed

section \<open>Concrete runs\<close>

text \<open>Named files and the names of the streams opened.\<close>

type_synonym ex_disk = "(string \<Rightarrow> bytes option) \<times> string list"

definition ex_streams :: "ex_disk stdio" where
  "ex_streams = \<lparr>
     si_fopen = (\<lambda>p m (f, ps). (Some (int (length ps)), (if m = ''w'' then f(p \<mapsto> []) else f, ps @ [p]))),
     si_fseek = (\<lambda>_ _ _ w. (0, w)),
     si_ftell = (\<lambda>fp (f, ps). (int (length (the (f (ps ! nat fp)))), (f, ps))),
     si_fread = (\<lambda>fp n (f, ps). (take (unat n) (the (f (ps ! nat fp))), (f, ps))),
     si_fwrite = (\<lambda>fp bs (f, ps). (length bs, (f(ps ! nat fp \<mapsto> bs), ps))),
     si_fclose = (\<lambda>_ w. (0, w))\<rparr>"

lemma ex_stream_files: "stream_files ex_streams fst"
proof -
  have "unat (of_nat (length bs) :: u64) = length bs" if "length bs < 2 ^ 63" for bs :: bytes
    using that by (simp add: unat_of_nat)
  then show ?thesis
    by (auto simp: stream_files_def stream_reads_def ex_streams_def nth_append)
qed

definition ex_sealer :: sealer where
  "ex_sealer = \<lparr>calc_sealed_size = (\<lambda>n. ucast n + 1), seal_data = (\<lambda>dat. (0, 9 # dat)),
     encrypt_txt_len = (\<lambda>enc. of_nat (length enc - 1)), unseal_data = (\<lambda>enc. (0, of_nat (length enc - 1), tl enc))\<rparr>"

definition ex_sealenv :: "ex_disk sealenv" where
  "ex_sealenv = \<lparr>sx_io = ex_streams, sx_stdout = -1, sx_malloc = (\<lambda>_. True), sx_created = True, sx_ecall = True,
     sx_mem = True, sx_sl = ex_sealer\<rparr>"

theorem sealtest_roundtrip_witness:
  "\<exists>w1 w2. sealtest_main ex_sealenv [(CHR ''s'', []), (CHR ''i'', ''a''), (CHR ''o'', ''b'')] ([''a'' \<mapsto> [1, 2]], []) = Inr (0, w1) \<and>
     sealtest_main ex_sealenv [(CHR ''u'', []), (CHR ''i'', ''b''), (CHR ''o'', ''c'')] w1 = Inr (0, w2) \<and>
     fst w2 = [''a'' \<mapsto> [1, 2], ''b'' \<mapsto> [9, 1, 2], ''c'' \<mapsto> [1, 2]]"
proof -
  have "sealtest_able ex_sealenv fst" "seals (sx_sl ex_sealenv) [1, 2] [9, 1, 2]"
    by (simp_all add: sealtest_able_def ex_sealenv_def ex_stream_files seals_def ex_sealer_def)
  from sealtest_roundtrip [OF this, of "([''a'' \<mapsto> [1, 2]], [])" "''a''" "''b''" "''c''"] show ?thesis
    by (simp add: SEALBUF_SZ_def)
qed

theorem selected_registers_shown_witness:
  "\<exists>sel. pcr_select TPM2_ALG_SHA256 [10, 7, 0, 1, 2, 7] = Inr sel \<and>
     show_tpm2quote_info (Pica_Evidence.ex_attest\<lparr>at_pcrs := sel\<rparr>) =
       Inr \<lparr>sq_sels = [(TPM2_ALG_SHA256, 3, [0, 1, 2, 7, 10])], sq_digest = at_pcr_digest Pica_Evidence.ex_attest\<rparr>"
proof -
  have sorted: "sorted_list_of_set (set [10, 7, 0, 1, 2, 7 :: nat]) = [0, 1, 2, 7, 10]"
    by (simp only: sorted_list_of_set_sort_remdups) simp
  have "\<forall>p \<in> set [10, 7, 0, 1, 2, 7]. p < (24 :: nat)" by simp
  from selected_registers_shown [OF this, unfolded sorted] show ?thesis .
qed

definition ex_quote_os :: "unit os" where
  "ex_quote_os = \<lparr>os_open = (\<lambda>_ _ _ w. (3, w)), os_read = (\<lambda>_ _ w. ((1, [9]), w)), os_write = (\<lambda>_ bs w. (int (length bs), w)),
     os_lseek = (\<lambda>_ _ _ w. (0, w)), os_close = (\<lambda>_ w. (0, w)), os_chmod = (\<lambda>_ _ w. (0, w)), os_malloc = (\<lambda>_ w. (True, w))\<rparr>"

definition ex_registered :: "(unit, unit) hostv" where
  "ex_registered = (ex_hostv [5])\<lparr>hv_open := \<lambda>_ _. Some [9]\<rparr>"

theorem registered_platform_witness:
  "get_quote (ex_es 0) ex_quote_os () = Inr (0, ()) \<and>
   ocall_verify_tpm2_quote ex_registered [1] (replicate 32 3) () = Inr 0"
proof -
  have q: "make_tpm2_quote (ex_es 0) (replicate 32 0) 32 TPM2_ALG_SHA256 [0, 1, 2, 7, 10] 0x81018001 (Some tpm2_quote_unset) () =
       Inr ((0, Some \<lparr>tq_type = Val QUOTE_TPM2, tq_quote = Val [9], tq_sign = Val [8]\<rparr>), ())"
    by (simp add: make_tpm2_quote_def QDATA_SZ_def quote_into_def ex_es_def make_sig_scheme_def scheme_for_def
        pcr_select_def MAX_QUOTESIZE_def tpm2_quote_unset_def TPM2_ALG_RSA_def TPM2_ALG_NULL_def TPMA_OBJECT_SIGN_ENCRYPT_def)
  have hv: "un_attest (hv_ts ex_registered) q = (0, Pica_Evidence.ex_attest)"
    "un_signature (hv_ts ex_registered) [4] = (0, SigRsaSsa TPM2_ALG_SHA256 [4])"
    "hv_open ex_registered AK_FILE () = Some [9]" "hv_pem ex_registered [9] = Some ()"
    "cl_load (hv_cl ex_registered) [1] = Some (CMap True (ex_bundle [1] [4] (replicate 32 7)))"
    "verify_tpm2_quote (hv_ev ex_registered) [1] (SigRsaSsa TPM2_ALG_SHA256 [4]) (Some ()) = Inr (-1)"
    "at_type Pica_Evidence.ex_attest = TPM2_ST_ATTEST_QUOTE" for q
    using ex_host_facts(6) [of "[5]"] by (simp_all add: ex_registered_def ex_hostv_def ex_tss_def Pica_Evidence.ex_attest_def)
  have "quote_saved ex_quote_os ex_registered [9] () ()"
    by (simp add: quote_saved_def ex_quote_os_def ex_registered_def) (simp add: ex_hostv_def)
  from registered_platform [OF q _ hv(1,7) this hv(3,4,5,1,2) ex_host_facts(5) ex_host_facts(5) hv(6), of "replicate 32 3"]
  show ?thesis by simp
qed

definition ex_reply_cl :: cbor_lib where
  "ex_reply_cl = \<lparr>cl_load = (\<lambda>bs. Some (CMap True
     (if bs = [1, 2] then attest_reply (replicate 32 3) [5] else ex_bundle [6] [4] (replicate 32 7)))), cl_ser = (\<lambda>_. [])\<rparr>"

theorem test_tpmd_shows_witness:
  "\<exists>w'. test_tpmd 40 net_ops ex_reply_cl ex_tss (replicate 108 NUL) 0 0 True [''test_tpmd'', ''s''] (ex_net [[2, 1, 0, 0, 2], [0, 0, 0, 1, 2]]) =
       Inr ((0, Some \<lparr>sr_quote = quote_shown Pica_Evidence.ex_attest, sr_hash = replicate 32 7, sr_alg = TPM2_ALG_RSASSA,
         sr_nonce = replicate 32 3\<rparr>), w') \<and>
     net_sent w' = test_requests 0 0 \<and> net_unread w' = []"
proof -
  let ?h = "\<lparr>th_cmd = 0x0102, th_aux = 0, th_len = 2\<rparr>"
  have head: "enc_head ?h = [2, 1, 0, 0, 2, 0, 0, 0]" by code_simp
  have "net_unread (ex_net [[2, 1, 0, 0, 2], [0, 0, 0, 1, 2]]) = enc_head ?h @ [1, 2] @ []"
    by (simp add: net_unread_def ex_net_def head)
  moreover have "cl_load ex_reply_cl [1, 2] = Some (CMap True (attest_reply (replicate 32 3) [5]))"
    "cl_load ex_reply_cl [5] = Some (CMap True (ex_bundle [6] [4] (replicate 32 7)))"
    by (simp_all add: ex_reply_cl_def)
  moreover have "un_attest ex_tss q = (0, Pica_Evidence.ex_attest)" "un_signature ex_tss [4] = (0, SigRsaSsa TPM2_ALG_SHA256 [4])" for q
    by (simp_all add: ex_tss_def)
  ultimately show ?thesis
    using test_tpmd_shows [of "''s''" "replicate 108 NUL" 40 "[1, 2]" "ex_net [[2, 1, 0, 0, 2], [0, 0, 0, 1, 2]]" ?h "[]"
        ex_reply_cl True "replicate 32 3" "[5]" True "[6]" "[4]" "replicate 32 7" ex_tss Pica_Evidence.ex_attest
        "SigRsaSsa TPM2_ALG_SHA256 [4]" 0 0 "''test_tpmd''"] ex_host_facts(5)
    by (simp add: TESTBUF_SZ_def net_sent_def ex_net_def)
qed

end
