(* ===== verification/Spec2Isabelle.thy ===== *)
theory Spec2Isabelle
  imports Attestation Conftool Tls_Enclave Enclave_Libc Host_Tpm2 Tls_Sgx_Samples Sgx_Proto_Main Tpm_Tools
begin

text \<open>
  A model of portable TLS remote attestation and of PICA, its attestation of
  process chains, with the theorems that make it correct.  Source names are
  relative to the root of the repository's files.

  \<^bold>\<open>The program.\<close>  PICA lets an SGX enclave decide whether the process chain that
  started it is allowed to.  The attester daemon (\<open>tpm2/\<close>) runs beside a TPM 2.0.  A
  client sends it a nonce over a local socket; the daemon takes the process id of
  its peer from the socket, walks from that process up to process 1, measures each
  executable and shared library with SHA-256 (cached by path), extends the hash of
  the packed chain into the nonce, has the TPM quote the result and answers with
  one CBOR message.  The client (\<open>src/libpica_clnt.c\<close>, driven by
  \<open>pica_poc/Enclave/main.c\<close>) reads a sealed configuration of registered binaries and
  a JSON policy, verifies the message, compares the chain with the configuration,
  and looks up what the policy lets the executable do.  Beside it, \<open>src/libtlsra.c\<close>
  with \<open>libcert.c\<close>, \<open>libintel.c\<close> and \<open>libtpm2.c\<close> carries SGX or TPM evidence in
  the certificates of a TLS handshake.

  \<^bold>\<open>Conventions\<close> (\<open>Prelude\<close>).  One HOL definition per C function, with state passed
  explicitly: the argument \<open>w\<close> is everything outside the process, an \<open>htable\<close> or
  \<open>fp_htable\<close> is a static table of the code.  Undefined behaviour, a call outside a
  library's contract and \<open>abort\<close> are values \<open>Inl\<close> of type \<open>fault\<close>; errors that the
  code reports are ordinary results.  NULL is \<open>None\<close>; memory that may never have
  been set is a \<open>slot\<close>.  Integers have the width of the code (\<open>u32\<close>, \<open>u64\<close>) where it
  matters and are HOL integers where it does not.  Code that is not in the
  repository (system calls, OpenSSL, libcbor, json-c, TSS, the SGX SDK, DCAP,
  murmur3) is a parameter, as a record of functions; laws that a theorem needs are
  among its hypotheses and every such theorem is applied to a concrete instance by
  the theorem with the suffix \<open>_witness\<close>.  An edge call of an enclave is either given
  the chance not to reach the host (\<open>okc\<close>) or taken to reach it, as the theory says.
  An allocation whose result the code tests may fail; one it does not test succeeds,
  except where \<open>pica_sgx\<close> allocates the size of a file.
  Messages, timing and freeing are left out.

  \<^bold>\<open>Theories and sources.\<close>
  \<^item> \<open>Prelude\<close>, \<open>Codec\<close> (structs as bytes), \<open>Cbor_Model\<close> (items and accessors of
    libcbor): shared vocabulary.
  \<^item> \<open>Io\<close> (files), \<open>Enclave_Libc\<close> (system calls and output of enclave code):
    \<open>src/libio.c\<close>.  \<open>Sock\<close> (whole buffers, local sockets), \<open>Sock_Inet\<close> (internet
    sockets): \<open>src/libsock.c\<close>, \<open>tpm2/libsock.c\<close>.
  \<^item> \<open>Pica_Types\<close>, \<open>Pica_Htable\<close>, \<open>Pica_Verify\<close>, \<open>Pica_Conf\<close>, \<open>Pica_Read\<close>, \<open>Pica_Policy\<close>,
    \<open>Pica_Evidence\<close>, \<open>Pica_Extract\<close>: \<open>src/libpica_clnt.c\<close> in the order of its parts
    (data, hash table, checks of a chain, configuration file and its reader, policy,
    TPM evidence, decoding of a measurement); \<open>Tpm_Common\<close>: \<open>src/libpica_common.c\<close>.
  \<^item> \<open>Pica_Main\<close>: \<open>pica_request_measure\<close> and \<open>pica_poc/Enclave/main.c\<close>.
  \<^item> \<open>Measure\<close>: \<open>src/libmeasure.c\<close>.  \<open>Procchain\<close>: \<open>tpm2/libprocchain.c\<close> and the
    packing in \<open>tpm2/libcbor.c\<close>.  \<open>Quote\<close>: \<open>tpm2/libquote.c\<close>.
  \<^item> \<open>Tpmd_Packet\<close>, \<open>Tpm_Daemon\<close>: \<open>tpm2/tpmdaemon.c\<close> and the enclave of the daemon;
    \<open>Daemon_Protocol\<close>: what the daemon promises; \<open>Attestation\<close>: both ends together.
  \<^item> \<open>Pem_Base64\<close>, \<open>Sgx_Evidence\<close>: \<open>src/libintel.c\<close>.  \<open>Tpm2_Claims\<close>: \<open>src/libtpm2.c\<close>.
    \<open>Cert\<close>: \<open>src/libcert.c\<close>.  \<open>Tls_Ra\<close>: \<open>src/libtlsra.c\<close>; \<open>Tls_Enclave\<close>: its file
    functions in a build for an enclave.
  \<^item> \<open>Host_Tpm2\<close>: \<open>tls_sgx/Host/tpm2.c\<close>, the TPM calls of the host of a TLS enclave.
    \<open>Enclave_Args\<close>: the arguments that \<open>tls_sgx/Host/host_lib.c\<close> hands to an enclave, and
    the options.  \<open>Tls_Samples\<close>: the client and server of \<open>test/\<close>; \<open>Tls_Sgx_Samples\<close>: those
    of \<open>tls_sgx/Enclave\<close> with the sockets and programs of \<open>tls_sgx/Host\<close>.
  \<^item> \<open>Conftool\<close>: \<open>src/conftool.c\<close>, the tool that shows and extends a configuration, and
    \<open>pica_tools/\<close>, its variant for sealed files.
  \<^item> \<open>Tpm_Tools\<close>: \<open>tpm2/get_quote.c\<close>, \<open>tpm2/sealtest.c\<close> and \<open>tpm2/test_tpmd.c\<close>, the programs
    that register a quote, seal a file and try the daemon.
  \<^item> \<open>Sgx_Proto\<close>, \<open>Sgx_Proto_Main\<close>: the earlier client of \<open>pica_sgx/\<close> (\<open>Enclave/picatest.c\<close>,
    what of \<open>Enclave/libpica.c\<close> differs from \<open>src/libpica_clnt.c\<close>, and the calls of
    \<open>Host/\<close> it makes), which reads the same configuration and policy files.

  \<^bold>\<open>Interfaces.\<close>  Each is a locale whose laws an interpretation proves of the code's
  model: \<open>struct_codec\<close> (a struct of fixed size and its inverse decoding) for the
  packet header and the three structs of the configuration file; \<open>first_wins\<close> (a
  table in which the first registration of a key stays) for the hash table of PICA;
  \<open>stream_socket\<close> (reads and writes of arbitrary size on a stream) for a network of
  waiting clients; \<open>quiet_host\<close> (calls that leave the connections alone) for the
  host side of the daemon.

  \<^bold>\<open>What is shown.\<close>
  \<^item> End to end: a daemon that can measure and quote answers a request with one
    packet, and a client that drew its nonce accepts the chain that configuration
    and policy allow; the client announces success only for signed quotes and
    registered chains; the daemon refines a server that sends one reply for each
    request that asks for one; the bytes it sends are always whole packets.
  \<^item> PICA: the functional behaviour of the checks, the first-match semantics of table,
    invocation chains and policy, and where they check less than they seem to (the
    nonce and the application hash of the evidence are not compared, an unregistered
    library passes).
  \<^item> Data: round trips of the configuration file, of policies, of packed process
    chains, of PEM files and of SGX evidence; agreement of the two decoders of a
    measurement; the selection of registers and how it is shown; sealed files; the typing of configuration entries read from arbitrary bytes; the
    arguments of an enclave.
  \<^item> Measurement: one digest per path as long as the cache lives, termination of the
    walk to process 1, the count of libraries.
  \<^item> TLS: what an accepting verdict of the callbacks implies, that an honest handshake
    completes, and the branches that accept without evidence or with a forged TPM quote.
  \<^item> The earlier client: what its success still implies, that neither the signature nor
    the nonce decides it, and that it reads and writes configurations and policies as
    the current one does.
  \<^item> Errors and bounds: reads and stores behind a buffer, unset results that are used,
    and failures that are reported as success.

  \<^bold>\<open>Loops and fuel.\<close>  Loops over arrays and messages are structural recursions or have
  a measure.  Those that may not end in C take fuel: receiving and sending over a socket
  (fuel as large as the buffer suffices, \<open>Sock\<close>), the walk to process 1 (fuel as
  large as the number of ancestors suffices, \<open>Procchain\<close>), the repeated shutdown of
  TLS, and the error branch of the sample client, which no fuel ends; in the PICA client
  \<open>MEASURE_SZ\<close> covers its buffer.  The theorems that the code returns have these
  bounds as hypotheses and conclude that it does.

  \<^bold>\<open>Not modelled.\<close>  The functions that only print, convert times or free; the calls of
  the enclave's C library that only report that they are missing; \<open>tpm2/libsslsign.c\<close>,
  which does not compile; the older copies of the same
  code in \<open>pica_sgx/conftool.c\<close>, \<open>certtest\<close>, \<open>certtest2\<close>; \<open>tpm2/libmeasurement.c\<close>, which
  the daemon links and which is \<open>src/libmeasure.c\<close> but for two includes; the samples of \<open>tlssample\<close>; the
  host programs of \<open>pica_poc\<close>, \<open>test_sgx\<close> and \<open>test_enclave\<close>, which only create an enclave; the socket layer of the Intel SDK; the native
  messaging sample and the OpenSSH measurements.
\<close>

end
